theory Spec2Isabelle
  imports Complex_Main "HOL-Library.Multiset"
begin

section \<open>Numbers\<close>

text \<open>
  JavaScript numbers are modelled as exact reals: the statistics, damages, amounts and
  times of the battle engine are finite numbers, and the model does not cover infinities
  or the rounding error of IEEE doubles. \<^verbatim>\<open>Math.round\<close> rounds to the nearest
  integer, a half going up; \<^verbatim>\<open>Math.floor\<close> is the floor.
\<close>

definition Math_round :: "real \<Rightarrow> real" where
  "Math_round x = of_int \<lfloor>x + 1 / 2\<rfloor>"

definition Math_floor :: "real \<Rightarrow> real" where
  "Math_floor x = of_int \<lfloor>x\<rfloor>"

text \<open>\<^verbatim>\<open>x || d\<close> on an optional number: the default when the field is absent or 0.\<close>

definition orDefault :: "real option \<Rightarrow> real \<Rightarrow> real" where
  "orDefault v d = (case v of None \<Rightarrow> d | Some x \<Rightarrow> if x = 0 then d else x)"

text \<open>\<^verbatim>\<open>time.toFixed(1)\<close> read back as a number: one decimal place, a half
  rounding away from zero.\<close>

definition toFixed1 :: "real \<Rightarrow> real" where
  "toFixed1 x = (if x < 0 then - (of_int \<lfloor>- x * 10 + 1 / 2\<rfloor> / 10)
                 else of_int \<lfloor>x * 10 + 1 / 2\<rfloor> / 10)"

text \<open>
  The current health and the current mana of a character are computed from fields that
  an effect object may lack, and arithmetic on a missing field gives \<^verbatim>\<open>NaN\<close>, with
  which the source goes on. These two quantities are of the type \<open>number\<close>, a real or
  \<^verbatim>\<open>NaN\<close>. \<open>toNumber\<close> is an optional field as an operand (\<^verbatim>\<open>undefined\<close>
  converts to \<^verbatim>\<open>NaN\<close>); \<open>numOp\<close> is an arithmetic operation or
  \<^verbatim>\<open>Math.min\<close>, whose result is \<^verbatim>\<open>NaN\<close> when an operand is; \<open>numCmp\<close> is
  a comparison, which is false when an operand is \<^verbatim>\<open>NaN\<close>; \<open>numMap\<close> is a
  function of one argument such as \<^verbatim>\<open>Math.floor\<close>.
\<close>

datatype number = Num real | NaN

definition toNumber :: "real option \<Rightarrow> number" where
  "toNumber v = (case v of None \<Rightarrow> NaN | Some x \<Rightarrow> Num x)"

fun numOp :: "(real \<Rightarrow> real \<Rightarrow> real) \<Rightarrow> number \<Rightarrow> number \<Rightarrow> number" where
  "numOp f (Num x) (Num y) = Num (f x y)"
| "numOp f _ _ = NaN"

fun numCmp :: "(real \<Rightarrow> real \<Rightarrow> bool) \<Rightarrow> number \<Rightarrow> number \<Rightarrow> bool" where
  "numCmp r (Num x) (Num y) = r x y"
| "numCmp r _ _ = False"

fun numMap :: "(real \<Rightarrow> real) \<Rightarrow> number \<Rightarrow> number" where
  "numMap f (Num x) = Num (f x)"
| "numMap f NaN = NaN"

section \<open>Data model\<close>

record stats =
  health :: real
  mana :: real
  minPhysicalDamage :: real
  maxPhysicalDamage :: real
  minMagicDamage :: real
  maxMagicDamage :: real
  attackSpeed :: real
  criticalChance :: real
  spellCritChance :: real
  physicalDamageReduction :: real
  magicDamageReduction :: real

record buff =
  b_name :: string
  b_type :: string
  b_amount :: real
  b_duration :: real
  b_endTime :: real

text \<open>
  A periodic effect object carries \<^verbatim>\<open>damage\<close> when it is built from a
  \<^verbatim>\<open>dotEffect\<close> or a \<^verbatim>\<open>criticalEffect\<close>, and \<^verbatim>\<open>amount\<close> when it is
  built from a \<^verbatim>\<open>periodicEffect\<close>; the other field is absent.
\<close>

record effect =
  e_name :: string
  e_type :: string
  e_damage :: "real option"
  e_amount :: "real option"
  e_duration :: real
  e_interval :: real
  e_lastProcTime :: real
  e_endTime :: real
  e_sourceName :: string

text \<open>
  Ability definitions (\<^verbatim>\<open>abilities.json\<close>, read through \<^verbatim>\<open>ability-service\<close>). The
  effect shapes are optional fields of the ability object. A numeric field that the
  engine reads with a default (\<^verbatim>\<open>x || d\<close>) is optional; one that it reads without a
  default is present.
\<close>

record buffEffect =
  be_type :: string
  be_amount :: "real option"
  be_duration :: real
  be_targetsSelf :: "bool option"
  be_magicDamageScaling :: bool
  be_scalingRate :: "real option"
  be_baseAmount :: "real option"
  be_maxAmount :: "real option"

record healEffect =
  he_multiplier :: real

record dotEffect =
  de_type :: string
  de_damage :: real
  de_duration :: real
  de_interval :: "real option"

record periodicEffect =
  pe_type :: string
  pe_amount :: real
  pe_duration :: real
  pe_interval :: real

record multiAttack =
  ma_count :: "nat option"
  ma_delay :: "real option"

record criticalEffect =
  ce_type :: string
  ce_damagePercent :: real
  ce_duration :: real
  ce_interval :: "real option"

record ability =
  a_id :: string
  a_name :: string
  a_type :: string
  a_cooldown :: real
  a_manaCost :: "real option"
  a_buffEffect :: "buffEffect option"
  a_healEffect :: "healEffect option"
  a_dotEffect :: "dotEffect option"
  a_periodicEffect :: "periodicEffect option"
  a_guaranteedCrit :: bool
  a_multiAttack :: "multiAttack option"
  a_damage :: "string option"
  a_damageMultiplier :: "real option"
  a_selfDamagePercent :: "real option"
  a_criticalEffect :: "criticalEffect option"
  a_baseCritBonus :: "real option"

text \<open>A persisted character, as \<^verbatim>\<open>simulateBattle\<close> receives it.\<close>

record characterData =
  d_id :: string
  d_name :: string
  d_playerId :: string
  d_stats :: stats
  d_attackType :: string
  d_rotation :: "string list"

text \<open>The battle-ready character of \<^verbatim>\<open>character-model.createBattleState\<close>.\<close>

record character =
  c_id :: string
  c_name :: string
  c_playerId :: string
  c_stats :: stats
  c_attackType :: string
  c_rotation :: "string list"
  currentHealth :: number
  currentMana :: number
  cooldowns :: "string \<rightharpoonup> real"
  periodicEffects :: "effect list"
  buffs :: "buff list"
  nextAbilityIndex :: nat

text \<open>
  Log messages: one constructor for each message template of the source, with the values
  the template interpolates. \<open>AbilityUse attacker magic ability\<close> is the
  \<^verbatim>\<open>abilityMessage\<close> prefix (\<^verbatim>\<open>casts\<close> when the ability's type is magic, else
  \<^verbatim>\<open>uses\<close>). A value read from an optional field of an effect is a \<open>real option\<close>
  (\<open>None\<close> prints as \<^verbatim>\<open>undefined\<close>), a value computed from health or mana a
  \<open>number\<close>.
\<close>

datatype abilityMessage = AbilityUse string bool string

datatype message =
    BattleStarted string string
  | InitialState string number number
  | WinsBattle string
  | TimeLimitWins string
  | TimeLimitDraw
  | FinalState string number "number option" number
  | UsesAbility abilityMessage
  | BuffPhysicalReduction abilityMessage real real
  | BuffDamageIncrease abilityMessage real real
  | BuffAttackSlow abilityMessage string real real
  | BuffOther abilityMessage string real
  | ManaDrainCast string string string number
  | ManaGain string "real option" string
  | Backlash string real string
  | DefeatedByOwnSpell string
  | IsBurning string real real
  | PhysicalHit string string bool string real
  | MagicHit string string bool string real
  | Defeated string
  | BuffRefreshed string string real
  | BuffGained string string real
  | EffectRefreshed string string real
  | EffectApplied string string real
  | Healed string number
  | EffectDamage string "real option" string
  | DefeatedBy string string
  | BurnedToAsh string
  | ManaLost string number string
  | RegenHealth string "real option" string
  | RegenMana string "real option" string
  | EffectExpired string string
  | BuffExpired string string

record logEntry =
  l_time :: real
  l_message :: message

text \<open>
  The battle state of \<^verbatim>\<open>battle-model.createBattleState\<close>. The timestamp and the
  generated battle id are left out; \<open>randomCalls\<close> counts the calls of
  \<^verbatim>\<open>Math.random()\<close> made so far, the \<open>n\<close>-th call returning \<open>rnd n\<close> for a
  sequence \<open>rnd\<close> that the functions below take as a parameter.
\<close>

record battleState =
  character1 :: character
  character2 :: character
  log :: "logEntry list"
  rounds :: nat
  winner :: "string option"
  randomCalls :: nat

text \<open>
  The source passes the attacker and the defender as references to the two characters of
  the battle state; the model names the one it means.
\<close>

datatype side = First | Second

fun other :: "side \<Rightarrow> side" where
  "other First = Second"
| "other Second = First"

fun getc :: "side \<Rightarrow> battleState \<Rightarrow> character" where
  "getc First s = character1 s"
| "getc Second s = character2 s"

fun setc :: "side \<Rightarrow> character \<Rightarrow> battleState \<Rightarrow> battleState" where
  "setc First c s = s\<lparr>character1 := c\<rparr>"
| "setc Second c s = s\<lparr>character2 := c\<rparr>"

definition nextRandom :: "(nat \<Rightarrow> real) \<Rightarrow> battleState \<Rightarrow> real \<times> battleState" where
  "nextRandom rnd s = (rnd (randomCalls s), s\<lparr>randomCalls := Suc (randomCalls s)\<rparr>)"

section \<open>battle-utils.js\<close>

text \<open>\<^verbatim>\<open>randomInt(min, max)\<close>, with the value \<open>r\<close> of \<^verbatim>\<open>Math.random()\<close>.\<close>

definition randomInt :: "real \<Rightarrow> real \<Rightarrow> real \<Rightarrow> real" where
  "randomInt r mn mx = Math_floor (r * (mx - mn + 1)) + mn"

definition calculateCritical :: "real \<Rightarrow> real \<Rightarrow> bool" where
  "calculateCritical r critChance \<longleftrightarrow> r * 100 \<le> critChance"

definition applyDamageReduction :: "real \<Rightarrow> real \<Rightarrow> real" where
  "applyDamageReduction baseDamage damageReduction =
     (let reductionMultiplier = min (8 / 10) (damageReduction / 100)
      in max 1 (Math_round (baseDamage * (1 - reductionMultiplier))))"

definition hasEnoughMana :: "character \<Rightarrow> ability \<Rightarrow> bool" where
  "hasEnoughMana ch ab \<longleftrightarrow>
     (case a_manaCost ab of
        None \<Rightarrow> True
      | Some cost \<Rightarrow> cost = 0 \<or> numCmp (\<ge>) (currentMana ch) (Num cost))"

definition createLogEntry :: "real \<Rightarrow> message \<Rightarrow> logEntry" where
  "createLogEntry time msg = \<lparr>l_time = toFixed1 time, l_message = msg\<rparr>"

text \<open>\<^verbatim>\<open>battleState.log.push(createLogEntry(time, msg))\<close>.\<close>

definition addLog :: "real \<Rightarrow> message \<Rightarrow> battleState \<Rightarrow> battleState" where
  "addLog time msg s = s\<lparr>log := log s @ [createLogEntry time msg]\<rparr>"

text \<open>The \<^verbatim>\<open>forEach\<close> of \<^verbatim>\<open>getEffectiveAttackSpeed\<close>, front to back.\<close>

fun attackSpeedModifier :: "buff list \<Rightarrow> real \<Rightarrow> real" where
  "attackSpeedModifier [] m = m"
| "attackSpeedModifier (b # bs) m =
     attackSpeedModifier bs
       (if b_type b = ''attackSpeedReduction'' then m * (1 + b_amount b / 100) else m)"

definition getEffectiveAttackSpeed :: "character \<Rightarrow> real" where
  "getEffectiveAttackSpeed ch = attackSpeed (c_stats ch) * attackSpeedModifier (buffs ch) 1"

section \<open>Damage of an attack\<close>

text \<open>
  The \<^verbatim>\<open>forEach\<close> over the attacker's buffs in \<^verbatim>\<open>performPhysicalAttack\<close> and
  \<^verbatim>\<open>performMagicAttack\<close> (the same loop in both): each \<^verbatim>\<open>damageIncrease\<close> buff
  multiplies the running damage, which is rounded after every buff.
\<close>

fun applyDamageBuffs :: "buff list \<Rightarrow> real \<Rightarrow> real" where
  "applyDamageBuffs [] baseDamage = baseDamage"
| "applyDamageBuffs (b # bs) baseDamage =
     applyDamageBuffs bs
       (if b_type b = ''damageIncrease''
        then Math_round (baseDamage * (1 + b_amount b / 100)) else baseDamage)"

text \<open>
  The \<^verbatim>\<open>forEach\<close> over the defender's buffs: every buff of the reduction type
  (\<^verbatim>\<open>physicalReduction\<close> or \<^verbatim>\<open>magicReduction\<close>) adds to the reduction.
\<close>

fun addReductionBuffs :: "string \<Rightarrow> buff list \<Rightarrow> real \<Rightarrow> real" where
  "addReductionBuffs ty [] damageReduction = damageReduction"
| "addReductionBuffs ty (b # bs) damageReduction =
     addReductionBuffs ty bs
       (if b_type b = ty then damageReduction + b_amount b / 100 else damageReduction)"

section \<open>Models: creating the battle state\<close>

definition createCharacterBattleState :: "characterData \<Rightarrow> character" where
  "createCharacterBattleState d =
     \<lparr>c_id = d_id d, c_name = d_name d, c_playerId = d_playerId d, c_stats = d_stats d,
      c_attackType = d_attackType d, c_rotation = d_rotation d,
      currentHealth = Num (health (d_stats d)), currentMana = Num (mana (d_stats d)),
      cooldowns = Map.empty, periodicEffects = [], buffs = [], nextAbilityIndex = 0\<rparr>"

definition createBattleState :: "character \<Rightarrow> character \<Rightarrow> battleState" where
  "createBattleState ch1 ch2 =
     \<lparr>character1 = ch1, character2 = ch2, log = [], rounds = 0, winner = None,
      randomCalls = 0\<rparr>"

definition initializeBattleLog :: "battleState \<Rightarrow> battleState" where
  "initializeBattleLog s =
     (let ch1 = character1 s; ch2 = character2 s;
          s = addLog 0 (BattleStarted (c_name ch1) (c_name ch2)) s;
          s = addLog (1 / 10) (InitialState (c_name ch1) (currentHealth ch1) (currentMana ch1)) s;
          s = addLog (2 / 10) (InitialState (c_name ch2) (currentHealth ch2) (currentMana ch2)) s
      in s)"

section \<open>The battle service: attacks\<close>

record attackResult =
  damage :: real
  isCritical :: bool
  baseDamage :: real

text \<open>
  \<open>att\<close> is the attacker, \<open>other att\<close> the defender. A guaranteed critical hit does
  not call \<^verbatim>\<open>calculateCritical\<close>, so it draws no random number.
\<close>

definition performPhysicalAttack ::
  "(nat \<Rightarrow> real) \<Rightarrow> side \<Rightarrow> real \<Rightarrow> string \<Rightarrow> real \<Rightarrow> bool \<Rightarrow> battleState
     \<Rightarrow> attackResult \<times> battleState" where
  "performPhysicalAttack rnd att time attackName multiplier guaranteedCrit s0 =
     (let attacker = getc att s0;
          minDmg = minPhysicalDamage (c_stats attacker);
          maxDmg = maxPhysicalDamage (c_stats attacker);
          (r, s) = nextRandom rnd s0;
          base = randomInt r minDmg maxDmg;
          base = Math_round (base * multiplier);
          base = applyDamageBuffs (buffs attacker) base;
          critChance = criticalChance (c_stats attacker);
          (isCrit, s) = (if guaranteedCrit then (True, s)
                         else (let (r2, s2) = nextRandom rnd s
                               in (calculateCritical r2 critChance, s2)));
          base = (if isCrit then Math_round (base * 2) else base);
          defender = getc (other att) s;
          damageReduction = physicalDamageReduction (c_stats defender) / 100;
          damageReduction = addReductionBuffs ''physicalReduction'' (buffs defender) damageReduction;
          finalDamage = applyDamageReduction base (damageReduction * 100);
          s = setc (other att)
                (defender\<lparr>currentHealth := numOp (-) (currentHealth defender) (Num finalDamage)\<rparr>) s;
          s = addLog time
                (PhysicalHit (c_name attacker) attackName isCrit (c_name defender) finalDamage) s;
          s = (if numCmp (\<le>) (currentHealth (getc (other att) s)) (Num 0)
               then addLog time (Defeated (c_name defender)) s else s)
      in (\<lparr>damage = finalDamage, isCritical = isCrit, baseDamage = base\<rparr>, s))"

text \<open>
  \<^verbatim>\<open>getAbilityByName\<close> is \<^verbatim>\<open>abilities.find(ability => ability.name === name)\<close>
  over the list of all abilities.
\<close>

definition getAbilityByName :: "ability list \<Rightarrow> string \<Rightarrow> ability option" where
  "getAbilityByName abilities nm = find (\<lambda>ab. a_name ab = nm) abilities"

definition getAbility :: "ability list \<Rightarrow> string \<Rightarrow> ability option" where
  "getAbility abilities abilityId = find (\<lambda>ab. a_id ab = abilityId) abilities"

definition performMagicAttack ::
  "(nat \<Rightarrow> real) \<Rightarrow> ability list \<Rightarrow> side \<Rightarrow> real \<Rightarrow> string \<Rightarrow> real \<Rightarrow> battleState
     \<Rightarrow> attackResult \<times> battleState" where
  "performMagicAttack rnd abilities att time attackName multiplier s0 =
     (let attacker = getc att s0;
          minDmg = minMagicDamage (c_stats attacker);
          maxDmg = maxMagicDamage (c_stats attacker);
          (r, s) = nextRandom rnd s0;
          base = randomInt r minDmg maxDmg;
          base = Math_round (base * multiplier);
          base = applyDamageBuffs (buffs attacker) base;
          critChance = spellCritChance (c_stats attacker);
          critChance = (case getAbilityByName abilities attackName of
                          None \<Rightarrow> critChance
                        | Some ab \<Rightarrow> (case a_baseCritBonus ab of
                                       None \<Rightarrow> critChance
                                     | Some bonus \<Rightarrow> critChance + bonus));
          (r2, s) = nextRandom rnd s;
          isCrit = calculateCritical r2 critChance;
          base = (if isCrit then Math_round (base * 2) else base);
          defender = getc (other att) s;
          damageReduction = magicDamageReduction (c_stats defender) / 100;
          damageReduction = addReductionBuffs ''magicReduction'' (buffs defender) damageReduction;
          finalDamage = applyDamageReduction base (damageReduction * 100);
          s = setc (other att)
                (defender\<lparr>currentHealth := numOp (-) (currentHealth defender) (Num finalDamage)\<rparr>) s;
          s = addLog time
                (MagicHit (c_name attacker) attackName isCrit (c_name defender) finalDamage) s;
          s = (if numCmp (\<le>) (currentHealth (getc (other att) s)) (Num 0)
               then addLog time (Defeated (c_name defender)) s else s)
      in (\<lparr>damage = finalDamage, isCritical = isCrit, baseDamage = base\<rparr>, s))"

definition performBasicAttack ::
  "(nat \<Rightarrow> real) \<Rightarrow> ability list \<Rightarrow> side \<Rightarrow> real \<Rightarrow> battleState \<Rightarrow> battleState" where
  "performBasicAttack rnd abilities att time s =
     (if c_attackType (getc att s) = ''magic''
      then snd (performMagicAttack rnd abilities att time ''Basic Magic Attack'' 1 s)
      else snd (performPhysicalAttack rnd att time ''Basic Attack'' 1 False s))"

section \<open>The battle service: buffs, periodic effects, healing\<close>

text \<open>
  \<^verbatim>\<open>existingBuff.endTime = ...\<close> assigns to the object that \<^verbatim>\<open>find\<close> returned,
  the first buff of the list with that type.
\<close>

fun refreshBuff :: "string \<Rightarrow> real \<Rightarrow> buff list \<Rightarrow> buff list" where
  "refreshBuff ty endT [] = []"
| "refreshBuff ty endT (b # bs) =
     (if b_type b = ty then b\<lparr>b_endTime := endT\<rparr> # bs else b # refreshBuff ty endT bs)"

definition applyBuff :: "side \<Rightarrow> real \<Rightarrow> buff \<Rightarrow> battleState \<Rightarrow> battleState" where
  "applyBuff who time b s =
     (let ch = getc who s in
      case find (\<lambda>x. b_type x = b_type b) (buffs ch) of
        Some existingBuff \<Rightarrow>
          addLog time (BuffRefreshed (c_name ch) (b_name b) (b_duration b))
            (setc who (ch\<lparr>buffs := refreshBuff (b_type b) (time + b_duration b) (buffs ch)\<rparr>) s)
      | None \<Rightarrow>
          addLog time (BuffGained (c_name ch) (b_name b) (b_duration b))
            (setc who (ch\<lparr>buffs := buffs ch @ [b]\<rparr>) s))"

fun refreshEffect :: "string \<Rightarrow> real \<Rightarrow> real \<Rightarrow> effect list \<Rightarrow> effect list" where
  "refreshEffect ty endT time [] = []"
| "refreshEffect ty endT time (e # es) =
     (if e_type e = ty then e\<lparr>e_endTime := endT, e_lastProcTime := time\<rparr> # es
      else e # refreshEffect ty endT time es)"

text \<open>\<open>src\<close> is the source of the effect, \<open>other src\<close> its target.\<close>

definition applyPeriodicEffect :: "side \<Rightarrow> real \<Rightarrow> effect \<Rightarrow> battleState \<Rightarrow> battleState" where
  "applyPeriodicEffect src time e s =
     (let target = getc (other src) s in
      case find (\<lambda>x. e_type x = e_type e) (periodicEffects target) of
        Some existingEffect \<Rightarrow>
          addLog time (EffectRefreshed (c_name target) (e_name e) (e_duration e))
            (setc (other src)
               (target\<lparr>periodicEffects :=
                  refreshEffect (e_type e) (time + e_duration e) time (periodicEffects target)\<rparr>) s)
      | None \<Rightarrow>
          addLog time (EffectApplied (c_name target) (e_name e) (e_duration e))
            (setc (other src)
               (target\<lparr>periodicEffects :=
                  periodicEffects target @ [e\<lparr>e_sourceName := c_name (getc src s)\<rparr>]\<rparr>) s))"

definition applyHeal :: "side \<Rightarrow> real \<Rightarrow> healEffect \<Rightarrow> battleState \<Rightarrow> battleState" where
  "applyHeal who time h s =
     (let ch = getc who s;
          avgDamage = (minMagicDamage (c_stats ch) + maxMagicDamage (c_stats ch)) / 2;
          healAmount = Math_round (avgDamage * he_multiplier h);
          previousHealth = currentHealth ch;
          newHealth = numOp min (Num (health (c_stats ch)))
                        (numOp (+) (currentHealth ch) (Num healAmount));
          actualHeal = numOp (-) newHealth previousHealth
      in addLog time (Healed (c_name ch) actualHeal) (setc who (ch\<lparr>currentHealth := newHealth\<rparr>) s))"

section \<open>The battle service: abilities\<close>

text \<open>Decimal digits of a number, for the attack names \<^verbatim>\<open>(Hit n)\<close>.\<close>

fun string_of_nat :: "nat \<Rightarrow> string" where
  "string_of_nat n =
     (if n < 10 then [char_of (48 + n)]
      else string_of_nat (n div 10) @ [char_of (48 + n mod 10)])"

text \<open>
  \<^verbatim>\<open>type.charAt(0).toUpperCase() + type.slice(1)\<close>, on the letters a to z.
\<close>

fun capitalize :: "string \<Rightarrow> string" where
  "capitalize [] = []"
| "capitalize (c # cs) =
     (if 97 \<le> (of_char c :: nat) \<and> (of_char c :: nat) \<le> 122
      then char_of ((of_char c :: nat) - 32) # cs else c # cs)"

definition multiAttackHit ::
  "(nat \<Rightarrow> real) \<Rightarrow> ability list \<Rightarrow> side \<Rightarrow> real \<Rightarrow> nat \<Rightarrow> ability \<Rightarrow> battleState \<Rightarrow> battleState" where
  "multiAttackHit rnd abilities att hitTime n ab s =
     (let attackName = a_name ab @ '' (Hit '' @ string_of_nat n @ '')'';
          multiplier = orDefault (a_damageMultiplier ab) 1
      in if a_damage ab = Some ''physical''
         then snd (performPhysicalAttack rnd att hitTime attackName multiplier False s)
         else if a_damage ab = Some ''magic''
         then snd (performMagicAttack rnd abilities att hitTime attackName multiplier s)
         else snd (performPhysicalAttack rnd att hitTime attackName multiplier False s))"

text \<open>
  The loop \<^verbatim>\<open>for (let i = 1; i < attackCount; i++)\<close>: \<open>k\<close> is the number of
  iterations left, \<open>i\<close> the loop variable; the loop breaks when the defender is down.
\<close>

fun additionalHits ::
  "(nat \<Rightarrow> real) \<Rightarrow> ability list \<Rightarrow> side \<Rightarrow> real \<Rightarrow> ability \<Rightarrow> real \<Rightarrow> nat \<Rightarrow> nat
     \<Rightarrow> battleState \<Rightarrow> battleState" where
  "additionalHits rnd abilities att time ab attackDelay 0 i s = s"
| "additionalHits rnd abilities att time ab attackDelay (Suc k) i s =
     (if numCmp (\<le>) (currentHealth (getc (other att) s)) (Num 0) then s
      else additionalHits rnd abilities att time ab attackDelay k (Suc i)
             (multiAttackHit rnd abilities att (time + 1 / 10 + real i * attackDelay) (i + 1) ab s))"

definition processMultiAttackAbility ::
  "(nat \<Rightarrow> real) \<Rightarrow> ability list \<Rightarrow> side \<Rightarrow> real \<Rightarrow> ability \<Rightarrow> multiAttack \<Rightarrow> abilityMessage
     \<Rightarrow> battleState \<Rightarrow> battleState" where
  "processMultiAttackAbility rnd abilities att time ab ma abilityMsg s =
     (let s = addLog time (UsesAbility abilityMsg) s;
          attackCount = (case ma_count ma of None \<Rightarrow> 2 | Some n \<Rightarrow> if n = 0 then 2 else n);
          attackDelay = orDefault (ma_delay ma) (1 / 2);
          s = multiAttackHit rnd abilities att (time + 1 / 10) 1 ab s
      in additionalHits rnd abilities att time ab attackDelay (attackCount - 1) 1 s)"

definition buffAmount :: "character \<Rightarrow> buffEffect \<Rightarrow> real" where
  "buffAmount attacker be =
     (if be_magicDamageScaling be
      then (let avgMagicDmg =
                  (minMagicDamage (c_stats attacker) + maxMagicDamage (c_stats attacker)) / 2;
                scalingRate = orDefault (be_scalingRate be) (2 / 10);
                baseAmount = orDefault (be_baseAmount be) 15;
                maxAmount = orDefault (be_maxAmount be) 35
            in min maxAmount (baseAmount + Math_round (avgMagicDmg * scalingRate)))
      else orDefault (be_amount be) 0)"

definition processBuffAbility ::
  "side \<Rightarrow> real \<Rightarrow> ability \<Rightarrow> buffEffect \<Rightarrow> abilityMessage \<Rightarrow> battleState \<Rightarrow> battleState" where
  "processBuffAbility att time ab be abilityMsg s =
     (let amount = buffAmount (getc att s) be;
          buffTarget = (if be_targetsSelf be = Some False then other att else att);
          s = applyBuff buffTarget time
                \<lparr>b_name = a_name ab, b_type = be_type be, b_amount = amount,
                 b_duration = be_duration be, b_endTime = time + be_duration be\<rparr> s
      in if be_type be = ''physicalReduction''
         then addLog time (BuffPhysicalReduction abilityMsg amount (be_duration be)) s
         else if be_type be = ''damageIncrease''
         then addLog time (BuffDamageIncrease abilityMsg amount (be_duration be)) s
         else if be_type be = ''attackSpeedReduction''
         then addLog time
                (BuffAttackSlow abilityMsg (c_name (getc (other att) s)) amount (be_duration be)) s
         else addLog time (BuffOther abilityMsg (be_type be) (be_duration be)) s)"

definition processHealAbility ::
  "side \<Rightarrow> real \<Rightarrow> healEffect \<Rightarrow> abilityMessage \<Rightarrow> battleState \<Rightarrow> battleState" where
  "processHealAbility att time h abilityMsg s =
     applyHeal att time h (addLog time (UsesAbility abilityMsg) s)"

definition processDotAbility ::
  "(nat \<Rightarrow> real) \<Rightarrow> ability list \<Rightarrow> side \<Rightarrow> real \<Rightarrow> ability \<Rightarrow> dotEffect
     \<Rightarrow> battleState \<Rightarrow> battleState" where
  "processDotAbility rnd abilities att time ab de s =
     (let s = (if a_damage ab = Some ''physical''
               then snd (performPhysicalAttack rnd att time (a_name ab)
                           (orDefault (a_damageMultiplier ab) (11 / 10)) False s)
               else if a_damage ab = Some ''magic''
               then snd (performMagicAttack rnd abilities att time (a_name ab)
                           (orDefault (a_damageMultiplier ab) (11 / 10)) s)
               else s)
      in applyPeriodicEffect att time
           \<lparr>e_name = capitalize (de_type de), e_type = de_type de,
            e_damage = Some (de_damage de), e_amount = None,
            e_duration = de_duration de, e_interval = orDefault (de_interval de) 1,
            e_lastProcTime = time, e_endTime = time + de_duration de,
            e_sourceName = []\<rparr> s)"

definition processPeriodicAbility ::
  "side \<Rightarrow> real \<Rightarrow> ability \<Rightarrow> periodicEffect \<Rightarrow> abilityMessage \<Rightarrow> battleState \<Rightarrow> battleState" where
  "processPeriodicAbility att time ab pe abilityMsg s =
     (let s = applyPeriodicEffect att time
                \<lparr>e_name = a_name ab, e_type = pe_type pe,
                 e_damage = None, e_amount = Some (pe_amount pe),
                 e_duration = pe_duration pe, e_interval = pe_interval pe,
                 e_lastProcTime = time, e_endTime = time + pe_duration pe,
                 e_sourceName = []\<rparr> s
      in if pe_type pe = ''manaDrain''
         then (let defender = getc (other att) s;
                   manaDrained = numOp min (currentMana defender) (Num (pe_amount pe));
                   s = setc (other att)
                         (defender\<lparr>currentMana := numOp (-) (currentMana defender) manaDrained\<rparr>) s;
                   attacker = getc att s;
                   s = setc att
                         (attacker\<lparr>currentMana :=
                            numOp min (Num (mana (c_stats attacker)))
                              (numOp (+) (currentMana attacker) (Num (pe_amount pe)))\<rparr>) s;
                   s = addLog time
                         (ManaDrainCast (c_name attacker) (a_name ab) (c_name defender) manaDrained) s
               in if numCmp (>) manaDrained (Num 0)
                  then addLog (time + 1 / 10)
                         (ManaGain (c_name attacker) (Some (pe_amount pe)) (a_name ab)) s
                  else s)
         else addLog time (UsesAbility abilityMsg) s)"

definition processDamageAbility ::
  "(nat \<Rightarrow> real) \<Rightarrow> ability list \<Rightarrow> side \<Rightarrow> real \<Rightarrow> ability \<Rightarrow> battleState \<Rightarrow> battleState" where
  "processDamageAbility rnd abilities att time ab s =
     (if a_damage ab = Some ''physical''
      then snd (performPhysicalAttack rnd att time (a_name ab)
                  (orDefault (a_damageMultiplier ab) 1) False s)
      else if a_damage ab = Some ''magic''
      then (let damageMultiplier = orDefault (a_damageMultiplier ab) (15 / 10);
                (attackRes, s) = performMagicAttack rnd abilities att time (a_name ab) damageMultiplier s;
                s = (if orDefault (a_selfDamagePercent ab) 0 \<noteq> 0 \<and> damage attackRes > 0
                     then (let selfDamage =
                                 Math_round (damage attackRes
                                             * (orDefault (a_selfDamagePercent ab) 0 / 100))
                           in if selfDamage > 0
                              then (let attacker = getc att s;
                                        s = setc att
                                              (attacker\<lparr>currentHealth :=
                                                 numOp (-) (currentHealth attacker)
                                                   (Num selfDamage)\<rparr>) s;
                                        s = addLog (time + 1 / 10)
                                              (Backlash (c_name attacker) selfDamage (a_name ab)) s
                                    in if numCmp (\<le>) (currentHealth (getc att s)) (Num 0)
                                       then addLog (time + 2 / 10)
                                              (DefeatedByOwnSpell (c_name attacker)) s
                                       else s)
                              else s)
                     else s)
            in case a_criticalEffect ab of
                 None \<Rightarrow> s
               | Some ce \<Rightarrow>
                   if isCritical attackRes \<and> ce_type ce = ''burning''
                   then (let attacker = getc att s;
                             avgMagicDmg = (minMagicDamage (c_stats attacker)
                                            + maxMagicDamage (c_stats attacker)) / 2;
                             dotDamage = Math_round (avgMagicDmg * (ce_damagePercent ce / 100));
                             s = applyPeriodicEffect att time
                                   \<lparr>e_name = ''Burning'', e_type = ''burning'',
                                    e_damage = Some dotDamage, e_amount = None,
                                    e_duration = ce_duration ce,
                                    e_interval = orDefault (ce_interval ce) 1,
                                    e_lastProcTime = time, e_endTime = time + ce_duration ce,
                                    e_sourceName = []\<rparr> s
                         in addLog (time + 2 / 10)
                              (IsBurning (c_name (getc (other att) s)) dotDamage (ce_duration ce)) s)
                   else s)
      else performBasicAttack rnd abilities att time s)"

text \<open>The dispatch of \<^verbatim>\<open>processAbility\<close>, in the order of the source.\<close>

definition processAbility ::
  "(nat \<Rightarrow> real) \<Rightarrow> ability list \<Rightarrow> side \<Rightarrow> real \<Rightarrow> ability \<Rightarrow> battleState \<Rightarrow> battleState" where
  "processAbility rnd abilities att time ab s =
     (let abilityMsg = AbilityUse (c_name (getc att s)) (a_type ab = ''magic'') (a_name ab)
      in case a_buffEffect ab of
           Some be \<Rightarrow> processBuffAbility att time ab be abilityMsg s
         | None \<Rightarrow>
        (case a_healEffect ab of
           Some h \<Rightarrow> processHealAbility att time h abilityMsg s
         | None \<Rightarrow>
        (case a_dotEffect ab of
           Some de \<Rightarrow> processDotAbility rnd abilities att time ab de s
         | None \<Rightarrow>
        (case a_periodicEffect ab of
           Some pe \<Rightarrow> processPeriodicAbility att time ab pe abilityMsg s
         | None \<Rightarrow>
        (if a_guaranteedCrit ab
         then snd (performPhysicalAttack rnd att time (a_name ab)
                     (orDefault (a_damageMultiplier ab) (12 / 10)) True s)
         else (case a_multiAttack ab of
                 Some ma \<Rightarrow> processMultiAttackAbility rnd abilities att time ab ma abilityMsg s
               | None \<Rightarrow> processDamageAbility rnd abilities att time ab s))))))"

text \<open>
  \<^verbatim>\<open>processAttack\<close>: the next ability of the rotation when it is off cooldown, known
  and affordable, else a basic attack. An index outside the rotation reads
  \<^verbatim>\<open>undefined\<close>, which is no ability's id, so the attack is a basic one.
\<close>

definition processAttack ::
  "(nat \<Rightarrow> real) \<Rightarrow> ability list \<Rightarrow> side \<Rightarrow> real \<Rightarrow> battleState \<Rightarrow> battleState" where
  "processAttack rnd abilities att time s =
     (let attacker = getc att s in
      if nextAbilityIndex attacker < length (c_rotation attacker)
      then (let nextAbilityId = c_rotation attacker ! nextAbilityIndex attacker;
                cooldownEnd = orDefault (cooldowns attacker nextAbilityId) 0
            in if time \<ge> cooldownEnd
               then (case getAbility abilities nextAbilityId of
                       None \<Rightarrow> performBasicAttack rnd abilities att time s
                     | Some ab \<Rightarrow>
                         if hasEnoughMana attacker ab
                         then (let attacker =
                                     (if orDefault (a_manaCost ab) 0 \<noteq> 0
                                      then attacker\<lparr>currentMana :=
                                             numOp (-) (currentMana attacker)
                                               (Num (orDefault (a_manaCost ab) 0))\<rparr>
                                      else attacker);
                                   attacker = attacker\<lparr>cooldowns :=
                                                (cooldowns attacker)(a_id ab \<mapsto> time + a_cooldown ab)\<rparr>;
                                   s = setc att attacker s;
                                   s = processAbility rnd abilities att time ab s;
                                   attacker = getc att s
                               in setc att
                                    (attacker\<lparr>nextAbilityIndex :=
                                       (nextAbilityIndex attacker + 1) mod length (c_rotation attacker)\<rparr>) s)
                         else performBasicAttack rnd abilities att time s)
               else performBasicAttack rnd abilities att time s)
      else performBasicAttack rnd abilities att time s)"

section \<open>The battle service: processing effects\<close>

text \<open>
  The \<^verbatim>\<open>switch\<close> of \<^verbatim>\<open>processCharacterEffects\<close> for one effect that is due, on the
  character \<open>who\<close>. The source of a mana drain is found by name: character 1 when the
  effect's \<^verbatim>\<open>sourceName\<close> is character 1's name, else character 2. An unknown type
  only prints a warning. A field that the effect lacks is read as \<^verbatim>\<open>undefined\<close>:
  the health or mana computed from it is \<^verbatim>\<open>NaN\<close>.
\<close>

definition procEffect :: "side \<Rightarrow> real \<Rightarrow> effect \<Rightarrow> battleState \<Rightarrow> battleState" where
  "procEffect who time e s =
     (if e_type e = ''poison'' then
        (let ch = getc who s;
             s = setc who
                   (ch\<lparr>currentHealth := numOp (-) (currentHealth ch) (toNumber (e_damage e))\<rparr>) s;
             s = addLog time (EffectDamage (c_name ch) (e_damage e) (e_name e)) s
         in if numCmp (\<le>) (currentHealth (getc who s)) (Num 0)
            then addLog time (DefeatedBy (c_name ch) (e_name e)) s else s)
      else if e_type e = ''burning'' then
        (let ch = getc who s;
             s = setc who
                   (ch\<lparr>currentHealth := numOp (-) (currentHealth ch) (toNumber (e_damage e))\<rparr>) s;
             s = addLog time (EffectDamage (c_name ch) (e_damage e) (e_name e)) s
         in if numCmp (\<le>) (currentHealth (getc who s)) (Num 0)
            then addLog time (BurnedToAsh (c_name ch)) s else s)
      else if e_type e = ''manaDrain'' then
        (let src = (if e_sourceName e = c_name (character1 s) then First else Second);
             ch = getc who s;
             manaDrained = numOp min (currentMana ch) (toNumber (e_amount e));
             s = setc who (ch\<lparr>currentMana := numOp (-) (currentMana ch) manaDrained\<rparr>) s;
             source = getc src s;
             s = setc src
                   (source\<lparr>currentMana :=
                      numOp min (Num (mana (c_stats source)))
                        (numOp (+) (currentMana source) (toNumber (e_amount e)))\<rparr>) s
         in if numCmp (>) manaDrained (Num 0)
            then addLog (time + 1 / 10) (ManaGain (c_name source) (e_amount e) (e_name e))
                   (addLog time (ManaLost (c_name ch) manaDrained (e_name e)) s)
            else s)
      else if e_type e = ''regeneration'' then
        (let ch = getc who s;
             s = setc who
                   (ch\<lparr>currentHealth :=
                      numOp min (Num (health (c_stats ch)))
                        (numOp (+) (currentHealth ch) (toNumber (e_amount e)))\<rparr>) s
         in addLog time (RegenHealth (c_name ch) (e_amount e) (e_name e)) s)
      else if e_type e = ''manaRegen'' then
        (let ch = getc who s;
             s = setc who
                   (ch\<lparr>currentMana :=
                      numOp min (Num (mana (c_stats ch)))
                        (numOp (+) (currentMana ch) (toNumber (e_amount e)))\<rparr>) s
         in addLog time (RegenMana (c_name ch) (e_amount e) (e_name e)) s)
      else s)"

text \<open>Whether an effect is due at \<open>time\<close>: the condition of the tick.\<close>

definition effectDue :: "real \<Rightarrow> effect \<Rightarrow> bool" where
  "effectDue time e \<longleftrightarrow> time \<ge> e_lastProcTime e + e_interval e \<and> time < e_endTime e"

text \<open>
  The loop \<^verbatim>\<open>for (let i = length - 1; i >= 0; i--)\<close> over the periodic effects:
  \<open>effectsLoop who time n\<close> runs the iterations \<open>i = n - 1, ..., 0\<close>. It starts at the
  length of the list and removes only the entry it is at, so \<open>i\<close> stays within the list.
  A tick is the \<^verbatim>\<open>switch\<close> followed by \<^verbatim>\<open>effect.lastProcTime = time\<close>; the test
  of the expiry comes after it, whether the effect ticked or not.
\<close>

fun effectsLoop :: "side \<Rightarrow> real \<Rightarrow> nat \<Rightarrow> battleState \<Rightarrow> battleState" where
  "effectsLoop who time 0 s = s"
| "effectsLoop who time (Suc i) s =
     (let e = periodicEffects (getc who s) ! i;
          s = (if effectDue time e
               then (let s = procEffect who time e s;
                         ch = getc who s
                     in setc who
                          (ch\<lparr>periodicEffects :=
                             (periodicEffects ch)[i := e\<lparr>e_lastProcTime := time\<rparr>]\<rparr>) s)
               else s)
      in effectsLoop who time i
           (if time \<ge> e_endTime e
            then (let ch = getc who s
                  in addLog time (EffectExpired (e_name e) (c_name ch))
                       (setc who
                          (ch\<lparr>periodicEffects :=
                             take i (periodicEffects ch) @ drop (Suc i) (periodicEffects ch)\<rparr>) s))
            else s))"

fun buffsLoop :: "side \<Rightarrow> real \<Rightarrow> nat \<Rightarrow> battleState \<Rightarrow> battleState" where
  "buffsLoop who time 0 s = s"
| "buffsLoop who time (Suc i) s =
     (let ch = getc who s; b = buffs ch ! i
      in buffsLoop who time i
           (if time \<ge> b_endTime b
            then addLog time (BuffExpired (b_name b) (c_name ch))
                   (setc who (ch\<lparr>buffs := take i (buffs ch) @ drop (Suc i) (buffs ch)\<rparr>) s)
            else s))"

definition processCharacterEffects :: "side \<Rightarrow> real \<Rightarrow> battleState \<Rightarrow> battleState" where
  "processCharacterEffects who time s =
     (let s = effectsLoop who time (length (periodicEffects (getc who s))) s
      in buffsLoop who time (length (buffs (getc who s))) s)"

definition processEffects :: "real \<Rightarrow> battleState \<Rightarrow> battleState" where
  "processEffects time s =
     processCharacterEffects Second time (processCharacterEffects First time s)"

section \<open>The battle service: the battle loop and the winner\<close>

text \<open>
  The percentage of \<^verbatim>\<open>logFinalState\<close> is printed only for a health above 0, with
  one decimal place.
\<close>

definition logFinalState :: "real \<Rightarrow> battleState \<Rightarrow> battleState" where
  "logFinalState battleTime s =
     (let ch1 = character1 s; ch2 = character2 s;
          s = addLog (battleTime + 1 / 10)
                (FinalState (c_name ch1) (numMap Math_floor (currentHealth ch1))
                   (if numCmp (>) (currentHealth ch1) (Num 0)
                    then Some (numMap toFixed1
                                 (numOp (*) (numOp (/) (currentHealth ch1) (Num (health (c_stats ch1))))
                                    (Num 100)))
                    else None)
                   (numMap Math_floor (currentMana ch1))) s;
          s = addLog (battleTime + 2 / 10)
                (FinalState (c_name ch2) (numMap Math_floor (currentHealth ch2))
                   (if numCmp (>) (currentHealth ch2) (Num 0)
                    then Some (numMap toFixed1
                                 (numOp (*) (numOp (/) (currentHealth ch2) (Num (health (c_stats ch2))))
                                    (Num 100)))
                    else None)
                   (numMap Math_floor (currentMana ch2))) s
      in s)"

definition determineWinner :: "real \<Rightarrow> battleState \<Rightarrow> battleState" where
  "determineWinner battleTime s =
     (let ch1 = character1 s; ch2 = character2 s in
      if numCmp (\<le>) (currentHealth ch1) (Num 0)
      then logFinalState battleTime
             (addLog battleTime (WinsBattle (c_name ch2)) (s\<lparr>winner := Some (c_id ch2)\<rparr>))
      else if numCmp (\<le>) (currentHealth ch2) (Num 0)
      then logFinalState battleTime
             (addLog battleTime (WinsBattle (c_name ch1)) (s\<lparr>winner := Some (c_id ch1)\<rparr>))
      else (let char1HealthPercent =
                  numOp (*) (numOp (/) (currentHealth ch1) (Num (health (c_stats ch1)))) (Num 100);
                char2HealthPercent =
                  numOp (*) (numOp (/) (currentHealth ch2) (Num (health (c_stats ch2)))) (Num 100)
            in logFinalState battleTime
                 (if numCmp (>) char1HealthPercent char2HealthPercent
                  then addLog battleTime (TimeLimitWins (c_name ch1)) (s\<lparr>winner := Some (c_id ch1)\<rparr>)
                  else if numCmp (>) char2HealthPercent char1HealthPercent
                  then addLog battleTime (TimeLimitWins (c_name ch2)) (s\<lparr>winner := Some (c_id ch2)\<rparr>)
                  else addLog battleTime TimeLimitDraw (s\<lparr>winner := None\<rparr>))))"

text \<open>The variables of the battle loop of \<^verbatim>\<open>simulateBattle\<close>.\<close>

record loopState =
  battle :: battleState
  char1NextAttack :: real
  char2NextAttack :: real
  battleTime :: real

definition maxBattleTime :: real where
  "maxBattleTime = 300"

definition loopCondition :: "loopState \<Rightarrow> bool" where
  "loopCondition ls \<longleftrightarrow>
     numCmp (>) (currentHealth (character1 (battle ls))) (Num 0)
     \<and> numCmp (>) (currentHealth (character2 (battle ls))) (Num 0)
     \<and> battleTime ls < maxBattleTime"

text \<open>One iteration of the loop body.\<close>

definition loopBody :: "(nat \<Rightarrow> real) \<Rightarrow> ability list \<Rightarrow> loopState \<Rightarrow> loopState" where
  "loopBody rnd abilities ls =
     (let ls = (if char1NextAttack ls \<le> char2NextAttack ls
                then (let t = char1NextAttack ls;
                          s = processAttack rnd abilities First t (battle ls)
                      in ls\<lparr>battle := s, battleTime := t,
                            char1NextAttack :=
                              char1NextAttack ls + getEffectiveAttackSpeed (character1 s)\<rparr>)
                else (let t = char2NextAttack ls;
                          s = processAttack rnd abilities Second t (battle ls)
                      in ls\<lparr>battle := s, battleTime := t,
                            char2NextAttack :=
                              char2NextAttack ls + getEffectiveAttackSpeed (character2 s)\<rparr>));
          s = processEffects (battleTime ls) (battle ls)
      in ls\<lparr>battle := s\<lparr>rounds := rounds s + 1\<rparr>\<rparr>)"

text \<open>
  The \<^verbatim>\<open>while\<close> loop, with fuel: \<open>None\<close> when the fuel runs out before the loop
  ends.
\<close>

fun battleLoop ::
  "nat \<Rightarrow> (nat \<Rightarrow> real) \<Rightarrow> ability list \<Rightarrow> loopState \<Rightarrow> loopState option" where
  "battleLoop 0 rnd abilities ls = None"
| "battleLoop (Suc n) rnd abilities ls =
     (if loopCondition ls then battleLoop n rnd abilities (loopBody rnd abilities ls)
      else Some ls)"

definition initialLoopState :: "characterData \<Rightarrow> characterData \<Rightarrow> loopState" where
  "initialLoopState d1 d2 =
     \<lparr>battle = initializeBattleLog
                 (createBattleState (createCharacterBattleState d1) (createCharacterBattleState d2)),
      char1NextAttack = 0, char2NextAttack = 0, battleTime = 0\<rparr>"

text \<open>
  \<^verbatim>\<open>simulateBattle\<close> up to the final battle state, and the result that
  \<^verbatim>\<open>formatBattleResult\<close> makes of it (the experience gained, which the character model
  computes, is left out).
\<close>

definition finalBattleState ::
  "nat \<Rightarrow> (nat \<Rightarrow> real) \<Rightarrow> ability list \<Rightarrow> characterData \<Rightarrow> characterData
     \<Rightarrow> battleState option" where
  "finalBattleState fuel rnd abilities d1 d2 =
     (case battleLoop fuel rnd abilities (initialLoopState d1 d2) of
        None \<Rightarrow> None
      | Some ls \<Rightarrow> Some (determineWinner (battleTime ls) (battle ls)))"

record battleResult =
  r_character :: string
  r_opponent :: string
  r_winner :: "string option"
  r_log :: "logEntry list"
  r_rounds :: nat

definition formatBattleResult :: "battleState \<Rightarrow> battleResult" where
  "formatBattleResult s =
     \<lparr>r_character = c_id (character1 s), r_opponent = c_id (character2 s),
      r_winner = winner s, r_log = log s, r_rounds = rounds s\<rparr>"

definition simulateBattle ::
  "nat \<Rightarrow> (nat \<Rightarrow> real) \<Rightarrow> ability list \<Rightarrow> characterData \<Rightarrow> characterData
     \<Rightarrow> battleResult option" where
  "simulateBattle fuel rnd abilities d1 d2 =
     (case finalBattleState fuel rnd abilities d1 d2 of
        None \<Rightarrow> None
      | Some s \<Rightarrow> Some (formatBattleResult s))"

section \<open>Matchmaking\<close>

text \<open>\<open>BattleThrew\<close> is an exception of the battle that matchmaking starts.\<close>

datatype error = BattleThrew

record queueEntry =
  q_characterId :: string
  q_playerId :: string
  q_timestamp :: string

record matchInfo =
  m_opponentId :: string
  m_battleId :: string

text \<open>The two module variables of \<^verbatim>\<open>matchmaking.js\<close>.\<close>

record matchmaking =
  matchmakingQueue :: "queueEntry list"
  pendingMatchNotifications :: "string \<rightharpoonup> matchInfo"

text \<open>\<^verbatim>\<open>findIndex\<close>: the index of the first element that satisfies the test.\<close>

fun findIndex :: "('a \<Rightarrow> bool) \<Rightarrow> 'a list \<Rightarrow> nat option" where
  "findIndex P [] = None"
| "findIndex P (x # xs) =
     (if P x then Some 0 else map_option Suc (findIndex P xs))"

definition getQueuePosition :: "matchmaking \<Rightarrow> string \<Rightarrow> nat option" where
  "getQueuePosition st characterId =
     map_option (\<lambda>index. index + 1)
       (findIndex (\<lambda>entry. q_characterId entry = characterId) (matchmakingQueue st))"

text \<open>
  \<^verbatim>\<open>findMatch\<close>. \<open>startBattle c1 c2\<close> stands for the call of
  \<^verbatim>\<open>startBattle\<close>, which reads the characters from the store, runs the battle and
  saves it: it gives the id of the battle result, or \<open>None\<close> when it throws (a
  character that is no longer in the store). The queue has been filtered by then.
\<close>

definition findMatch ::
  "(string \<Rightarrow> string \<Rightarrow> string option) \<Rightarrow> string \<Rightarrow> string \<Rightarrow> matchmaking
     \<Rightarrow> matchmaking \<times> (error + matchInfo option)" where
  "findMatch startBattle characterId playerId st =
     (case find (\<lambda>entry. q_characterId entry \<noteq> characterId \<and> q_playerId entry \<noteq> playerId)
             (matchmakingQueue st) of
        None \<Rightarrow> (st, Inr None)
      | Some opponent \<Rightarrow>
          (let st = st\<lparr>matchmakingQueue :=
                        filter (\<lambda>entry. q_characterId entry \<noteq> characterId
                                        \<and> q_characterId entry \<noteq> q_characterId opponent)
                          (matchmakingQueue st)\<rparr>
           in case startBattle characterId (q_characterId opponent) of
                None \<Rightarrow> (st, Inl BattleThrew)
              | Some battleId \<Rightarrow>
                  (st\<lparr>pendingMatchNotifications :=
                        (pendingMatchNotifications st)
                          (q_characterId opponent \<mapsto>
                             \<lparr>m_opponentId = characterId, m_battleId = battleId\<rparr>)\<rparr>,
                   Inr (Some \<lparr>m_opponentId = q_characterId opponent, m_battleId = battleId\<rparr>))))"

datatype queueResponse =
    MatchFound matchInfo
  | StillSearching "nat option"
  | AddedToQueue "nat option"

text \<open>
  \<^verbatim>\<open>existingEntry.timestamp = ...\<close> assigns to the first entry of the character.
\<close>

fun refreshTimestamp :: "string \<Rightarrow> string \<Rightarrow> queueEntry list \<Rightarrow> queueEntry list" where
  "refreshTimestamp characterId now [] = []"
| "refreshTimestamp characterId now (entry # es) =
     (if q_characterId entry = characterId then entry\<lparr>q_timestamp := now\<rparr> # es
      else entry # refreshTimestamp characterId now es)"

text \<open>\<^verbatim>\<open>addToQueue\<close>; \<open>now\<close> is the timestamp \<^verbatim>\<open>new Date().toISOString()\<close>.\<close>

definition addToQueue ::
  "(string \<Rightarrow> string \<Rightarrow> string option) \<Rightarrow> string \<Rightarrow> string \<Rightarrow> string \<Rightarrow> matchmaking
     \<Rightarrow> matchmaking \<times> (error + queueResponse)" where
  "addToQueue startBattle now characterId playerId st =
     (case pendingMatchNotifications st characterId of
        Some m \<Rightarrow>
          (st\<lparr>pendingMatchNotifications := (pendingMatchNotifications st)(characterId := None)\<rparr>,
           Inr (MatchFound m))
      | None \<Rightarrow>
          (case find (\<lambda>entry. q_characterId entry = characterId) (matchmakingQueue st) of
             Some existingEntry \<Rightarrow>
               (let st = st\<lparr>matchmakingQueue :=
                             refreshTimestamp characterId now (matchmakingQueue st)\<rparr>
                in (st, Inr (StillSearching (getQueuePosition st characterId))))
           | None \<Rightarrow>
               (let st = st\<lparr>matchmakingQueue :=
                             matchmakingQueue st
                             @ [\<lparr>q_characterId = characterId, q_playerId = playerId,
                                 q_timestamp = now\<rparr>]\<rparr>
                in case findMatch startBattle characterId playerId st of
                     (st, Inl err) \<Rightarrow> (st, Inl err)
                   | (st, Inr (Some m)) \<Rightarrow> (st, Inr (MatchFound m))
                   | (st, Inr None) \<Rightarrow>
                       (st, Inr (AddedToQueue (getQueuePosition st characterId))))))"

section \<open>Definitions used to state the properties\<close>

text \<open>
  The formulas of the specification for the damage of an attack: the defender's reduction
  is its stat plus the amounts of all its buffs of the reduction type, as a fraction; the
  final damage applies at most 80% of reduction and is at least 1.
\<close>

definition spec_reduction :: "string \<Rightarrow> real \<Rightarrow> buff list \<Rightarrow> real" where
  "spec_reduction ty stat bs =
     stat / 100 + (\<Sum>b\<leftarrow>filter (\<lambda>b. b_type b = ty) bs. b_amount b / 100)"

definition spec_finalDamage :: "real \<Rightarrow> real \<Rightarrow> real" where
  "spec_finalDamage base reduction = max 1 (Math_round (base * (1 - min (8 / 10) reduction)))"

text \<open>Example data for the concrete instances below.\<close>

definition exStats :: stats where
  "exStats =
     \<lparr>health = 100, mana = 50, minPhysicalDamage = 4, maxPhysicalDamage = 4,
      minMagicDamage = 6, maxMagicDamage = 6, attackSpeed = 5, criticalChance = 0,
      spellCritChance = 0, physicalDamageReduction = 0, magicDamageReduction = 0\<rparr>"

definition exData :: "string \<Rightarrow> string \<Rightarrow> string list \<Rightarrow> characterData" where
  "exData i p rot =
     \<lparr>d_id = i, d_name = i, d_playerId = p, d_stats = exStats,
      d_attackType = ''physical'', d_rotation = rot\<rparr>"

definition exBuff :: "string \<Rightarrow> real \<Rightarrow> buff" where
  "exBuff ty amount =
     \<lparr>b_name = ''Buff'', b_type = ty, b_amount = amount, b_duration = 10, b_endTime = 10\<rparr>"

text \<open>A battle state whose second character has two stacked physical reduction buffs.\<close>

definition exShielded :: battleState where
  "exShielded =
     createBattleState (createCharacterBattleState (exData ''a'' ''p'' []))
       ((createCharacterBattleState (exData ''b'' ''q'' []))
          \<lparr>buffs := [exBuff ''physicalReduction'' 60, exBuff ''physicalReduction'' 70]\<rparr>)"

text \<open>A battle state whose first character holds the buffs \<open>bs\<close>.\<close>

definition exBuffed :: "buff list \<Rightarrow> battleState" where
  "exBuffed bs =
     createBattleState ((createCharacterBattleState (exData ''a'' ''p'' []))\<lparr>buffs := bs\<rparr>)
       (createCharacterBattleState (exData ''b'' ''q'' []))"

text \<open>
  The part of a character that a battle never changes, and the part that only
  \<^verbatim>\<open>applyBuff\<close>, \<^verbatim>\<open>applyPeriodicEffect\<close> and the expiry loops change.
\<close>

definition static :: "character \<Rightarrow> string \<times> string \<times> string \<times> stats \<times> string \<times> string list" where
  "static ch = (c_id ch, c_name ch, c_playerId ch, c_stats ch, c_attackType ch, c_rotation ch)"

definition frame ::
  "character \<Rightarrow> (string \<times> string \<times> string \<times> stats \<times> string \<times> string list) \<times> buff list \<times> effect list" where
  "frame ch = (static ch, buffs ch, periodicEffects ch)"

text \<open>
  The invariant of a character: no two buffs of one type, no two periodic effects of one
  type, every buff satisfies \<open>Q\<close> (of its type and amount) and every periodic effect
  satisfies \<open>E\<close> (of its type, damage and amount). \<open>preserves Q E s s'\<close> says that
  \<open>s'\<close> has the static parts of \<open>s\<close> and the invariant if \<open>s\<close> has it;
  \<open>abilitiesOk\<close> that what the abilities build satisfies \<open>Q\<close> and \<open>E\<close>.
\<close>

definition charInv ::
  "(string \<Rightarrow> real \<Rightarrow> bool) \<Rightarrow> (string \<Rightarrow> real option \<Rightarrow> real option \<Rightarrow> bool)
     \<Rightarrow> character \<Rightarrow> bool" where
  "charInv Q E ch \<longleftrightarrow>
     distinct (map b_type (buffs ch)) \<and> distinct (map e_type (periodicEffects ch))
     \<and> (\<forall>b\<in>set (buffs ch). Q (b_type b) (b_amount b))
     \<and> (\<forall>e\<in>set (periodicEffects ch). E (e_type e) (e_damage e) (e_amount e))"

definition battleInv ::
  "(string \<Rightarrow> real \<Rightarrow> bool) \<Rightarrow> (string \<Rightarrow> real option \<Rightarrow> real option \<Rightarrow> bool)
     \<Rightarrow> battleState \<Rightarrow> bool" where
  "battleInv Q E s \<longleftrightarrow> charInv Q E (character1 s) \<and> charInv Q E (character2 s)"

definition sameStatic :: "battleState \<Rightarrow> battleState \<Rightarrow> bool" where
  "sameStatic s s' \<longleftrightarrow>
     static (character1 s') = static (character1 s) \<and> static (character2 s') = static (character2 s)"

definition preserves ::
  "(string \<Rightarrow> real \<Rightarrow> bool) \<Rightarrow> (string \<Rightarrow> real option \<Rightarrow> real option \<Rightarrow> bool)
     \<Rightarrow> battleState \<Rightarrow> battleState \<Rightarrow> bool" where
  "preserves Q E s s' \<longleftrightarrow> sameStatic s s' \<and> (battleInv Q E s \<longrightarrow> battleInv Q E s')"

definition abilitiesOk ::
  "(string \<Rightarrow> real \<Rightarrow> bool) \<Rightarrow> (string \<Rightarrow> real option \<Rightarrow> real option \<Rightarrow> bool)
     \<Rightarrow> ability list \<Rightarrow> battleState \<Rightarrow> bool" where
  "abilitiesOk Q E abilities s \<longleftrightarrow>
     (\<forall>ab\<in>set abilities.
        (\<forall>be. a_buffEffect ab = Some be \<longrightarrow>
           Q (be_type be) (buffAmount (character1 s) be)
           \<and> Q (be_type be) (buffAmount (character2 s) be))
        \<and> (\<forall>de. a_dotEffect ab = Some de \<longrightarrow> E (de_type de) (Some (de_damage de)) None)
        \<and> (\<forall>pe. a_periodicEffect ab = Some pe \<longrightarrow> E (pe_type pe) None (Some (pe_amount pe))))
     \<and> (\<forall>d. E ''burning'' (Some d) None)"

text \<open>
  The loop states that the battle loop goes through from \<open>ls0\<close>: \<open>ls0\<close> itself, and
  the state after an iteration of the loop from a state it goes through.
\<close>

inductive reaches :: "(nat \<Rightarrow> real) \<Rightarrow> ability list \<Rightarrow> loopState \<Rightarrow> loopState \<Rightarrow> bool"
  for rnd abilities ls0 where
    start: "reaches rnd abilities ls0 ls0"
  | step: "reaches rnd abilities ls0 ls \<Longrightarrow> loopCondition ls
           \<Longrightarrow> reaches rnd abilities ls0 (loopBody rnd abilities ls)"

text \<open>No two buffs of one type and no two periodic effects of one type.\<close>

definition uniqueTypes :: "character \<Rightarrow> bool" where
  "uniqueTypes ch \<longleftrightarrow>
     distinct (map b_type (buffs ch)) \<and> distinct (map e_type (periodicEffects ch))"

text \<open>A poison of 10 damage every 2 seconds for 6 seconds, applied at time 0.\<close>

definition exPoison :: effect where
  "exPoison = \<lparr>e_name = ''Poison'', e_type = ''poison'', e_damage = Some 10, e_amount = None,
     e_duration = 6, e_interval = 2, e_lastProcTime = 0, e_endTime = 6, e_sourceName = []\<rparr>"

text \<open>The health percentage that \<^verbatim>\<open>determineWinner\<close> compares.\<close>

definition healthPercent :: "character \<Rightarrow> number" where
  "healthPercent ch =
     numOp (*) (numOp (/) (currentHealth ch) (Num (health (c_stats ch)))) (Num 100)"

text \<open>
  A character with the given id (also its name and player), attack type, health, attack
  speed and rotation; and an ability that deals magic damage with a backlash of 100%.
\<close>

definition exFighter :: "string \<Rightarrow> string \<Rightarrow> real \<Rightarrow> real \<Rightarrow> string list \<Rightarrow> characterData" where
  "exFighter i atk hp spd rot =
     \<lparr>d_id = i, d_name = i, d_playerId = i,
      d_stats = \<lparr>health = hp, mana = 50, minPhysicalDamage = 4, maxPhysicalDamage = 4,
                 minMagicDamage = 6, maxMagicDamage = 6, attackSpeed = spd, criticalChance = 0,
                 spellCritChance = 0, physicalDamageReduction = 0, magicDamageReduction = 0\<rparr>,
      d_attackType = atk, d_rotation = rot\<rparr>"

definition exBlast :: ability where
  "exBlast =
     \<lparr>a_id = ''blast'', a_name = ''Blast'', a_type = ''magic'', a_cooldown = 0,
      a_manaCost = None, a_buffEffect = None, a_healEffect = None, a_dotEffect = None,
      a_periodicEffect = None, a_guaranteedCrit = False, a_multiAttack = None,
      a_damage = Some ''magic'', a_damageMultiplier = None, a_selfDamagePercent = Some 100,
      a_criticalEffect = None, a_baseCritBonus = None\<rparr>"

text \<open>
  An ability that slows the opponent's attacks by 50% for 10 seconds, and the start of a
  battle whose first character has it in its rotation.
\<close>

definition exSlow :: ability where
  "exSlow =
     \<lparr>a_id = ''slow'', a_name = ''Slow'', a_type = ''magic'', a_cooldown = 20,
      a_manaCost = Some 10,
      a_buffEffect = Some \<lparr>be_type = ''attackSpeedReduction'', be_amount = Some 50,
                           be_duration = 10, be_targetsSelf = Some False,
                           be_magicDamageScaling = False, be_scalingRate = None,
                           be_baseAmount = None, be_maxAmount = None\<rparr>,
      a_healEffect = None, a_dotEffect = None,
      a_periodicEffect = None, a_guaranteedCrit = False, a_multiAttack = None,
      a_damage = None, a_damageMultiplier = None, a_selfDamagePercent = None,
      a_criticalEffect = None, a_baseCritBonus = None\<rparr>"

definition exSlowBattle :: loopState where
  "exSlowBattle = initialLoopState (exFighter ''a'' ''physical'' 100 4 [''slow''])
                    (exFighter ''b'' ''physical'' 100 6 [])"

text \<open>
  One iteration of the loop over the periodic effects (the body of \<open>effectsLoop\<close> at
  index \<open>i\<close>), and what the loop does to the list: it keeps the effects that have not
  expired and sets \<^verbatim>\<open>lastProcTime\<close> of those that are due.
\<close>

definition effectsIter :: "side \<Rightarrow> real \<Rightarrow> nat \<Rightarrow> battleState \<Rightarrow> battleState" where
  "effectsIter who time i s =
     (let e = periodicEffects (getc who s) ! i;
          s = (if effectDue time e
               then (let s = procEffect who time e s;
                         ch = getc who s
                     in setc who
                          (ch\<lparr>periodicEffects :=
                             (periodicEffects ch)[i := e\<lparr>e_lastProcTime := time\<rparr>]\<rparr>) s)
               else s)
      in if time \<ge> e_endTime e
         then (let ch = getc who s
               in addLog time (EffectExpired (e_name e) (c_name ch))
                    (setc who
                       (ch\<lparr>periodicEffects :=
                          take i (periodicEffects ch) @ drop (Suc i) (periodicEffects ch)\<rparr>) s))
         else s)"

definition keepEffect :: "real \<Rightarrow> effect \<Rightarrow> bool" where
  "keepEffect time e \<longleftrightarrow> time < e_endTime e"

definition markEffect :: "real \<Rightarrow> effect \<Rightarrow> effect" where
  "markEffect time e = (if effectDue time e then e\<lparr>e_lastProcTime := time\<rparr> else e)"

text \<open>
  What the loop does to the rest of the battle state for one effect: the tick of the
  effect when it is due, and the expiry message when its end time has come.
  \<open>setEffects\<close> replaces the list of periodic effects of a character.
\<close>

definition effectStep :: "side \<Rightarrow> real \<Rightarrow> effect \<Rightarrow> battleState \<Rightarrow> battleState" where
  "effectStep who time e s =
     (let s = (if effectDue time e then procEffect who time e s else s)
      in if time \<ge> e_endTime e
         then addLog time (EffectExpired (e_name e) (c_name (getc who s))) s
         else s)"

definition setEffects :: "side \<Rightarrow> effect list \<Rightarrow> battleState \<Rightarrow> battleState" where
  "setEffects who es s = setc who ((getc who s)\<lparr>periodicEffects := es\<rparr>) s"

text \<open>
  A poison ability (10 damage every 2 seconds for 6 seconds, no direct hit, used once), a
  battle in which character ``a'' uses it at time 0 and then hits every 2 seconds, and the
  log lines of the periodic effects.
\<close>

definition exVenom :: ability where
  "exVenom =
     \<lparr>a_id = ''venom'', a_name = ''Venom'', a_type = ''physical'', a_cooldown = 100,
      a_manaCost = None, a_buffEffect = None, a_healEffect = None,
      a_dotEffect = Some \<lparr>de_type = ''poison'', de_damage = 10, de_duration = 6,
                          de_interval = Some 2\<rparr>,
      a_periodicEffect = None, a_guaranteedCrit = False, a_multiAttack = None,
      a_damage = None, a_damageMultiplier = None, a_selfDamagePercent = None,
      a_criticalEffect = None, a_baseCritBonus = None\<rparr>"

definition exVenom1 :: characterData where
  "exVenom1 = exFighter ''a'' ''physical'' 100 2 [''venom'']"

definition exVenom2 :: characterData where
  "exVenom2 = exFighter ''b'' ''physical'' 40 100 []"

definition isEffectLine :: "logEntry \<Rightarrow> bool" where
  "isEffectLine l =
     (case l_message l of EffectDamage _ _ _ \<Rightarrow> True | EffectExpired _ _ \<Rightarrow> True | _ \<Rightarrow> False)"

text \<open>
  A state where character ``b'' (50 of 100 health, 20 of 50 mana) carries one effect of
  each type, all applied at time 0 with an interval of 2, the burning ending at time 2
  and the others at time 6; the source of the mana drain is ``a'', who has 45 mana.
\<close>

definition exEffect :: "string \<Rightarrow> real option \<Rightarrow> real option \<Rightarrow> real \<Rightarrow> effect" where
  "exEffect ty d a endT =
     \<lparr>e_name = ty, e_type = ty, e_damage = d, e_amount = a, e_duration = endT,
      e_interval = 2, e_lastProcTime = 0, e_endTime = endT, e_sourceName = ''a''\<rparr>"

definition exAfflicted :: battleState where
  "exAfflicted =
     createBattleState
       ((createCharacterBattleState (exData ''a'' ''p'' []))\<lparr>currentMana := Num 45\<rparr>)
       ((createCharacterBattleState (exData ''b'' ''q'' []))
          \<lparr>currentHealth := Num 50, currentMana := Num 20,
           periodicEffects :=
             [exEffect ''poison'' (Some 10) None 6, exEffect ''burning'' (Some 5) None 2,
              exEffect ''manaDrain'' None (Some 8) 6, exEffect ''regeneration'' None (Some 7) 6,
              exEffect ''manaRegen'' None (Some 3) 6]\<rparr>)"

text \<open>
  The character that a mana drain tick credits: the source is looked up by name.
\<close>

definition drainSource :: "effect \<Rightarrow> battleState \<Rightarrow> side" where
  "drainSource e s = (if e_sourceName e = c_name (character1 s) then First else Second)"

text \<open>
  A mana drain of 20 cast by character ``a'', a state where it is on character ``b'', who
  has 5 mana left, while ``a'' has none, and the ability that applies such a drain.
\<close>

definition exDrainEffect :: effect where
  "exDrainEffect = \<lparr>e_name = ''Drain'', e_type = ''manaDrain'', e_damage = None, e_amount = Some 20,
     e_duration = 10, e_interval = 2, e_lastProcTime = 0, e_endTime = 10, e_sourceName = ''a''\<rparr>"

definition exDrained :: battleState where
  "exDrained =
     createBattleState ((createCharacterBattleState (exData ''a'' ''p'' []))\<lparr>currentMana := Num 0\<rparr>)
       ((createCharacterBattleState (exData ''b'' ''q'' []))
          \<lparr>currentMana := Num 5, periodicEffects := [exDrainEffect]\<rparr>)"

definition exDrain :: ability where
  "exDrain =
     \<lparr>a_id = ''drain'', a_name = ''Drain'', a_type = ''magic'', a_cooldown = 10,
      a_manaCost = None, a_buffEffect = None, a_healEffect = None, a_dotEffect = None,
      a_periodicEffect = Some \<lparr>pe_type = ''manaDrain'', pe_amount = 20, pe_duration = 10,
                               pe_interval = 2\<rparr>,
      a_guaranteedCrit = False, a_multiAttack = None,
      a_damage = None, a_damageMultiplier = None, a_selfDamagePercent = None,
      a_criticalEffect = None, a_baseCritBonus = None\<rparr>"

text \<open>
  For an assignment \<open>owner\<close> of players to characters: every waiting entry records the
  owner of its character, and every pending notification pairs characters of two players.
\<close>

definition queueOk :: "(string \<Rightarrow> string) \<Rightarrow> matchmaking \<Rightarrow> bool" where
  "queueOk owner st \<longleftrightarrow>
     (\<forall>entry\<in>set (matchmakingQueue st). q_playerId entry = owner (q_characterId entry))
     \<and> (\<forall>c m. pendingMatchNotifications st c = Some m \<longrightarrow> owner (m_opponentId m) \<noteq> owner c)"

text \<open>
  The state of the module when it is loaded, and a series of \<^verbatim>\<open>addToQueue\<close> calls,
  each character enqueued by its owner, with the response to each call. An exception
  of a call leaves the module state as the call changed it.
\<close>

definition initialMatchmaking :: matchmaking where
  "initialMatchmaking = \<lparr>matchmakingQueue = [], pendingMatchNotifications = Map.empty\<rparr>"

fun addAllToQueue ::
  "(string \<Rightarrow> string \<Rightarrow> string option) \<Rightarrow> (string \<Rightarrow> string) \<Rightarrow> (string \<times> string) list
     \<Rightarrow> matchmaking \<Rightarrow> (string \<times> (error + queueResponse)) list" where
  "addAllToQueue startBattle owner [] st = []"
| "addAllToQueue startBattle owner ((now, c) # rest) st =
     (case addToQueue startBattle now c (owner c) st of
        (st', r) \<Rightarrow> (c, r) # addAllToQueue startBattle owner rest st')"

text \<open>
  Characters A and B of player X and character C of player Y; a battle whose id names the
  two characters.
\<close>

definition exOwner :: "string \<Rightarrow> string" where
  "exOwner c = (if c = ''C'' then ''Y'' else ''X'')"

definition exStartBattle :: "string \<Rightarrow> string \<Rightarrow> string option" where
  "exStartBattle c1 c2 = Some (c1 @ ''-'' @ c2)"

text \<open>
  Valid combatants: both base attack speeds are positive, and \<open>lo > -100\<close> bounds from
  below the amount of every \<^verbatim>\<open>attackSpeedReduction\<close> buff that an ability can apply
  for either character, so that the effective attack speed stays above
  \<open>speedFloor\<close>, which is positive. \<open>battleFuel\<close> bounds the iterations of the loop,
  and \<open>potential\<close> is the measure that decreases.
\<close>

definition slowBounded :: "real \<Rightarrow> string \<Rightarrow> real \<Rightarrow> bool" where
  "slowBounded lo ty amount \<longleftrightarrow> (ty = ''attackSpeedReduction'' \<longrightarrow> lo \<le> amount)"

definition validCombatants :: "real \<Rightarrow> ability list \<Rightarrow> characterData \<Rightarrow> characterData \<Rightarrow> bool" where
  "validCombatants lo abilities d1 d2 \<longleftrightarrow>
     0 < attackSpeed (d_stats d1) \<and> 0 < attackSpeed (d_stats d2) \<and> - 100 < lo
     \<and> (\<forall>ab\<in>set abilities. \<forall>be. a_buffEffect ab = Some be \<longrightarrow>
           be_type be = ''attackSpeedReduction'' \<longrightarrow>
             lo \<le> buffAmount (createCharacterBattleState d1) be
             \<and> lo \<le> buffAmount (createCharacterBattleState d2) be)"

definition speedFloor :: "real \<Rightarrow> characterData \<Rightarrow> characterData \<Rightarrow> real" where
  "speedFloor lo d1 d2 =
     min (attackSpeed (d_stats d1)) (attackSpeed (d_stats d2)) * min 1 (1 + lo / 100)"

definition battleFuel :: "real \<Rightarrow> characterData \<Rightarrow> characterData \<Rightarrow> nat" where
  "battleFuel lo d1 d2 = 2 * nat \<lceil>maxBattleTime / speedFloor lo d1 d2\<rceil> + 2"

definition potential :: "real \<Rightarrow> loopState \<Rightarrow> nat" where
  "potential d ls =
     nat \<lceil>(300 - char1NextAttack ls) / d\<rceil> + nat \<lceil>(300 - char2NextAttack ls) / d\<rceil>"

text \<open>
  An effect that has the field its type reads; abilities whose damage-over-time effects are
  not of a type that reads \<^verbatim>\<open>amount\<close> and whose periodic effects are not of a type that
  reads \<^verbatim>\<open>damage\<close>.
\<close>

definition wellTyped :: "string \<Rightarrow> real option \<Rightarrow> real option \<Rightarrow> bool" where
  "wellTyped ty d a \<longleftrightarrow>
     (ty = ''poison'' \<or> ty = ''burning'' \<longrightarrow> d \<noteq> None)
     \<and> (ty = ''manaDrain'' \<or> ty = ''regeneration'' \<or> ty = ''manaRegen'' \<longrightarrow> a \<noteq> None)"

definition wellTypedAbilities :: "ability list \<Rightarrow> bool" where
  "wellTypedAbilities abilities \<longleftrightarrow>
     (\<forall>ab\<in>set abilities.
        (\<forall>de. a_dotEffect ab = Some de \<longrightarrow>
           de_type de \<noteq> ''manaDrain'' \<and> de_type de \<noteq> ''regeneration''
           \<and> de_type de \<noteq> ''manaRegen'')
        \<and> (\<forall>pe. a_periodicEffect ab = Some pe \<longrightarrow>
             pe_type pe \<noteq> ''poison'' \<and> pe_type pe \<noteq> ''burning''))"

text \<open>
  An ability that raises the user's damage by 25% for 10 seconds; a battle of a character
  with this ability against one with the slowing ability, after the first action of each:
  character ``a'' then holds a \<^verbatim>\<open>damageIncrease\<close> and an
  \<^verbatim>\<open>attackSpeedReduction\<close> buff.
\<close>

definition exRage :: ability where
  "exRage =
     \<lparr>a_id = ''rage'', a_name = ''Rage'', a_type = ''physical'', a_cooldown = 20,
      a_manaCost = None,
      a_buffEffect = Some \<lparr>be_type = ''damageIncrease'', be_amount = Some 25,
                           be_duration = 10, be_targetsSelf = None,
                           be_magicDamageScaling = False, be_scalingRate = None,
                           be_baseAmount = None, be_maxAmount = None\<rparr>,
      a_healEffect = None, a_dotEffect = None,
      a_periodicEffect = None, a_guaranteedCrit = False, a_multiAttack = None,
      a_damage = None, a_damageMultiplier = None, a_selfDamagePercent = None,
      a_criticalEffect = None, a_baseCritBonus = None\<rparr>"

definition exRageStart :: loopState where
  "exRageStart = initialLoopState (exFighter ''a'' ''physical'' 100 5 [''rage''])
                   (exFighter ''b'' ''physical'' 100 5 [''slow''])"

definition exRageBattle :: loopState where
  "exRageBattle =
     loopBody (\<lambda>_. 1 / 2) [exRage, exSlow] (loopBody (\<lambda>_. 1 / 2) [exRage, exSlow] exRageStart)"

text \<open>Both characters have a health that is a number.\<close>

definition healthDefined :: "battleState \<Rightarrow> bool" where
  "healthDefined s \<longleftrightarrow> currentHealth (character1 s) \<noteq> NaN \<and> currentHealth (character2 s) \<noteq> NaN"

text \<open>Two characters that act every 150 seconds, the first with the slowing ability.\<close>

definition exDuel1 :: characterData where
  "exDuel1 = exFighter ''a'' ''physical'' 100 150 [''slow'']"

definition exDuel2 :: characterData where
  "exDuel2 = exFighter ''b'' ''physical'' 150 150 []"

text \<open>
  Two characters of 9 health that hit for 4 every 200 seconds: they act at the times 0,
  200 and 400.
\<close>

definition exLate1 :: characterData where
  "exLate1 = exFighter ''a'' ''physical'' 9 200 []"

definition exLate2 :: characterData where
  "exLate2 = exFighter ''b'' ''physical'' 9 200 []"

text \<open>The battle of these two after four iterations of the loop.\<close>

definition exLateMid :: loopState where
  "exLateMid =
     loopBody (\<lambda>_. 1 / 2) []
       (loopBody (\<lambda>_. 1 / 2) []
          (loopBody (\<lambda>_. 1 / 2) []
             (loopBody (\<lambda>_. 1 / 2) [] (initialLoopState exLate1 exLate2))))"

text \<open>
  An ability whose \<^verbatim>\<open>periodicEffect\<close> is of the type \<^verbatim>\<open>poison\<close>: the effect it
  applies carries \<^verbatim>\<open>amount\<close>, and the tick of a poison reads \<^verbatim>\<open>damage\<close>. Two
  characters that act every 5 seconds, the first with this ability.
\<close>

definition exMiasma :: ability where
  "exMiasma =
     \<lparr>a_id = ''miasma'', a_name = ''Miasma'', a_type = ''magic'', a_cooldown = 20,
      a_manaCost = None, a_buffEffect = None, a_healEffect = None, a_dotEffect = None,
      a_periodicEffect = Some \<lparr>pe_type = ''poison'', pe_amount = 5, pe_duration = 10,
                               pe_interval = 5\<rparr>,
      a_guaranteedCrit = False, a_multiAttack = None,
      a_damage = None, a_damageMultiplier = None, a_selfDamagePercent = None,
      a_criticalEffect = None, a_baseCritBonus = None\<rparr>"

definition exMiasma1 :: characterData where
  "exMiasma1 = exFighter ''a'' ''physical'' 100 5 [''miasma'']"

definition exMiasma2 :: characterData where
  "exMiasma2 = exFighter ''b'' ''physical'' 100 5 []"

section \<open>Basic facts\<close>

lemma getc_setc: "getc sd (setc sd' c s) = (if sd = sd' then c else getc sd s)"
  by (cases sd; cases sd') auto

lemma getc_addLog [simp]: "getc sd (addLog t m s) = getc sd s"
  by (cases sd) (auto simp: addLog_def)

lemma getc_nextRandom [simp]: "getc sd (snd (nextRandom rnd s)) = getc sd s"
  by (cases sd) (auto simp: nextRandom_def)

lemma other_neq [simp]: "other sd \<noteq> sd" "sd \<noteq> other sd"
  by (cases sd; simp)+

lemma other_other [simp]: "other (other sd) = sd"
  by (cases sd) auto

lemma Math_round_mono: "x \<le> y \<Longrightarrow> Math_round x \<le> Math_round y"
  unfolding Math_round_def by (simp add: floor_mono)

lemma numOp_Num_right [simp]: "numOp f x (Num y) = NaN \<longleftrightarrow> x = NaN"
  by (cases x) simp_all

lemma numOp_Num_left [simp]: "numOp f (Num x) y = NaN \<longleftrightarrow> y = NaN"
  by (cases y) simp_all

lemma numOp_eq_NaN: "numOp f x y = NaN \<longleftrightarrow> x = NaN \<or> y = NaN"
  by (cases x; cases y) simp_all

lemma numCmp_NaN [simp]: "\<not> numCmp r NaN y" "\<not> numCmp r x NaN"
  by (cases x; simp)+

lemma distinct_filter_le1:
  "distinct (map f xs) \<Longrightarrow> length (filter (\<lambda>x. f x = v) xs) \<le> 1"
proof (induction xs)
  case Nil
  then show ?case by simp
next
  case (Cons x xs)
  show ?case
  proof (cases "f x = v")
    case True
    with Cons.prems have "v \<notin> f ` set xs" by auto
    then have "filter (\<lambda>x. f x = v) xs = []" by (auto simp: filter_empty_conv)
    with True show ?thesis by simp
  next
    case False
    with Cons show ?thesis by simp
  qed
qed

section \<open>Damage is at least 1 and the reduction is capped\<close>

lemma applyDamageReduction_ge_1: "applyDamageReduction b r \<ge> 1"
  by (simp add: applyDamageReduction_def Let_def)

lemma addReductionBuffs_sum:
  "addReductionBuffs ty bs r = r + (\<Sum>b\<leftarrow>filter (\<lambda>b. b_type b = ty) bs. b_amount b / 100)"
  by (induction bs arbitrary: r) auto

lemma applyDamageReduction_spec:
  "applyDamageReduction b (addReductionBuffs ty bs (stat / 100) * 100)
     = spec_finalDamage b (spec_reduction ty stat bs)"
proof -
  have "addReductionBuffs ty bs (stat / 100) * 100 / 100 = spec_reduction ty stat bs"
    by (simp add: spec_reduction_def addReductionBuffs_sum)
  then show ?thesis
    unfolding applyDamageReduction_def spec_finalDamage_def Let_def by (simp only:)
qed

lemma spec_finalDamage_ge_1: "spec_finalDamage b r \<ge> 1"
  by (simp add: spec_finalDamage_def)

lemma spec_finalDamage_cap: "spec_finalDamage b (max r (8 / 10)) = spec_finalDamage b (8 / 10)"
  by (simp add: spec_finalDamage_def)

lemma physical_damage:
  "damage (fst (performPhysicalAttack rnd att time nm multiplier gc s)) =
     spec_finalDamage (baseDamage (fst (performPhysicalAttack rnd att time nm multiplier gc s)))
       (spec_reduction ''physicalReduction''
          (physicalDamageReduction (c_stats (getc (other att) s))) (buffs (getc (other att) s)))"
  by (simp add: performPhysicalAttack_def Let_def split_beta applyDamageReduction_spec)

lemma physical_health:
  "currentHealth (getc (other att) (snd (performPhysicalAttack rnd att time nm multiplier gc s))) =
     numOp (-) (currentHealth (getc (other att) s))
       (Num (damage (fst (performPhysicalAttack rnd att time nm multiplier gc s))))"
  by (simp add: performPhysicalAttack_def Let_def split_beta getc_setc)

lemma magic_damage:
  "damage (fst (performMagicAttack rnd abilities att time nm multiplier s)) =
     spec_finalDamage (baseDamage (fst (performMagicAttack rnd abilities att time nm multiplier s)))
       (spec_reduction ''magicReduction''
          (magicDamageReduction (c_stats (getc (other att) s))) (buffs (getc (other att) s)))"
  by (simp add: performMagicAttack_def Let_def split_beta applyDamageReduction_spec)

lemma magic_health:
  "currentHealth (getc (other att) (snd (performMagicAttack rnd abilities att time nm multiplier s))) =
     numOp (-) (currentHealth (getc (other att) s))
       (Num (damage (fst (performMagicAttack rnd abilities att time nm multiplier s))))"
  by (simp add: performMagicAttack_def Let_def split_beta getc_setc)

text \<open>
  Claim C5. For every attack, physical or magic, against any defender: the damage of the
  attack result is the specification's formula of the (post-critical) base damage and the
  combined reduction, that is the defender's stat plus all its buffs of the matching type;
  it is at least 1; it is what the defender's health loses (a health that is \<^verbatim>\<open>NaN\<close>
  stays so); and a combined reduction above 80% gives the damage of 80%.
\<close>

theorem damage_at_least_one_reduction_capped:
  "(let res = fst (performPhysicalAttack rnd att time nm multiplier gc s);
        s' = snd (performPhysicalAttack rnd att time nm multiplier gc s);
        defender = getc (other att) s
    in damage res \<ge> 1
       \<and> damage res = spec_finalDamage (baseDamage res)
            (spec_reduction ''physicalReduction'' (physicalDamageReduction (c_stats defender))
               (buffs defender))
       \<and> currentHealth (getc (other att) s') = numOp (-) (currentHealth defender) (Num (damage res)))
   \<and> (let res = fst (performMagicAttack rnd abilities att time nm multiplier s);
          s' = snd (performMagicAttack rnd abilities att time nm multiplier s);
          defender = getc (other att) s
      in damage res \<ge> 1
         \<and> damage res = spec_finalDamage (baseDamage res)
              (spec_reduction ''magicReduction'' (magicDamageReduction (c_stats defender))
                 (buffs defender))
         \<and> currentHealth (getc (other att) s') = numOp (-) (currentHealth defender) (Num (damage res)))
   \<and> spec_finalDamage base (max reduction (8 / 10)) = spec_finalDamage base (8 / 10)
   \<and> spec_finalDamage base reduction \<ge> 1"
  unfolding Let_def
  using physical_damage[of rnd att time nm multiplier gc s] physical_health[of att rnd time nm multiplier gc s]
    magic_damage[of rnd abilities att time nm multiplier s] magic_health[of att rnd abilities time nm multiplier s]
    spec_finalDamage_ge_1 spec_finalDamage_cap
  by (simp only: simp_thms)

text \<open>
  An instance: a basic attack of base damage 4 against a defender with reduction
  buffs of 60% and 70% deals 1 damage, as 80% of reduction does.
\<close>

theorem damage_at_least_one_reduction_capped_witness:
  "damage (fst (performPhysicalAttack (\<lambda>_. 1 / 2) First 0 ''Basic Attack'' 1 False exShielded)) = 1
   \<and> baseDamage (fst (performPhysicalAttack (\<lambda>_. 1 / 2) First 0 ''Basic Attack'' 1 False exShielded)) = 4
   \<and> spec_reduction ''physicalReduction''
        (physicalDamageReduction (c_stats (getc (other First) exShielded)))
        (buffs (getc (other First) exShielded)) = 13 / 10
   \<and> spec_finalDamage 4 (13 / 10) = 1"
proof -
  have b: "baseDamage (fst (performPhysicalAttack (\<lambda>_. 1 / 2) First 0 ''Basic Attack'' 1 False exShielded)) = 4"
    by code_simp
  have r: "spec_reduction ''physicalReduction''
        (physicalDamageReduction (c_stats (getc (other First) exShielded)))
        (buffs (getc (other First) exShielded)) = 13 / 10"
    by code_simp
  have f: "spec_finalDamage 4 (13 / 10) = 1"
    by code_simp
  note inst = damage_at_least_one_reduction_capped
         [of "\<lambda>_. 1 / 2" First 0 "''Basic Attack''" 1 False exShielded, unfolded Let_def]
  have "damage (fst (performPhysicalAttack (\<lambda>_. 1 / 2) First 0 ''Basic Attack'' 1 False exShielded))
          = spec_finalDamage 4 (13 / 10)"
    using inst[THEN conjunct1, THEN conjunct2, THEN conjunct1] unfolding b r .
  with b r f show ?thesis by (simp only: simp_thms)
qed

section \<open>Permuting the buffs of the attacker\<close>

lemma randomCalls_setc [simp]: "randomCalls (setc sd c s) = randomCalls s"
  by (cases sd) auto

lemma fst_nextRandom: "fst (nextRandom rnd s) = rnd (randomCalls s)"
  by (simp add: nextRandom_def)

lemma randomCalls_nextRandom: "randomCalls (snd (nextRandom rnd s)) = Suc (randomCalls s)"
  by (simp add: nextRandom_def)

lemma applyDamageBuffs_filter:
  "applyDamageBuffs bs d = applyDamageBuffs (filter (\<lambda>b. b_type b = ''damageIncrease'') bs) d"
  by (induction bs arbitrary: d) auto

lemma filter_perm_short:
  assumes "mset bs' = mset bs" "length (filter P bs) \<le> 1"
  shows "filter P bs' = filter P bs"
proof -
  have m: "mset (filter P bs') = mset (filter P bs)"
    using assms(1) by (metis mset_filter)
  show ?thesis
  proof (cases "filter P bs")
    case Nil
    with m show ?thesis by simp
  next
    case (Cons x xs)
    with assms(2) have "xs = []" by simp
    with Cons m show ?thesis by (simp del: mset_filter)
  qed
qed

lemma applyDamageBuffs_perm:
  assumes "mset bs' = mset bs" "length (filter (\<lambda>b. b_type b = ''damageIncrease'') bs) \<le> 1"
  shows "applyDamageBuffs bs' d = applyDamageBuffs bs d"
  using filter_perm_short[OF assms] applyDamageBuffs_filter[of bs d] applyDamageBuffs_filter[of bs' d]
  by simp

lemma physical_perm:
  assumes "mset bs' = mset (buffs (getc att s))"
    "length (filter (\<lambda>b. b_type b = ''damageIncrease'') (buffs (getc att s))) \<le> 1"
  shows "fst (performPhysicalAttack rnd att time nm multiplier gc
                (setc att ((getc att s)\<lparr>buffs := bs'\<rparr>) s))
       = fst (performPhysicalAttack rnd att time nm multiplier gc s)"
  by (simp add: performPhysicalAttack_def Let_def split_beta getc_setc
      applyDamageBuffs_perm[OF assms] fst_nextRandom randomCalls_nextRandom)

lemma magic_perm:
  assumes "mset bs' = mset (buffs (getc att s))"
    "length (filter (\<lambda>b. b_type b = ''damageIncrease'') (buffs (getc att s))) \<le> 1"
  shows "fst (performMagicAttack rnd abilities att time nm multiplier
                (setc att ((getc att s)\<lparr>buffs := bs'\<rparr>) s))
       = fst (performMagicAttack rnd abilities att time nm multiplier s)"
  by (simp add: performMagicAttack_def Let_def split_beta getc_setc
      applyDamageBuffs_perm[OF assms] fst_nextRandom randomCalls_nextRandom
      cong: option.case_cong)

section \<open>What a battle preserves\<close>

lemma preserves_refl [simp]: "preserves Q E s s"
  by (simp add: preserves_def sameStatic_def)

lemma preserves_trans: "preserves Q E s s1 \<Longrightarrow> preserves Q E s1 s2 \<Longrightarrow> preserves Q E s s2"
  by (simp add: preserves_def sameStatic_def)

lemma frame_preserves:
  assumes "\<And>sd. frame (getc sd s') = frame (getc sd s)"
  shows "preserves Q E s s'"
  using assms[of First] assms[of Second]
  by (simp add: preserves_def sameStatic_def battleInv_def charInv_def frame_def)

lemma preserves_addLog [simp]: "preserves Q E s (addLog t m s') = preserves Q E s s'"
  by (simp add: preserves_def sameStatic_def battleInv_def addLog_def)

lemma frame_upd [simp]:
  "frame (ch\<lparr>currentHealth := h\<rparr>) = frame ch"
  "frame (ch\<lparr>currentMana := m\<rparr>) = frame ch"
  "frame (ch\<lparr>cooldowns := cd\<rparr>) = frame ch"
  "frame (ch\<lparr>nextAbilityIndex := i\<rparr>) = frame ch"
  by (simp_all add: frame_def static_def)

lemma frame_physical:
  "frame (getc sd (snd (performPhysicalAttack rnd att time nm multiplier gc s))) = frame (getc sd s)"
  by (simp add: performPhysicalAttack_def Let_def split_beta getc_setc)

lemma frame_magic:
  "frame (getc sd (snd (performMagicAttack rnd abilities att time nm multiplier s))) = frame (getc sd s)"
  by (simp add: performMagicAttack_def Let_def split_beta getc_setc)

lemma frame_basic:
  "frame (getc sd (performBasicAttack rnd abilities att time s)) = frame (getc sd s)"
  by (simp add: performBasicAttack_def frame_physical frame_magic)

lemma frame_applyHeal:
  "frame (getc sd (applyHeal who time h s)) = frame (getc sd s)"
  by (simp add: applyHeal_def Let_def getc_setc)

lemma frame_multiAttackHit:
  "frame (getc sd (multiAttackHit rnd abilities att t n ab s)) = frame (getc sd s)"
  by (simp add: multiAttackHit_def Let_def frame_physical frame_magic)

lemma frame_additionalHits:
  "frame (getc sd (additionalHits rnd abilities att time ab d k i s)) = frame (getc sd s)"
  by (induction k arbitrary: i s) (simp_all add: frame_multiAttackHit)

lemma frame_processMultiAttackAbility:
  "frame (getc sd (processMultiAttackAbility rnd abilities att time ab ma msg s)) = frame (getc sd s)"
  by (simp add: processMultiAttackAbility_def Let_def frame_additionalHits frame_multiAttackHit)

lemma frame_processHealAbility:
  "frame (getc sd (processHealAbility att time h msg s)) = frame (getc sd s)"
  by (simp add: processHealAbility_def frame_applyHeal)


lemma preserves_cong_frame:
  assumes "\<And>sd. frame (getc sd s2) = frame (getc sd s1)"
  shows "preserves Q E s s2 = preserves Q E s s1"
  using assms[of First] assms[of Second]
  by (simp add: preserves_def sameStatic_def battleInv_def charInv_def frame_def)

lemma preserves_setc_frame [simp]:
  "frame ch' = frame (getc who s') \<Longrightarrow> preserves Q E s (setc who ch' s') = preserves Q E s s'"
  by (rule preserves_cong_frame) (simp add: getc_setc)

lemma preserves_physical [simp]:
  "preserves Q E s (snd (performPhysicalAttack rnd att time nm multiplier gc s')) = preserves Q E s s'"
  by (rule preserves_cong_frame) (rule frame_physical)

lemma preserves_magic [simp]:
  "preserves Q E s (snd (performMagicAttack rnd abilities att time nm multiplier s')) = preserves Q E s s'"
  by (rule preserves_cong_frame) (rule frame_magic)

lemma preserves_basic [simp]:
  "preserves Q E s (performBasicAttack rnd abilities att time s') = preserves Q E s s'"
  by (rule preserves_cong_frame) (rule frame_basic)

lemma preserves_applyHeal [simp]:
  "preserves Q E s (applyHeal who time h s') = preserves Q E s s'"
  by (rule preserves_cong_frame) (rule frame_applyHeal)

lemma preserves_processMultiAttackAbility [simp]:
  "preserves Q E s (processMultiAttackAbility rnd abilities att time ab ma msg s') = preserves Q E s s'"
  by (rule preserves_cong_frame) (rule frame_processMultiAttackAbility)

lemma preserves_setc:
  assumes "preserves Q E s s'" "static ch' = static (getc who s')"
    "charInv Q E (getc who s') \<Longrightarrow> charInv Q E ch'"
  shows "preserves Q E s (setc who ch' s')"
  using assms by (cases who) (auto simp: preserves_def sameStatic_def battleInv_def)

lemma refreshBuff_map:
  "map (\<lambda>b. (b_type b, b_amount b)) (refreshBuff ty e bs) = map (\<lambda>b. (b_type b, b_amount b)) bs"
  by (induction bs) auto

lemma buffs_inv_pairs:
  "(distinct (map b_type bs) \<and> (\<forall>b\<in>set bs. Q (b_type b) (b_amount b))) \<longleftrightarrow>
   (distinct (map fst (map (\<lambda>b. (b_type b, b_amount b)) bs))
     \<and> (\<forall>p\<in>set (map (\<lambda>b. (b_type b, b_amount b)) bs). Q (fst p) (snd p)))"
  by (simp add: comp_def)

lemma charInv_refreshBuff:
  "charInv Q E ch \<Longrightarrow> charInv Q E (ch\<lparr>buffs := refreshBuff ty e (buffs ch)\<rparr>)"
  unfolding charInv_def
  using buffs_inv_pairs[of "refreshBuff ty e (buffs ch)" Q] buffs_inv_pairs[of "buffs ch" Q]
  by (simp add: refreshBuff_map)

lemma charInv_addBuff:
  "charInv Q E ch \<Longrightarrow> Q (b_type b) (b_amount b) \<Longrightarrow> find (\<lambda>x. b_type x = b_type b) (buffs ch) = None
     \<Longrightarrow> charInv Q E (ch\<lparr>buffs := buffs ch @ [b]\<rparr>)"
  by (auto simp: charInv_def find_None_iff)

lemma preserves_applyBuff:
  assumes "preserves Q E s s'" "Q (b_type b) (b_amount b)"
  shows "preserves Q E s (applyBuff who time b s')"
  unfolding applyBuff_def Let_def
  by (auto split: option.splits intro!: preserves_setc assms charInv_refreshBuff charInv_addBuff
      simp: static_def)

lemma refreshEffect_map:
  "map (\<lambda>e. (e_type e, e_damage e, e_amount e)) (refreshEffect ty e t es)
     = map (\<lambda>e. (e_type e, e_damage e, e_amount e)) es"
  by (induction es) auto

lemma effects_inv_triples:
  "(distinct (map e_type es) \<and> (\<forall>e\<in>set es. E (e_type e) (e_damage e) (e_amount e))) \<longleftrightarrow>
   (distinct (map fst (map (\<lambda>e. (e_type e, e_damage e, e_amount e)) es))
     \<and> (\<forall>p\<in>set (map (\<lambda>e. (e_type e, e_damage e, e_amount e)) es).
            E (fst p) (fst (snd p)) (snd (snd p))))"
  by (simp add: comp_def)

lemma charInv_refreshEffect:
  "charInv Q E ch \<Longrightarrow> charInv Q E (ch\<lparr>periodicEffects := refreshEffect ty e t (periodicEffects ch)\<rparr>)"
  unfolding charInv_def
  using effects_inv_triples[of "refreshEffect ty e t (periodicEffects ch)" E]
    effects_inv_triples[of "periodicEffects ch" E]
  by (simp add: refreshEffect_map)

lemma charInv_addEffect:
  "charInv Q E ch \<Longrightarrow> E (e_type e) (e_damage e) (e_amount e)
     \<Longrightarrow> find (\<lambda>x. e_type x = e_type e) (periodicEffects ch) = None
     \<Longrightarrow> charInv Q E (ch\<lparr>periodicEffects := periodicEffects ch @ [e\<lparr>e_sourceName := n\<rparr>]\<rparr>)"
  by (auto simp: charInv_def find_None_iff)

lemma preserves_applyPeriodicEffect:
  assumes "preserves Q E s s'" "E (e_type e) (e_damage e) (e_amount e)"
  shows "preserves Q E s (applyPeriodicEffect src time e s')"
  unfolding applyPeriodicEffect_def Let_def
  by (auto split: option.splits intro!: preserves_setc assms charInv_refreshEffect charInv_addEffect
      simp: static_def)

lemma preserves_processDotAbility:
  "preserves Q E s s' \<Longrightarrow> E (de_type de) (Some (de_damage de)) None
     \<Longrightarrow> preserves Q E s (processDotAbility rnd abilities att time ab de s')"
  unfolding processDotAbility_def Let_def
  by (auto intro!: preserves_applyPeriodicEffect)

lemma preserves_processPeriodicAbility:
  "preserves Q E s s' \<Longrightarrow> E (pe_type pe) None (Some (pe_amount pe))
     \<Longrightarrow> preserves Q E s (processPeriodicAbility att time ab pe msg s')"
  unfolding processPeriodicAbility_def Let_def
  by (auto intro!: preserves_applyPeriodicEffect)

lemma preserves_processDamageAbility:
  "preserves Q E s s' \<Longrightarrow> (\<And>d. E ''burning'' (Some d) None)
     \<Longrightarrow> preserves Q E s (processDamageAbility rnd abilities att time ab s')"
  unfolding processDamageAbility_def Let_def split_beta
  by (auto intro!: preserves_applyPeriodicEffect split: option.splits)


lemma buffAmount_static: "static c' = static c \<Longrightarrow> buffAmount c' be = buffAmount c be"
  by (simp add: buffAmount_def static_def)

lemma preserves_processBuffAbility:
  "preserves Q E s s' \<Longrightarrow> Q (be_type be) (buffAmount (getc att s') be)
     \<Longrightarrow> preserves Q E s (processBuffAbility att time ab be msg s')"
  unfolding processBuffAbility_def Let_def
  by (auto intro!: preserves_applyBuff)

lemma preserves_processAbility:
  assumes "preserves Q E s s'"
    and "\<And>be. a_buffEffect ab = Some be \<Longrightarrow> Q (be_type be) (buffAmount (getc att s') be)"
    and "\<And>de. a_dotEffect ab = Some de \<Longrightarrow> E (de_type de) (Some (de_damage de)) None"
    and "\<And>pe. a_periodicEffect ab = Some pe \<Longrightarrow> E (pe_type pe) None (Some (pe_amount pe))"
    and "\<And>d. E ''burning'' (Some d) None"
  shows "preserves Q E s (processAbility rnd abilities att time ab s')"
  unfolding processAbility_def Let_def
  using assms
  by (auto split: option.splits
      intro!: preserves_processBuffAbility preserves_processDotAbility
        preserves_processPeriodicAbility preserves_processDamageAbility
      simp: processHealAbility_def)

lemma getAbility_in: "getAbility abilities i = Some ab \<Longrightarrow> ab \<in> set abilities"
  by (auto simp: getAbility_def find_Some_iff)

lemma abilitiesOk_D:
  "abilitiesOk Q E abilities s \<Longrightarrow> ab \<in> set abilities \<Longrightarrow> a_buffEffect ab = Some be
     \<Longrightarrow> Q (be_type be) (buffAmount (getc sd s) be)"
  by (cases sd) (auto simp: abilitiesOk_def)

lemma abilitiesOk_static:
  "sameStatic s s' \<Longrightarrow> abilitiesOk Q E abilities s' = abilitiesOk Q E abilities s"
  by (simp add: abilitiesOk_def sameStatic_def buffAmount_static[of "character1 s'" "character1 s"]
      buffAmount_static[of "character2 s'" "character2 s"])

lemma abilitiesOk_dot:
  "abilitiesOk Q E abilities s \<Longrightarrow> ab \<in> set abilities \<Longrightarrow> a_dotEffect ab = Some de
     \<Longrightarrow> E (de_type de) (Some (de_damage de)) None"
  by (auto simp: abilitiesOk_def)

lemma abilitiesOk_periodic:
  "abilitiesOk Q E abilities s \<Longrightarrow> ab \<in> set abilities \<Longrightarrow> a_periodicEffect ab = Some pe
     \<Longrightarrow> E (pe_type pe) None (Some (pe_amount pe))"
  by (auto simp: abilitiesOk_def)

lemma abilitiesOk_burning: "abilitiesOk Q E abilities s \<Longrightarrow> E ''burning'' (Some d) None"
  by (auto simp: abilitiesOk_def)

lemma static_upd [simp]:
  "static (ch\<lparr>currentHealth := h\<rparr>) = static ch"
  "static (ch\<lparr>currentMana := m\<rparr>) = static ch"
  "static (ch\<lparr>cooldowns := cd\<rparr>) = static ch"
  "static (ch\<lparr>nextAbilityIndex := i\<rparr>) = static ch"
  "static (ch\<lparr>buffs := bs\<rparr>) = static ch"
  "static (ch\<lparr>periodicEffects := es\<rparr>) = static ch"
  by (simp_all add: static_def)

lemma preserves_processAttack:
  assumes "preserves Q E s s'" "abilitiesOk Q E abilities s'"
  shows "preserves Q E s (processAttack rnd abilities att time s')"
proof -
  have q: "Q (be_type be) (buffAmount (getc att (setc att ch s')) be)"
    if "getAbility abilities i = Some ab" "a_buffEffect ab = Some be"
      "static ch = static (getc att s')" for i ab be ch
    using abilitiesOk_D[OF assms(2) getAbility_in[OF that(1)] that(2), of att]
      buffAmount_static[OF that(3)]
    by (simp add: getc_setc)
  show ?thesis
    unfolding processAttack_def Let_def
    by (auto split: option.splits simp: assms(1) getc_setc
        intro!: preserves_processAbility q
          abilitiesOk_dot[OF assms(2) getAbility_in] abilitiesOk_periodic[OF assms(2) getAbility_in]
          abilitiesOk_burning[OF assms(2)])
qed


lemma frame_procEffect:
  "frame (getc sd (procEffect who time e s)) = frame (getc sd s)"
  unfolding procEffect_def Let_def
  by (auto simp: getc_setc simp del: setc.simps getc.simps)

lemma preserves_procEffect [simp]:
  "preserves Q E s (procEffect who time e s') = preserves Q E s s'"
  by (rule preserves_cong_frame) (rule frame_procEffect)

lemma types_mark: "map e_type (xs[i := (xs ! i)\<lparr>e_lastProcTime := t\<rparr>]) = map e_type xs"
  by (cases "i < length xs") (simp_all add: map_update list_update_same_conv list_update_beyond)

lemma distinct_remove_nth':
  "distinct ys \<Longrightarrow> distinct (take i ys @ drop (Suc i) ys)"
  using set_take_disj_set_drop_if_distinct[of ys i "Suc i"] by simp

lemma distinct_remove_nth:
  "distinct (map f xs) \<Longrightarrow> distinct (map f (take i xs @ drop (Suc i) xs))"
  using distinct_remove_nth'[of "map f xs" i] by (simp add: take_map drop_map)

lemma charInv_mark:
  "charInv Q E ch \<Longrightarrow>
   charInv Q E (ch\<lparr>periodicEffects :=
       (periodicEffects ch)[i := (periodicEffects ch ! i)\<lparr>e_lastProcTime := t\<rparr>]\<rparr>)"
  by (cases "i < length (periodicEffects ch)")
     (auto simp: charInv_def types_mark list_update_beyond dest!: set_update_subset_insert[THEN subsetD])

lemma charInv_removeEffect:
  "charInv Q E ch \<Longrightarrow>
   charInv Q E (ch\<lparr>periodicEffects := take i (periodicEffects ch) @ drop (Suc i) (periodicEffects ch)\<rparr>)"
  by (auto simp: charInv_def distinct_remove_nth simp del: map_append
      dest: in_set_takeD in_set_dropD)

lemma charInv_removeBuff:
  "charInv Q E ch \<Longrightarrow> charInv Q E (ch\<lparr>buffs := take i (buffs ch) @ drop (Suc i) (buffs ch)\<rparr>)"
  by (auto simp: charInv_def distinct_remove_nth simp del: map_append
      dest: in_set_takeD in_set_dropD)

lemma periodicEffects_frame:
  "frame c' = frame c \<Longrightarrow> periodicEffects c' = periodicEffects c"
  by (simp add: frame_def)

lemma effectsLoop_Suc:
  "effectsLoop who time (Suc i) s = effectsLoop who time i (effectsIter who time i s)"
  by (simp add: effectsIter_def Let_def)

lemma preserves_effectsIter:
  assumes "preserves Q E s s'"
  shows "preserves Q E s (effectsIter who time i s')"
proof -
  let ?e = "periodicEffects (getc who s') ! i"
  define s1 where "s1 = procEffect who time ?e s'"
  have pe: "periodicEffects (getc who s1) = periodicEffects (getc who s')"
    unfolding s1_def using frame_procEffect[of who who time ?e s'] by (rule periodicEffects_frame)
  have p1: "preserves Q E s s1" using assms by (simp add: s1_def)
  have p2: "preserves Q E s
              (setc who ((getc who s1)\<lparr>periodicEffects :=
                  (periodicEffects (getc who s1))[i := ?e\<lparr>e_lastProcTime := time\<rparr>]\<rparr>) s1)"
    unfolding pe[symmetric]
    using charInv_mark[of Q E "getc who s1" i time]
    by (intro preserves_setc p1) (simp_all add: pe)
  show ?thesis
    unfolding effectsIter_def Let_def s1_def[symmetric]
    using assms p2
    by (auto intro!: preserves_setc charInv_removeEffect)
qed

lemma preserves_effectsLoop:
  "preserves Q E s s' \<Longrightarrow> preserves Q E s (effectsLoop who time n s')"
proof (induction n arbitrary: s')
  case 0
  then show ?case by simp
next
  case (Suc i)
  show ?case
    unfolding effectsLoop_Suc by (rule Suc.IH) (rule preserves_effectsIter[OF Suc.prems])
qed

lemma preserves_buffsLoop:
  "preserves Q E s s' \<Longrightarrow> preserves Q E s (buffsLoop who time n s')"
proof (induction n arbitrary: s')
  case 0
  then show ?case by simp
next
  case (Suc i)
  show ?case
    unfolding buffsLoop.simps Let_def
    by (rule Suc.IH) (auto intro!: preserves_setc charInv_removeBuff Suc.prems)
qed

lemma preserves_processCharacterEffects:
  "preserves Q E s s' \<Longrightarrow> preserves Q E s (processCharacterEffects who time s')"
  unfolding processCharacterEffects_def Let_def
  by (intro preserves_buffsLoop preserves_effectsLoop)

lemma preserves_processEffects:
  "preserves Q E s s' \<Longrightarrow> preserves Q E s (processEffects time s')"
  unfolding processEffects_def by (intro preserves_processCharacterEffects)

section \<open>One buff and one periodic effect per type\<close>

lemma preserves_rounds [simp]: "preserves Q E s (s'\<lparr>rounds := n\<rparr>) = preserves Q E s s'"
  by (simp add: preserves_def sameStatic_def battleInv_def)

lemma preserves_loopBody:
  assumes "abilitiesOk Q E abilities (battle ls)"
  shows "preserves Q E (battle ls) (battle (loopBody rnd abilities ls))"
  unfolding loopBody_def Let_def
  by (auto intro!: preserves_processEffects preserves_processAttack assms)

lemma preserves_reaches:
  assumes "reaches rnd abilities ls0 ls" "abilitiesOk Q E abilities (battle ls0)"
  shows "preserves Q E (battle ls0) (battle ls)"
  using assms
proof (induction rule: reaches.induct)
  case start
  show ?case by simp
next
  case (step ls)
  have p: "preserves Q E (battle ls0) (battle ls)" using step by simp
  then have "abilitiesOk Q E abilities (battle ls)"
    using step.prems abilitiesOk_static[of "battle ls0" "battle ls"] by (simp add: preserves_def)
  from preserves_trans[OF p preserves_loopBody[OF this]] show ?case .
qed

lemma battleLoop_reaches:
  "battleLoop n rnd abilities ls = Some ls' \<Longrightarrow> reaches rnd abilities ls0 ls
     \<Longrightarrow> reaches rnd abilities ls0 ls' \<and> \<not> loopCondition ls'"
proof (induction n arbitrary: ls)
  case 0
  then show ?case by simp
next
  case (Suc n)
  show ?case
  proof (cases "loopCondition ls")
    case False
    with Suc.prems show ?thesis by simp
  next
    case True
    with Suc.prems have r: "battleLoop n rnd abilities (loopBody rnd abilities ls) = Some ls'"
      by simp
    from Suc.IH[OF r reaches.step[OF Suc.prems(2) True]] show ?thesis .
  qed
qed

lemma battleInv_initial: "battleInv Q E (battle (initialLoopState d1 d2))"
  by (simp add: initialLoopState_def initializeBattleLog_def Let_def createBattleState_def
      createCharacterBattleState_def battleInv_def charInv_def addLog_def)

lemma static_initial:
  "static (character1 (battle (initialLoopState d1 d2)))
     = (d_id d1, d_name d1, d_playerId d1, d_stats d1, d_attackType d1, d_rotation d1)"
  "static (character2 (battle (initialLoopState d1 d2)))
     = (d_id d2, d_name d2, d_playerId d2, d_stats d2, d_attackType d2, d_rotation d2)"
  by (simp_all add: initialLoopState_def initializeBattleLog_def Let_def createBattleState_def
      createCharacterBattleState_def static_def addLog_def)


lemma refreshBuff_endTime:
  "distinct (map b_type bs) \<Longrightarrow> x \<in> set (refreshBuff ty e bs) \<Longrightarrow> b_type x = ty
     \<Longrightarrow> b_endTime x = e"
proof (induction bs)
  case Nil
  then show ?case by simp
next
  case (Cons b bs)
  show ?case
  proof (cases "b_type b = ty")
    case True
    with Cons.prems have "x = b\<lparr>b_endTime := e\<rparr> \<or> x \<in> set bs" by simp
    moreover have "x \<notin> set bs" using Cons.prems(1,3) True by auto
    ultimately show ?thesis by auto
  next
    case False
    with Cons show ?thesis by auto
  qed
qed

lemma refreshEffect_times:
  "distinct (map e_type es) \<Longrightarrow> x \<in> set (refreshEffect ty e t es) \<Longrightarrow> e_type x = ty
     \<Longrightarrow> e_endTime x = e \<and> e_lastProcTime x = t"
proof (induction es)
  case Nil
  then show ?case by simp
next
  case (Cons a es)
  show ?case
  proof (cases "e_type a = ty")
    case True
    with Cons.prems have "x = a\<lparr>e_endTime := e, e_lastProcTime := t\<rparr> \<or> x \<in> set es" by simp
    moreover have "x \<notin> set es" using Cons.prems(1,3) True by auto
    ultimately show ?thesis by auto
  next
    case False
    with Cons show ?thesis by auto
  qed
qed

lemma refreshBuff_types: "map b_type (refreshBuff ty e bs) = map b_type bs"
  by (induction bs) auto

lemma refreshEffect_types: "map e_type (refreshEffect ty e t es) = map e_type es"
  by (induction es) auto

lemma find_type_None: "(find (\<lambda>x. f x = v) xs = None) \<longleftrightarrow> v \<notin> f ` set xs"
  by (induction xs) auto

lemma buffs_applyBuff:
  "buffs (getc who (applyBuff who time b s)) =
     (if b_type b \<in> b_type ` set (buffs (getc who s))
      then refreshBuff (b_type b) (time + b_duration b) (buffs (getc who s))
      else buffs (getc who s) @ [b])"
proof (cases "find (\<lambda>x. b_type x = b_type b) (buffs (getc who s))")
  case None
  moreover from None have "b_type b \<notin> b_type ` set (buffs (getc who s))"
    unfolding find_type_None .
  ultimately show ?thesis
    by (simp only: applyBuff_def Let_def option.case getc_addLog getc_setc if_True if_False
        simp_thms) (simp (no_asm))
next
  case (Some x)
  moreover from Some have "b_type b \<in> b_type ` set (buffs (getc who s))"
    using find_type_None[of b_type "b_type b" "buffs (getc who s)"] by simp
  ultimately show ?thesis
    by (simp only: applyBuff_def Let_def option.case getc_addLog getc_setc if_True if_False
        simp_thms) (simp (no_asm))
qed

lemma effects_applyPeriodicEffect:
  "periodicEffects (getc (other src) (applyPeriodicEffect src time e s)) =
     (if e_type e \<in> e_type ` set (periodicEffects (getc (other src) s))
      then refreshEffect (e_type e) (time + e_duration e) time (periodicEffects (getc (other src) s))
      else periodicEffects (getc (other src) s) @ [e\<lparr>e_sourceName := c_name (getc src s)\<rparr>])"
proof (cases "find (\<lambda>x. e_type x = e_type e) (periodicEffects (getc (other src) s))")
  case None
  moreover from None have "e_type e \<notin> e_type ` set (periodicEffects (getc (other src) s))"
    unfolding find_type_None .
  ultimately show ?thesis
    by (simp only: applyPeriodicEffect_def Let_def option.case getc_addLog getc_setc if_True
        if_False simp_thms) (simp (no_asm))
next
  case (Some x)
  moreover from Some have "e_type e \<in> e_type ` set (periodicEffects (getc (other src) s))"
    using find_type_None[of e_type "e_type e" "periodicEffects (getc (other src) s)"] by simp
  ultimately show ?thesis
    by (simp only: applyPeriodicEffect_def Let_def option.case getc_addLog getc_setc if_True
        if_False simp_thms) (simp (no_asm))
qed

lemma uniqueTypes_charInv: "uniqueTypes ch = charInv (\<lambda>_ _. True) (\<lambda>_ _ _. True) ch"
  by (simp add: uniqueTypes_def charInv_def)

lemma reaches_uniqueTypes:
  assumes "reaches rnd abilities (initialLoopState d1 d2) ls"
  shows "uniqueTypes (character1 (battle ls)) \<and> uniqueTypes (character2 (battle ls))"
proof -
  have "abilitiesOk (\<lambda>_ _. True) (\<lambda>_ _ _. True) abilities (battle (initialLoopState d1 d2))"
    by (simp add: abilitiesOk_def)
  from preserves_reaches[OF assms this] battleInv_initial
  show ?thesis by (simp add: preserves_def battleInv_def uniqueTypes_charInv)
qed

lemma uniqueTypes_applyBuff:
  "uniqueTypes (getc sd s) \<Longrightarrow> uniqueTypes (getc sd (applyBuff who time b s))"
  unfolding applyBuff_def Let_def uniqueTypes_charInv
  by (auto split: option.splits simp: getc_setc intro: charInv_refreshBuff charInv_addBuff)

lemma uniqueTypes_applyPeriodicEffect:
  "uniqueTypes (getc sd s) \<Longrightarrow> uniqueTypes (getc sd (applyPeriodicEffect src time e s))"
  unfolding applyPeriodicEffect_def Let_def uniqueTypes_charInv
  by (auto split: option.splits simp: getc_setc intro: charInv_refreshEffect charInv_addEffect)

lemma applyBuff_refresh_or_insert:
  "if b_type b \<in> b_type ` set (buffs (getc who s))
   then map b_type (buffs (getc who (applyBuff who time b s))) = map b_type (buffs (getc who s))
        \<and> (distinct (map b_type (buffs (getc who s))) \<longrightarrow>
             (\<forall>x\<in>set (buffs (getc who (applyBuff who time b s))).
                b_type x = b_type b \<longrightarrow> b_endTime x = time + b_duration b))
   else buffs (getc who (applyBuff who time b s)) = buffs (getc who s) @ [b]"
  unfolding buffs_applyBuff
  using refreshBuff_endTime[of "buffs (getc who s)" _ "b_type b" "time + b_duration b"]
  by (simp add: refreshBuff_types)

lemma applyPeriodicEffect_refresh_or_insert:
  "if e_type e \<in> e_type ` set (periodicEffects (getc (other src) s))
   then map e_type (periodicEffects (getc (other src) (applyPeriodicEffect src time e s)))
          = map e_type (periodicEffects (getc (other src) s))
        \<and> (distinct (map e_type (periodicEffects (getc (other src) s))) \<longrightarrow>
             (\<forall>x\<in>set (periodicEffects (getc (other src) (applyPeriodicEffect src time e s))).
                e_type x = e_type e \<longrightarrow>
                  e_endTime x = time + e_duration e \<and> e_lastProcTime x = time))
   else periodicEffects (getc (other src) (applyPeriodicEffect src time e s))
          = periodicEffects (getc (other src) s) @ [e\<lparr>e_sourceName := c_name (getc src s)\<rparr>]"
  unfolding effects_applyPeriodicEffect
  using refreshEffect_times[of "periodicEffects (getc (other src) s)" _ "e_type e"
      "time + e_duration e" time]
  by (simp add: refreshEffect_types)

text \<open>
  Claim C7. No combatant ever holds two buffs of one type or two periodic effects of one
  type: this holds in every state the battle loop goes through, and \<^verbatim>\<open>applyBuff\<close> and
  \<^verbatim>\<open>applyPeriodicEffect\<close> keep it. Applying a buff of a type the target already has
  leaves the list of types as it is and sets the end time of the entry of that type to
  \<open>time + duration\<close>; a new type is appended. The same holds for a periodic effect,
  whose refresh also sets \<^verbatim>\<open>lastProcTime\<close> to the current time.
\<close>

theorem one_entry_per_type:
  "(reaches rnd abilities (initialLoopState d1 d2) ls \<longrightarrow>
      uniqueTypes (character1 (battle ls)) \<and> uniqueTypes (character2 (battle ls)))
   \<and> (uniqueTypes (getc sd s) \<longrightarrow>
        uniqueTypes (getc sd (applyBuff who time b s))
        \<and> uniqueTypes (getc sd (applyPeriodicEffect src time e s)))
   \<and> (if b_type b \<in> b_type ` set (buffs (getc who s))
      then map b_type (buffs (getc who (applyBuff who time b s))) = map b_type (buffs (getc who s))
           \<and> (distinct (map b_type (buffs (getc who s))) \<longrightarrow>
                (\<forall>x\<in>set (buffs (getc who (applyBuff who time b s))).
                   b_type x = b_type b \<longrightarrow> b_endTime x = time + b_duration b))
      else buffs (getc who (applyBuff who time b s)) = buffs (getc who s) @ [b])
   \<and> (if e_type e \<in> e_type ` set (periodicEffects (getc (other src) s))
      then map e_type (periodicEffects (getc (other src) (applyPeriodicEffect src time e s)))
             = map e_type (periodicEffects (getc (other src) s))
           \<and> (distinct (map e_type (periodicEffects (getc (other src) s))) \<longrightarrow>
                (\<forall>x\<in>set (periodicEffects (getc (other src) (applyPeriodicEffect src time e s))).
                   e_type x = e_type e \<longrightarrow>
                     e_endTime x = time + e_duration e \<and> e_lastProcTime x = time))
      else periodicEffects (getc (other src) (applyPeriodicEffect src time e s))
             = periodicEffects (getc (other src) s) @ [e\<lparr>e_sourceName := c_name (getc src s)\<rparr>])"
  using reaches_uniqueTypes[of rnd abilities d1 d2 ls]
    uniqueTypes_applyBuff[of sd s who time b] uniqueTypes_applyPeriodicEffect[of sd s src time e]
    applyBuff_refresh_or_insert[of b who s time]
    applyPeriodicEffect_refresh_or_insert[of e src s time]
  by blast

text \<open>
  An instance: a second \<^verbatim>\<open>damageIncrease\<close> buff, applied at time 3 for 10 seconds,
  leaves one buff, which ends at 13; a poison on a character without effects is appended
  with the name of its source.
\<close>

theorem one_entry_per_type_witness:
  "reaches (\<lambda>_. 0) [] (initialLoopState (exData ''a'' ''p'' []) (exData ''b'' ''q'' []))
     (initialLoopState (exData ''a'' ''p'' []) (exData ''b'' ''q'' []))
   \<and> uniqueTypes (character1 (battle (initialLoopState (exData ''a'' ''p'' []) (exData ''b'' ''q'' []))))
   \<and> uniqueTypes (getc First (exBuffed [exBuff ''damageIncrease'' 25]))
   \<and> uniqueTypes (getc First (applyBuff First 3 (exBuff ''damageIncrease'' 50)
                      (exBuffed [exBuff ''damageIncrease'' 25])))
   \<and> map b_type (buffs (getc First (applyBuff First 3 (exBuff ''damageIncrease'' 50)
                      (exBuffed [exBuff ''damageIncrease'' 25])))) = [''damageIncrease'']
   \<and> map b_endTime (buffs (getc First (applyBuff First 3 (exBuff ''damageIncrease'' 50)
                      (exBuffed [exBuff ''damageIncrease'' 25])))) = [13]
   \<and> periodicEffects (getc (other First) (applyPeriodicEffect First 3 exPoison
                      (exBuffed [exBuff ''damageIncrease'' 25])))
       = [exPoison\<lparr>e_sourceName := ''a''\<rparr>]"
proof -
  let ?d1 = "exData ''a'' ''p'' []" and ?d2 = "exData ''b'' ''q'' []"
  let ?s = "exBuffed [exBuff ''damageIncrease'' 25]"
  note t = one_entry_per_type[where rnd="\<lambda>_. 0" and abilities="[]" and ?d1.0="?d1" and ?d2.0="?d2"
      and ls="initialLoopState ?d1 ?d2" and sd=First and s="?s" and who=First and time=3
      and b="exBuff ''damageIncrease'' 50" and src=First and e=exPoison]
  have r: "reaches (\<lambda>_. 0) [] (initialLoopState ?d1 ?d2) (initialLoopState ?d1 ?d2)"
    by (rule reaches.start)
  have u: "uniqueTypes (getc First ?s)" by code_simp
  have m: "b_type (exBuff ''damageIncrease'' 50) \<in> b_type ` set (buffs (getc First ?s))"
    by code_simp
  have n: "e_type exPoison \<notin> e_type ` set (periodicEffects (getc (other First) ?s))"
    by code_simp
  have d: "distinct (map b_type (buffs (getc First ?s)))" by code_simp
  have bs: "map b_type (buffs (getc First ?s)) = [''damageIncrease'']" by code_simp
  have nm: "c_name (getc First ?s) = ''a''" by code_simp
  have pe: "periodicEffects (getc (other First) ?s) = []" by code_simp
  have et: "map b_endTime (buffs (getc First (applyBuff First 3 (exBuff ''damageIncrease'' 50) ?s))) = [13]"
    by code_simp
  from t r u m n d show ?thesis
    by (simp only: simp_thms if_True if_False bs nm pe append_Nil et)
qed

section \<open>Damage buffs and the order of the buffs\<close>

lemma reaches_damageIncrease:
  assumes "reaches rnd abilities (initialLoopState d1 d2) ls"
  shows "length (filter (\<lambda>b. b_type b = ''damageIncrease'') (buffs (getc att (battle ls)))) \<le> 1"
proof -
  from reaches_uniqueTypes[OF assms] have "uniqueTypes (getc att (battle ls))"
    by (cases att) simp_all
  then have "distinct (map b_type (buffs (getc att (battle ls))))"
    by (simp add: uniqueTypes_def)
  then show ?thesis by (rule distinct_filter_le1)
qed



section \<open>The winner\<close>

lemma winner_addLog [simp]: "winner (addLog t m s) = winner s"
  by (simp add: addLog_def)

lemma winner_logFinalState [simp]: "winner (logFinalState t s) = winner s"
  by (simp add: logFinalState_def Let_def)

lemma characters_logFinalState [simp]:
  "character1 (logFinalState t s) = character1 s" "character2 (logFinalState t s) = character2 s"
  by (simp_all add: logFinalState_def Let_def addLog_def)

lemma characters_addLog [simp]:
  "character1 (addLog t m s) = character1 s" "character2 (addLog t m s) = character2 s"
  by (simp_all add: addLog_def)

lemma characters_determineWinner:
  "character1 (determineWinner t s) = character1 s" "character2 (determineWinner t s) = character2 s"
  by (simp_all add: determineWinner_def Let_def)

lemma winner_determineWinner:
  "winner (determineWinner t s) =
     (if numCmp (\<le>) (currentHealth (character1 s)) (Num 0) then Some (c_id (character2 s))
      else if numCmp (\<le>) (currentHealth (character2 s)) (Num 0) then Some (c_id (character1 s))
      else if numCmp (>) (healthPercent (character1 s)) (healthPercent (character2 s))
      then Some (c_id (character1 s))
      else if numCmp (>) (healthPercent (character2 s)) (healthPercent (character1 s))
      then Some (c_id (character2 s))
      else None)"
  by (simp add: determineWinner_def Let_def healthPercent_def)

lemma numCmp_gt_not_le: "numCmp (>) x (Num 0) \<Longrightarrow> \<not> numCmp (\<le>) x (Num 0)"
  by (cases x) simp_all

lemma numCmp_gt_irrefl: "\<not> numCmp (>) x x"
  by (cases x) simp_all

lemma numCmp_gt_asym: "numCmp (>) x y \<Longrightarrow> \<not> numCmp (>) y x"
  by (cases x; cases y) simp_all

lemma battleLoop_exit:
  "battleLoop n rnd abilities ls = Some ls' \<Longrightarrow> \<not> loopCondition ls'"
  using battleLoop_reaches[OF _ reaches.start] by blast

lemma battleLoop_static:
  assumes "battleLoop n rnd abilities (initialLoopState d1 d2) = Some ls"
  shows "static (character1 (battle ls))
           = (d_id d1, d_name d1, d_playerId d1, d_stats d1, d_attackType d1, d_rotation d1)"
    and "static (character2 (battle ls))
           = (d_id d2, d_name d2, d_playerId d2, d_stats d2, d_attackType d2, d_rotation d2)"
proof -
  have ok: "abilitiesOk (\<lambda>_ _. True) (\<lambda>_ _ _. True) abilities (battle (initialLoopState d1 d2))"
    by (simp add: abilitiesOk_def)
  from battleLoop_reaches[OF assms reaches.start] have "reaches rnd abilities (initialLoopState d1 d2) ls"
    by simp
  from preserves_reaches[OF this ok]
  have "sameStatic (battle (initialLoopState d1 d2)) (battle ls)"
    by (simp add: preserves_def)
  then show "static (character1 (battle ls))
           = (d_id d1, d_name d1, d_playerId d1, d_stats d1, d_attackType d1, d_rotation d1)"
    and "static (character2 (battle ls))
           = (d_id d2, d_name d2, d_playerId d2, d_stats d2, d_attackType d2, d_rotation d2)"
    by (simp_all add: sameStatic_def static_initial)
qed

lemma battleLoop_ids:
  assumes "battleLoop n rnd abilities (initialLoopState d1 d2) = Some ls"
  shows "c_id (character1 (battle ls)) = d_id d1" "c_id (character2 (battle ls)) = d_id d2"
    "c_stats (character1 (battle ls)) = d_stats d1" "c_stats (character2 (battle ls)) = d_stats d2"
  using battleLoop_static[OF assms] by (simp_all add: static_def)

text \<open>
  Claim C1. When the battle loop ends in the loop state \<open>ls\<close>, the result of
  \<^verbatim>\<open>simulateBattle\<close> carries the winner that \<^verbatim>\<open>determineWinner\<close> sets: when
  character 1 is down, the id of character 2; when character 2 is down and character 1 is
  not, the id of character 1; and when both are up, the time cap has been reached and the
  character with the strictly greater percentage of health wins, equal percentages
  giving no winner (a draw).
\<close>

theorem winner_rule:
  assumes "battleLoop fuel rnd abilities (initialLoopState d1 d2) = Some ls"
  shows "finalBattleState fuel rnd abilities d1 d2
           = Some (determineWinner (battleTime ls) (battle ls))
     \<and> (\<exists>res. simulateBattle fuel rnd abilities d1 d2 = Some res
           \<and> r_winner res = winner (determineWinner (battleTime ls) (battle ls)))
     \<and> (numCmp (\<le>) (currentHealth (character1 (battle ls))) (Num 0) \<longrightarrow>
           winner (determineWinner (battleTime ls) (battle ls)) = Some (d_id d2))
     \<and> (\<not> numCmp (\<le>) (currentHealth (character1 (battle ls))) (Num 0)
          \<and> numCmp (\<le>) (currentHealth (character2 (battle ls))) (Num 0) \<longrightarrow>
           winner (determineWinner (battleTime ls) (battle ls)) = Some (d_id d1))
     \<and> (numCmp (>) (currentHealth (character1 (battle ls))) (Num 0)
          \<and> numCmp (>) (currentHealth (character2 (battle ls))) (Num 0) \<longrightarrow>
           battleTime ls \<ge> 300
           \<and> (numCmp (>)
                 (numOp (*) (numOp (/) (currentHealth (character1 (battle ls)))
                                      (Num (health (d_stats d1)))) (Num 100))
                 (numOp (*) (numOp (/) (currentHealth (character2 (battle ls)))
                                      (Num (health (d_stats d2)))) (Num 100)) \<longrightarrow>
              winner (determineWinner (battleTime ls) (battle ls)) = Some (d_id d1))
           \<and> (numCmp (>)
                 (numOp (*) (numOp (/) (currentHealth (character2 (battle ls)))
                                      (Num (health (d_stats d2)))) (Num 100))
                 (numOp (*) (numOp (/) (currentHealth (character1 (battle ls)))
                                      (Num (health (d_stats d1)))) (Num 100)) \<longrightarrow>
              winner (determineWinner (battleTime ls) (battle ls)) = Some (d_id d2))
           \<and> (numOp (*) (numOp (/) (currentHealth (character1 (battle ls)))
                                  (Num (health (d_stats d1)))) (Num 100)
                = numOp (*) (numOp (/) (currentHealth (character2 (battle ls)))
                                    (Num (health (d_stats d2)))) (Num 100) \<longrightarrow>
              winner (determineWinner (battleTime ls) (battle ls)) = None))"
proof -
  note ids = battleLoop_ids[OF assms]
  let ?h1 = "currentHealth (character1 (battle ls))"
  let ?h2 = "currentHealth (character2 (battle ls))"
  let ?p1 = "numOp (*) (numOp (/) ?h1 (Num (health (d_stats d1)))) (Num 100)"
  let ?p2 = "numOp (*) (numOp (/) ?h2 (Num (health (d_stats d2)))) (Num 100)"
  let ?w = "winner (determineWinner (battleTime ls) (battle ls))"
  have w: "?w = (if numCmp (\<le>) ?h1 (Num 0) then Some (d_id d2)
                 else if numCmp (\<le>) ?h2 (Num 0) then Some (d_id d1)
                 else if numCmp (>) ?p1 ?p2 then Some (d_id d1)
                 else if numCmp (>) ?p2 ?p1 then Some (d_id d2)
                 else None)"
    by (simp add: winner_determineWinner healthPercent_def ids)
  have cap: "battleTime ls \<ge> 300" if "numCmp (>) ?h1 (Num 0)" "numCmp (>) ?h2 (Num 0)"
    using battleLoop_exit[OF assms] that by (simp add: loopCondition_def maxBattleTime_def)
  have f: "finalBattleState fuel rnd abilities d1 d2
             = Some (determineWinner (battleTime ls) (battle ls))"
    by (simp add: finalBattleState_def assms)
  have r: "\<exists>res. simulateBattle fuel rnd abilities d1 d2 = Some res \<and> r_winner res = ?w"
    by (simp add: simulateBattle_def f formatBattleResult_def)
  have c1: "numCmp (\<le>) ?h1 (Num 0) \<longrightarrow> ?w = Some (d_id d2)"
    by (simp add: w)
  have c2: "\<not> numCmp (\<le>) ?h1 (Num 0) \<and> numCmp (\<le>) ?h2 (Num 0) \<longrightarrow> ?w = Some (d_id d1)"
    by (simp add: w)
  have c3: "numCmp (>) ?h1 (Num 0) \<and> numCmp (>) ?h2 (Num 0) \<longrightarrow>
              battleTime ls \<ge> 300
              \<and> (numCmp (>) ?p1 ?p2 \<longrightarrow> ?w = Some (d_id d1))
              \<and> (numCmp (>) ?p2 ?p1 \<longrightarrow> ?w = Some (d_id d2))
              \<and> (?p1 = ?p2 \<longrightarrow> ?w = None)"
  proof (intro impI conjI)
    assume up: "numCmp (>) ?h1 (Num 0) \<and> numCmp (>) ?h2 (Num 0)"
    then have n: "\<not> numCmp (\<le>) ?h1 (Num 0)" "\<not> numCmp (\<le>) ?h2 (Num 0)"
      by (simp_all add: numCmp_gt_not_le)
    from up show "battleTime ls \<ge> 300" using cap by simp
    show "?w = Some (d_id d1)" if "numCmp (>) ?p1 ?p2"
      using that n by (simp add: w)
    show "?w = Some (d_id d2)" if "numCmp (>) ?p2 ?p1"
      using that n numCmp_gt_asym[OF that] by (simp add: w)
    show "?w = None" if "?p1 = ?p2"
      using n numCmp_gt_irrefl[of ?p2] unfolding w that by simp
  qed
  from f r c1 c2 c3 show ?thesis by (intro conjI)
qed

text \<open>
  An instance: two characters that both hit for 4 every 150 seconds, with 100 and 150
  health, reach the time cap with 92 and 138 health, 92% each: a draw.
\<close>

theorem winner_rule_witness:
  "\<exists>ls. battleLoop 6 (\<lambda>_. 1 / 2) []
          (initialLoopState (exFighter ''a'' ''physical'' 100 150 [])
             (exFighter ''b'' ''physical'' 150 150 [])) = Some ls
        \<and> battleTime ls = 300
        \<and> currentHealth (character1 (battle ls)) = Num 92
        \<and> currentHealth (character2 (battle ls)) = Num 138
        \<and> winner (determineWinner (battleTime ls) (battle ls)) = None"
proof -
  let ?d1 = "exFighter ''a'' ''physical'' 100 150 []"
  let ?d2 = "exFighter ''b'' ''physical'' 150 150 []"
  have "(case battleLoop 6 (\<lambda>_. 1 / 2) [] (initialLoopState ?d1 ?d2) of
           Some ls \<Rightarrow> battleTime ls = 300 \<and> currentHealth (character1 (battle ls)) = Num 92
              \<and> currentHealth (character2 (battle ls)) = Num 138
         | _ \<Rightarrow> False)"
    by code_simp
  then obtain ls where loop: "battleLoop 6 (\<lambda>_. 1 / 2) [] (initialLoopState ?d1 ?d2) = Some ls"
    and t: "battleTime ls = 300" and h1: "currentHealth (character1 (battle ls)) = Num 92"
    and h2: "currentHealth (character2 (battle ls)) = Num 138"
    by (auto split: option.splits)
  have st: "health (d_stats ?d1) = 100" "health (d_stats ?d2) = 150"
    by (simp_all add: exFighter_def)
  from winner_rule[OF loop] have "winner (determineWinner (battleTime ls) (battle ls)) = None"
    unfolding h1 h2 st by simp
  with loop t h1 h2 show ?thesis by blast
qed

lemma health_applyPeriodicEffect [simp]:
  "currentHealth (getc sd (applyPeriodicEffect src time e s)) = currentHealth (getc sd s)"
  by (simp add: applyPeriodicEffect_def Let_def getc_setc split: option.splits)

lemma attacker_health_magic:
  "currentHealth (getc att (snd (performMagicAttack rnd abilities att time nm multiplier s)))
     = currentHealth (getc att s)"
  by (simp add: performMagicAttack_def Let_def split_beta getc_setc)

lemma magic_damage_pos: "damage (fst (performMagicAttack rnd abilities att time nm multiplier s)) > 0"
  using spec_finalDamage_ge_1 unfolding magic_damage
  by (meson less_le_trans zero_less_one)

lemma numOp_minus_zero [simp]: "numOp (-) x (Num 0) = x"
  by (cases x) simp_all

lemma backlash_healths:
  assumes "a_damage ab = Some ''magic''" "a_selfDamagePercent ab = Some p" "p \<noteq> 0"
  shows "currentHealth (getc (other att) (processDamageAbility rnd abilities att time ab s))
           = numOp (-) (currentHealth (getc (other att) s))
               (Num (damage (fst (performMagicAttack rnd abilities att time (a_name ab)
                                    (orDefault (a_damageMultiplier ab) (15 / 10)) s))))"
    and "currentHealth (getc att (processDamageAbility rnd abilities att time ab s))
           = numOp (-) (currentHealth (getc att s))
               (Num (max 0 (Math_round
                  (damage (fst (performMagicAttack rnd abilities att time (a_name ab)
                                  (orDefault (a_damageMultiplier ab) (15 / 10)) s)) * (p / 100)))))"
  using assms magic_damage_pos[of rnd abilities att time "a_name ab" "orDefault (a_damageMultiplier ab) (15 / 10)" s]
  by (simp_all add: processDamageAbility_def Let_def split_beta getc_setc magic_health
      attacker_health_magic orDefault_def max_def split: option.splits)

text \<open>
  What \<^verbatim>\<open>determineWinner\<close> decides in a state where both characters are down, and
  where it declares no winner: character 1 is tested first, so both down gives character
  2; no winner needs that neither health is at most 0 and that neither percentage is
  greater than the other. For healths that are numbers this means that both are above 0
  and that the percentages are equal.
\<close>

lemma determineWinner_both_defeated:
  "numCmp (\<le>) (currentHealth (character1 s)) (Num 0)
     \<Longrightarrow> numCmp (\<le>) (currentHealth (character2 s)) (Num 0)
     \<Longrightarrow> winner (determineWinner t s) = Some (c_id (character2 s))"
  by (simp add: winner_determineWinner)

lemma determineWinner_draw:
  assumes "winner (determineWinner t s) = None"
  shows "\<not> numCmp (\<le>) (currentHealth (character1 s)) (Num 0)"
    and "\<not> numCmp (\<le>) (currentHealth (character2 s)) (Num 0)"
    and "\<not> numCmp (>) (healthPercent (character1 s)) (healthPercent (character2 s))"
    and "\<not> numCmp (>) (healthPercent (character2 s)) (healthPercent (character1 s))"
  using assms by (simp_all add: winner_determineWinner split: if_splits)

lemma determineWinner_draw_numbers:
  assumes "winner (determineWinner t s) = None"
    and "currentHealth (character1 s) = Num h1" "currentHealth (character2 s) = Num h2"
  shows "0 < h1" "0 < h2"
    and "h1 / health (c_stats (character1 s)) * 100 = h2 / health (c_stats (character2 s)) * 100"
  using determineWinner_draw[OF assms(1)] assms(2,3)
  by (simp_all add: healthPercent_def)


section \<open>The schedule of the battle loop\<close>

lemma attackSpeedModifier_prod:
  "attackSpeedModifier bs m =
     m * (\<Prod>b\<leftarrow>filter (\<lambda>b. b_type b = ''attackSpeedReduction'') bs. 1 + b_amount b / 100)"
  by (induction bs arbitrary: m) (simp_all add: mult.assoc)

lemma getEffectiveAttackSpeed_prod:
  "getEffectiveAttackSpeed ch =
     attackSpeed (c_stats ch)
       * (\<Prod>b\<leftarrow>filter (\<lambda>b. b_type b = ''attackSpeedReduction'') (buffs ch). 1 + b_amount b / 100)"
  by (simp add: getEffectiveAttackSpeed_def attackSpeedModifier_prod)

lemma loopBody_first:
  assumes "char1NextAttack ls \<le> char2NextAttack ls"
  shows "battleTime (loopBody rnd abilities ls) = char1NextAttack ls"
    and "char2NextAttack (loopBody rnd abilities ls) = char2NextAttack ls"
    and "char1NextAttack (loopBody rnd abilities ls) = char1NextAttack ls
           + getEffectiveAttackSpeed
               (character1 (processAttack rnd abilities First (char1NextAttack ls) (battle ls)))"
    and "battle (loopBody rnd abilities ls) =
           (let s = processEffects (char1NextAttack ls)
                      (processAttack rnd abilities First (char1NextAttack ls) (battle ls))
            in s\<lparr>rounds := rounds s + 1\<rparr>)"
  using assms by (simp_all add: loopBody_def Let_def)

lemma loopBody_second:
  assumes "\<not> char1NextAttack ls \<le> char2NextAttack ls"
  shows "battleTime (loopBody rnd abilities ls) = char2NextAttack ls"
    and "char1NextAttack (loopBody rnd abilities ls) = char1NextAttack ls"
    and "char2NextAttack (loopBody rnd abilities ls) = char2NextAttack ls
           + getEffectiveAttackSpeed
               (character2 (processAttack rnd abilities Second (char2NextAttack ls) (battle ls)))"
    and "battle (loopBody rnd abilities ls) =
           (let s = processEffects (char2NextAttack ls)
                      (processAttack rnd abilities Second (char2NextAttack ls) (battle ls))
            in s\<lparr>rounds := rounds s + 1\<rparr>)"
  using assms by (simp_all add: loopBody_def Let_def)

text \<open>
  Claim C8. In an iteration of the battle loop the character with the smaller next-attack
  time acts, character 1 on a tie: the battle time becomes that next-attack time, the
  character's attack is processed at that time, its own next-attack time grows by its
  effective attack speed after the action, the other's is unchanged, and the effects of
  both are then processed at the new battle time. The effective attack speed is the base
  attack speed times \<open>1 + amount / 100\<close> for each \<^verbatim>\<open>attackSpeedReduction\<close> buff the
  character holds.
\<close>

theorem loop_schedule:
  assumes "loopBody rnd abilities ls = ls'"
  shows "(if char1NextAttack ls \<le> char2NextAttack ls
          then battleTime ls' = char1NextAttack ls
               \<and> char2NextAttack ls' = char2NextAttack ls
               \<and> char1NextAttack ls' = char1NextAttack ls
                    + getEffectiveAttackSpeed
                        (character1 (processAttack rnd abilities First (char1NextAttack ls) (battle ls)))
               \<and> battle ls' =
                   (let s = processEffects (char1NextAttack ls)
                              (processAttack rnd abilities First (char1NextAttack ls) (battle ls))
                    in s\<lparr>rounds := rounds s + 1\<rparr>)
          else battleTime ls' = char2NextAttack ls
               \<and> char1NextAttack ls' = char1NextAttack ls
               \<and> char2NextAttack ls' = char2NextAttack ls
                    + getEffectiveAttackSpeed
                        (character2 (processAttack rnd abilities Second (char2NextAttack ls) (battle ls)))
               \<and> battle ls' =
                   (let s = processEffects (char2NextAttack ls)
                              (processAttack rnd abilities Second (char2NextAttack ls) (battle ls))
                    in s\<lparr>rounds := rounds s + 1\<rparr>))
     \<and> getEffectiveAttackSpeed ch =
         attackSpeed (c_stats ch)
           * (\<Prod>b\<leftarrow>filter (\<lambda>b. b_type b = ''attackSpeedReduction'') (buffs ch).
                1 + b_amount b / 100)"
proof (cases "char1NextAttack ls \<le> char2NextAttack ls")
  case True
  from loopBody_first[OF True, of rnd abilities] getEffectiveAttackSpeed_prod[of ch] show ?thesis
    unfolding if_P[OF True] assms by (intro conjI)
next
  case False
  from loopBody_second[OF False, of rnd abilities] getEffectiveAttackSpeed_prod[of ch] show ?thesis
    unfolding if_not_P[OF False] assms by (intro conjI)
qed

text \<open>
  An instance: at the start both next-attack times are 0, so character 1 acts at time 0
  and its next attack is at 4; it slows character 2, whose effective attack speed becomes
  6 * 1.5 = 9.
\<close>

theorem loop_schedule_witness:
  "char1NextAttack exSlowBattle \<le> char2NextAttack exSlowBattle
   \<and> battleTime (loopBody (\<lambda>_. 1 / 2) [exSlow] exSlowBattle) = 0
   \<and> char1NextAttack (loopBody (\<lambda>_. 1 / 2) [exSlow] exSlowBattle) = 4
   \<and> char2NextAttack (loopBody (\<lambda>_. 1 / 2) [exSlow] exSlowBattle) = 0
   \<and> getEffectiveAttackSpeed (character2 (battle (loopBody (\<lambda>_. 1 / 2) [exSlow] exSlowBattle))) = 9"
proof -
  let ?ls' = "loopBody (\<lambda>_. 1 / 2) [exSlow] exSlowBattle"
  have n: "char1NextAttack ?ls' = 4" "char2NextAttack ?ls' = 0"
    "getEffectiveAttackSpeed (character2 (battle ?ls')) = 9"
    by code_simp+
  have c: "char1NextAttack exSlowBattle \<le> char2NextAttack exSlowBattle"
    and z: "char1NextAttack exSlowBattle = 0"
    by (simp_all add: exSlowBattle_def initialLoopState_def)
  from loop_schedule[where rnd="\<lambda>_. 1 / 2" and abilities="[exSlow]" and ls=exSlowBattle,
      OF refl, THEN conjunct1] c
  have "battleTime ?ls' = char1NextAttack exSlowBattle"
    by (simp only: if_True)
  with c n z show ?thesis by simp
qed

section \<open>Ticks and expiry of periodic effects\<close>

lemma periodicEffects_procEffect [simp]:
  "periodicEffects (getc sd (procEffect who time e s)) = periodicEffects (getc sd s)"
  using frame_procEffect[of sd who time e s] by (rule periodicEffects_frame)

lemma buffs_procEffect [simp]:
  "buffs (getc sd (procEffect who time e s)) = buffs (getc sd s)"
  using frame_procEffect[of sd who time e s] by (simp add: frame_def)

lemma name_procEffect [simp]:
  "c_name (getc sd (procEffect who time e s)) = c_name (getc sd s)"
  using frame_procEffect[of sd who time e s] by (simp add: frame_def static_def)

lemma effectsIter_effects:
  "periodicEffects (getc who (effectsIter who time i s)) =
     (let xs = periodicEffects (getc who s) in
      if time \<ge> e_endTime (xs ! i) then take i xs @ drop (Suc i) xs
      else if effectDue time (xs ! i) then xs[i := (xs ! i)\<lparr>e_lastProcTime := time\<rparr>]
      else xs)"
  by (auto simp: effectsIter_def Let_def getc_setc effectDue_def)

lemma effectsLoop_effects:
  "n \<le> length (periodicEffects (getc who s))
     \<Longrightarrow> periodicEffects (getc who (effectsLoop who time n s)) =
           map (markEffect time) (filter (keepEffect time) (take n (periodicEffects (getc who s))))
           @ drop n (periodicEffects (getc who s))"
proof (induction n arbitrary: s)
  case 0
  then show ?case by simp
next
  case (Suc i)
  let ?xs = "periodicEffects (getc who s)"
  let ?e = "?xs ! i"
  let ?s3 = "effectsIter who time i s"
  from Suc.prems have i: "i < length ?xs" by simp
  note xs3 = effectsIter_effects[of who time i s, unfolded Let_def]
  have tk: "take (Suc i) ?xs = take i ?xs @ [?e]"
    using i by (simp add: take_Suc_conv_app_nth)
  have dr: "drop i ?xs = ?e # drop (Suc i) ?xs"
    using i by (simp add: Cons_nth_drop_Suc)
  consider (expired) "time \<ge> e_endTime ?e" | (due) "\<not> time \<ge> e_endTime ?e" "effectDue time ?e"
    | (idle) "\<not> time \<ge> e_endTime ?e" "\<not> effectDue time ?e" by blast
  then show ?case
  proof cases
    case expired
    then have xs3': "periodicEffects (getc who ?s3) = take i ?xs @ drop (Suc i) ?xs"
      using xs3 by simp
    have len: "i \<le> length (periodicEffects (getc who ?s3))" using i by (simp add: xs3')
    from Suc.IH[OF len] expired i show ?thesis
      unfolding effectsLoop_Suc by (simp add: xs3' tk keepEffect_def)
  next
    case due
    then have xs3': "periodicEffects (getc who ?s3) = ?xs[i := ?e\<lparr>e_lastProcTime := time\<rparr>]"
      using xs3 by simp
    have len: "i \<le> length (periodicEffects (getc who ?s3))" using i by (simp add: xs3')
    have d3: "drop i (?xs[i := ?e\<lparr>e_lastProcTime := time\<rparr>])
                = ?e\<lparr>e_lastProcTime := time\<rparr> # drop (Suc i) ?xs"
      using i by (simp add: drop_update_swap[symmetric] Cons_nth_drop_Suc[symmetric] upd_conv_take_nth_drop)
    from Suc.IH[OF len] due i show ?thesis
      unfolding effectsLoop_Suc by (simp add: xs3' tk keepEffect_def markEffect_def d3)
  next
    case idle
    then have xs3': "periodicEffects (getc who ?s3) = ?xs"
      using xs3 by simp
    have len: "i \<le> length (periodicEffects (getc who ?s3))" using i by (simp add: xs3')
    from Suc.IH[OF len] idle i show ?thesis
      unfolding effectsLoop_Suc by (simp add: xs3' tk keepEffect_def markEffect_def dr)
  qed
qed

lemma frame_buffsLoop_effects:
  "periodicEffects (getc sd (buffsLoop who time n s)) = periodicEffects (getc sd s)"
  by (induction n arbitrary: s) (simp_all add: Let_def getc_setc)

lemma processCharacterEffects_effects:
  "periodicEffects (getc who (processCharacterEffects who time s)) =
     map (markEffect time) (filter (keepEffect time) (periodicEffects (getc who s)))"
  using effectsLoop_effects[of "length (periodicEffects (getc who s))" who s time]
  by (simp add: processCharacterEffects_def Let_def frame_buffsLoop_effects)

lemma health_buffsLoop [simp]:
  "currentHealth (getc sd (buffsLoop who time n s)) = currentHealth (getc sd s)"
  by (induction n arbitrary: s) (simp_all add: Let_def getc_setc)

lemma log_addLog: "log (addLog t m s) = log s @ [createLogEntry t m]"
  by (simp add: addLog_def)

lemma log_setc [simp]: "log (setc sd c s) = log s"
  by (cases sd) auto

text \<open>The loop and the rest of the battle state.\<close>

lemma setEffects_same [simp]: "setEffects who (periodicEffects (getc who s)) s = s"
  by (cases who) (simp_all add: setEffects_def)

lemma setEffects_twice [simp]: "setEffects who es (setEffects who es' s) = setEffects who es s"
  by (cases who) (simp_all add: setEffects_def)

lemma periodicEffects_setEffects [simp]:
  "periodicEffects (getc who (setEffects who es s)) = es"
  by (cases who) (simp_all add: setEffects_def)

lemma buffs_setEffects [simp]: "buffs (getc sd (setEffects who es s)) = buffs (getc sd s)"
  by (cases who; cases sd) (simp_all add: setEffects_def)

lemma name_setEffects [simp]: "c_name (getc sd (setEffects who es s)) = c_name (getc sd s)"
  by (cases who; cases sd) (simp_all add: setEffects_def)

lemma addLog_setEffects: "addLog t m (setEffects who es s) = setEffects who es (addLog t m s)"
  by (cases who) (simp_all add: setEffects_def addLog_def)

lemma procEffect_setEffects:
  "procEffect who time e (setEffects who' es s) = setEffects who' es (procEffect who time e s)"
  by (cases who; cases who') (simp_all add: procEffect_def setEffects_def Let_def addLog_def)

lemma effectStep_setEffects:
  "effectStep who time e (setEffects who' es s) = setEffects who' es (effectStep who time e s)"
  by (simp add: effectStep_def Let_def procEffect_setEffects addLog_setEffects)

lemma foldr_effectStep_setEffects:
  "foldr (effectStep who time) xs (setEffects who' es s)
     = setEffects who' es (foldr (effectStep who time) xs s)"
  by (induction xs) (simp_all add: effectStep_setEffects)

lemma buffs_effectStep [simp]: "buffs (getc sd (effectStep who time e s)) = buffs (getc sd s)"
  by (simp add: effectStep_def Let_def)

lemma buffs_foldr_effectStep [simp]:
  "buffs (getc sd (foldr (effectStep who time) xs s)) = buffs (getc sd s)"
  by (induction xs) simp_all

lemma effectsIter_step:
  "effectsIter who time i s =
     setEffects who (periodicEffects (getc who (effectsIter who time i s)))
       (effectStep who time (periodicEffects (getc who s) ! i) s)"
proof -
  let ?e = "periodicEffects (getc who s) ! i"
  have a: "setc who ((getc who x)\<lparr>periodicEffects := es\<rparr>) x = setEffects who es x" for es x
    by (simp add: setEffects_def)
  show ?thesis
  proof (cases "effectDue time ?e")
    case True
    then have "\<not> time \<ge> e_endTime ?e" by (simp add: effectDue_def)
    with True show ?thesis
      by (simp add: effectsIter_def effectStep_def Let_def a)
  next
    case False
    then show ?thesis
      by (simp add: effectsIter_def effectStep_def Let_def a addLog_setEffects)
  qed
qed

lemma effectsLoop_state:
  "n \<le> length (periodicEffects (getc who s))
     \<Longrightarrow> effectsLoop who time n s =
           setEffects who (periodicEffects (getc who (effectsLoop who time n s)))
             (foldr (effectStep who time) (take n (periodicEffects (getc who s))) s)"
proof (induction n arbitrary: s)
  case 0
  then show ?case by simp
next
  case (Suc i)
  let ?xs = "periodicEffects (getc who s)"
  let ?s3 = "effectsIter who time i s"
  from Suc.prems have i: "i < length ?xs" by simp
  have len: "i \<le> length (periodicEffects (getc who ?s3))"
    unfolding effectsIter_effects Let_def using i by auto
  have tk3: "take i (periodicEffects (getc who ?s3)) = take i ?xs"
    unfolding effectsIter_effects Let_def using i by auto
  have tk: "take (Suc i) ?xs = take i ?xs @ [?xs ! i]"
    using i by (simp add: take_Suc_conv_app_nth)
  have "effectsLoop who time i ?s3 =
          setEffects who (periodicEffects (getc who (effectsLoop who time i ?s3)))
            (foldr (effectStep who time) (take i ?xs) ?s3)"
    using Suc.IH[OF len] unfolding tk3 .
  also have "foldr (effectStep who time) (take i ?xs) ?s3
      = setEffects who (periodicEffects (getc who ?s3))
          (foldr (effectStep who time) (take (Suc i) ?xs) s)"
    by (subst effectsIter_step) (simp add: foldr_effectStep_setEffects tk)
  finally show ?case
    unfolding effectsLoop_Suc by simp
qed

lemma processCharacterEffects_state:
  "processCharacterEffects who time s =
     buffsLoop who time (length (buffs (getc who s)))
       (setEffects who (periodicEffects (getc who (processCharacterEffects who time s)))
          (foldr (effectStep who time) (periodicEffects (getc who s)) s))"
proof -
  let ?n = "length (periodicEffects (getc who s))"
  note st = effectsLoop_state[of ?n who s time, OF order_refl]
  have pe: "periodicEffects (getc who (processCharacterEffects who time s))
              = periodicEffects (getc who (effectsLoop who time ?n s))"
    by (simp add: processCharacterEffects_def Let_def frame_buffsLoop_effects)
  have b: "buffs (getc who (effectsLoop who time ?n s)) = buffs (getc who s)"
    by (subst st) simp
  show ?thesis
    unfolding pe
    by (simp add: processCharacterEffects_def Let_def b) (subst st, simp)
qed

text \<open>What a tick does, by the type of the effect.\<close>

lemma procEffect_damage:
  assumes "e_type e = ''poison'' \<or> e_type e = ''burning''"
  shows "currentHealth (getc who (procEffect who time e s))
           = numOp (-) (currentHealth (getc who s)) (toNumber (e_damage e))"
    and "currentHealth (getc (other who) (procEffect who time e s))
           = currentHealth (getc (other who) s)"
    and "currentMana (getc sd (procEffect who time e s)) = currentMana (getc sd s)"
    and "log (procEffect who time e s) =
           log s @ createLogEntry time (EffectDamage (c_name (getc who s)) (e_damage e) (e_name e))
             # (if numCmp (\<le>) (numOp (-) (currentHealth (getc who s)) (toNumber (e_damage e))) (Num 0)
                then [createLogEntry time
                        (if e_type e = ''poison'' then DefeatedBy (c_name (getc who s)) (e_name e)
                         else BurnedToAsh (c_name (getc who s)))]
                else [])"
  using assms
  by (cases who; cases sd; auto simp: procEffect_def Let_def log_addLog)+

lemma procEffect_regeneration:
  assumes "e_type e = ''regeneration''"
  shows "currentHealth (getc who (procEffect who time e s))
           = numOp min (Num (health (c_stats (getc who s))))
               (numOp (+) (currentHealth (getc who s)) (toNumber (e_amount e)))"
    and "currentHealth (getc (other who) (procEffect who time e s))
           = currentHealth (getc (other who) s)"
    and "currentMana (getc sd (procEffect who time e s)) = currentMana (getc sd s)"
    and "log (procEffect who time e s) =
           log s @ [createLogEntry time (RegenHealth (c_name (getc who s)) (e_amount e) (e_name e))]"
  using assms
  by (cases who; cases sd; auto simp: procEffect_def Let_def log_addLog)+

lemma procEffect_manaRegen:
  assumes "e_type e = ''manaRegen''"
  shows "currentMana (getc who (procEffect who time e s))
           = numOp min (Num (mana (c_stats (getc who s))))
               (numOp (+) (currentMana (getc who s)) (toNumber (e_amount e)))"
    and "currentMana (getc (other who) (procEffect who time e s))
           = currentMana (getc (other who) s)"
    and "currentHealth (getc sd (procEffect who time e s)) = currentHealth (getc sd s)"
    and "log (procEffect who time e s) =
           log s @ [createLogEntry time (RegenMana (c_name (getc who s)) (e_amount e) (e_name e))]"
  using assms
  by (cases who; cases sd; auto simp: procEffect_def Let_def log_addLog)+

lemma procEffect_manaDrain:
  assumes "e_type e = ''manaDrain''" "drainSource e s = other who"
  shows "currentMana (getc who (procEffect who time e s))
           = numOp (-) (currentMana (getc who s))
               (numOp min (currentMana (getc who s)) (toNumber (e_amount e)))"
    and "currentMana (getc (other who) (procEffect who time e s))
           = numOp min (Num (mana (c_stats (getc (other who) s))))
               (numOp (+) (currentMana (getc (other who) s)) (toNumber (e_amount e)))"
    and "currentHealth (getc sd (procEffect who time e s)) = currentHealth (getc sd s)"
    and "log (procEffect who time e s) =
           log s @ (if numCmp (>) (numOp min (currentMana (getc who s)) (toNumber (e_amount e))) (Num 0)
                    then [createLogEntry time
                            (ManaLost (c_name (getc who s))
                               (numOp min (currentMana (getc who s)) (toNumber (e_amount e)))
                               (e_name e)),
                          createLogEntry (time + 1 / 10)
                            (ManaGain (c_name (getc (other who) s)) (e_amount e) (e_name e))]
                    else [])"
  using assms
  by (cases who; cases sd;
      auto simp: procEffect_def Let_def log_addLog drainSource_def split: if_splits)+

lemma procEffect_unknown:
  assumes "e_type e \<noteq> ''poison''" "e_type e \<noteq> ''burning''" "e_type e \<noteq> ''manaDrain''"
    "e_type e \<noteq> ''regeneration''" "e_type e \<noteq> ''manaRegen''"
  shows "procEffect who time e s = s"
  using assms by (simp add: procEffect_def)

lemma effectStep_cases:
  "effectStep who time e s =
     (if time \<ge> e_lastProcTime e + e_interval e \<and> time < e_endTime e then procEffect who time e s
      else if time \<ge> e_endTime e
      then addLog time (EffectExpired (e_name e) (c_name (getc who s))) s
      else s)"
  by (auto simp: effectStep_def Let_def effectDue_def)

text \<open>
  Claim C6. Processing the effects of a character at \<open>time\<close> goes through its periodic
  effects from the last to the first. An effect ticks if and only if
  \<open>time \<ge> lastProcTime + interval\<close> and \<open>time < endTime\<close>: the tick is applied to the
  battle state and \<^verbatim>\<open>lastProcTime\<close> becomes \<open>time\<close>. An effect with
  \<open>time \<ge> endTime\<close> does not tick; it is removed and its expiry message is logged. All
  other effects stay as they are. The buffs are then processed on the resulting state. A
  tick of a poison or a burning takes the effect's damage from the health of the
  character and logs the damage, and the defeat when the health is then at most 0; a tick
  of a regeneration or a mana regeneration adds the effect's amount to the health or the
  mana, capped at the maximum, and logs it; a tick of a mana drain whose source is the
  opponent takes from the mana of the character and credits the opponent (see C4); a tick
  of any other type changes nothing.
\<close>

theorem periodic_tick_and_expiry:
  "periodicEffects (getc who (processCharacterEffects who time s)) =
     map (\<lambda>e. if time \<ge> e_lastProcTime e + e_interval e \<and> time < e_endTime e
              then e\<lparr>e_lastProcTime := time\<rparr> else e)
       (filter (\<lambda>e. time < e_endTime e) (periodicEffects (getc who s)))
   \<and> processCharacterEffects who time s =
       buffsLoop who time (length (buffs (getc who s)))
         (setEffects who (periodicEffects (getc who (processCharacterEffects who time s)))
            (foldr (\<lambda>e s. if time \<ge> e_lastProcTime e + e_interval e \<and> time < e_endTime e
                          then procEffect who time e s
                          else if time \<ge> e_endTime e
                          then addLog time (EffectExpired (e_name e) (c_name (getc who s))) s
                          else s)
               (periodicEffects (getc who s)) s))
   \<and> (e_type e = ''poison'' \<or> e_type e = ''burning'' \<longrightarrow>
        currentHealth (getc who (procEffect who time e s))
          = numOp (-) (currentHealth (getc who s)) (toNumber (e_damage e))
        \<and> currentHealth (getc (other who) (procEffect who time e s))
          = currentHealth (getc (other who) s)
        \<and> currentMana (getc sd (procEffect who time e s)) = currentMana (getc sd s)
        \<and> log (procEffect who time e s) =
            log s @ createLogEntry time (EffectDamage (c_name (getc who s)) (e_damage e) (e_name e))
              # (if numCmp (\<le>) (numOp (-) (currentHealth (getc who s)) (toNumber (e_damage e))) (Num 0)
                 then [createLogEntry time
                         (if e_type e = ''poison'' then DefeatedBy (c_name (getc who s)) (e_name e)
                          else BurnedToAsh (c_name (getc who s)))]
                 else []))
   \<and> (e_type e = ''regeneration'' \<longrightarrow>
        currentHealth (getc who (procEffect who time e s))
          = numOp min (Num (health (c_stats (getc who s))))
              (numOp (+) (currentHealth (getc who s)) (toNumber (e_amount e)))
        \<and> currentHealth (getc (other who) (procEffect who time e s))
          = currentHealth (getc (other who) s)
        \<and> currentMana (getc sd (procEffect who time e s)) = currentMana (getc sd s)
        \<and> log (procEffect who time e s) =
            log s @ [createLogEntry time (RegenHealth (c_name (getc who s)) (e_amount e) (e_name e))])
   \<and> (e_type e = ''manaRegen'' \<longrightarrow>
        currentMana (getc who (procEffect who time e s))
          = numOp min (Num (mana (c_stats (getc who s))))
              (numOp (+) (currentMana (getc who s)) (toNumber (e_amount e)))
        \<and> currentMana (getc (other who) (procEffect who time e s))
          = currentMana (getc (other who) s)
        \<and> currentHealth (getc sd (procEffect who time e s)) = currentHealth (getc sd s)
        \<and> log (procEffect who time e s) =
            log s @ [createLogEntry time (RegenMana (c_name (getc who s)) (e_amount e) (e_name e))])
   \<and> (e_type e = ''manaDrain'' \<and> drainSource e s = other who \<longrightarrow>
        currentMana (getc who (procEffect who time e s))
          = numOp (-) (currentMana (getc who s))
              (numOp min (currentMana (getc who s)) (toNumber (e_amount e)))
        \<and> currentMana (getc (other who) (procEffect who time e s))
          = numOp min (Num (mana (c_stats (getc (other who) s))))
              (numOp (+) (currentMana (getc (other who) s)) (toNumber (e_amount e)))
        \<and> currentHealth (getc sd (procEffect who time e s)) = currentHealth (getc sd s)
        \<and> log (procEffect who time e s) =
            log s @ (if numCmp (>) (numOp min (currentMana (getc who s)) (toNumber (e_amount e))) (Num 0)
                     then [createLogEntry time
                             (ManaLost (c_name (getc who s))
                                (numOp min (currentMana (getc who s)) (toNumber (e_amount e)))
                                (e_name e)),
                           createLogEntry (time + 1 / 10)
                             (ManaGain (c_name (getc (other who) s)) (e_amount e) (e_name e))]
                     else []))
   \<and> (e_type e \<noteq> ''poison'' \<and> e_type e \<noteq> ''burning'' \<and> e_type e \<noteq> ''manaDrain''
        \<and> e_type e \<noteq> ''regeneration'' \<and> e_type e \<noteq> ''manaRegen'' \<longrightarrow>
        procEffect who time e s = s)"
proof -
  have m: "markEffect time = (\<lambda>e. if time \<ge> e_lastProcTime e + e_interval e \<and> time < e_endTime e
                    then e\<lparr>e_lastProcTime := time\<rparr> else e)"
    by (rule ext) (simp add: markEffect_def effectDue_def)
  have k: "keepEffect time = (\<lambda>e. time < e_endTime e)"
    by (rule ext) (simp add: keepEffect_def)
  have st: "effectStep who time =
              (\<lambda>e s. if time \<ge> e_lastProcTime e + e_interval e \<and> time < e_endTime e
                     then procEffect who time e s
                     else if time \<ge> e_endTime e
                     then addLog time (EffectExpired (e_name e) (c_name (getc who s))) s
                     else s)"
    by (intro ext) (rule effectStep_cases)
  note c1 = processCharacterEffects_effects[of who time s, unfolded m k]
  note c2 = processCharacterEffects_state[of who time s, unfolded st]
  have c3: "e_type e = ''poison'' \<or> e_type e = ''burning'' \<longrightarrow>
        currentHealth (getc who (procEffect who time e s))
          = numOp (-) (currentHealth (getc who s)) (toNumber (e_damage e))
        \<and> currentHealth (getc (other who) (procEffect who time e s))
          = currentHealth (getc (other who) s)
        \<and> currentMana (getc sd (procEffect who time e s)) = currentMana (getc sd s)
        \<and> log (procEffect who time e s) =
            log s @ createLogEntry time (EffectDamage (c_name (getc who s)) (e_damage e) (e_name e))
              # (if numCmp (\<le>) (numOp (-) (currentHealth (getc who s)) (toNumber (e_damage e))) (Num 0)
                 then [createLogEntry time
                         (if e_type e = ''poison'' then DefeatedBy (c_name (getc who s)) (e_name e)
                          else BurnedToAsh (c_name (getc who s)))]
                 else [])"
    by (simp add: procEffect_damage)
  have c4: "e_type e = ''regeneration'' \<longrightarrow>
        currentHealth (getc who (procEffect who time e s))
          = numOp min (Num (health (c_stats (getc who s))))
              (numOp (+) (currentHealth (getc who s)) (toNumber (e_amount e)))
        \<and> currentHealth (getc (other who) (procEffect who time e s))
          = currentHealth (getc (other who) s)
        \<and> currentMana (getc sd (procEffect who time e s)) = currentMana (getc sd s)
        \<and> log (procEffect who time e s) =
            log s @ [createLogEntry time (RegenHealth (c_name (getc who s)) (e_amount e) (e_name e))]"
    by (simp add: procEffect_regeneration)
  have c5: "e_type e = ''manaRegen'' \<longrightarrow>
        currentMana (getc who (procEffect who time e s))
          = numOp min (Num (mana (c_stats (getc who s))))
              (numOp (+) (currentMana (getc who s)) (toNumber (e_amount e)))
        \<and> currentMana (getc (other who) (procEffect who time e s))
          = currentMana (getc (other who) s)
        \<and> currentHealth (getc sd (procEffect who time e s)) = currentHealth (getc sd s)
        \<and> log (procEffect who time e s) =
            log s @ [createLogEntry time (RegenMana (c_name (getc who s)) (e_amount e) (e_name e))]"
    by (simp add: procEffect_manaRegen)
  have c6: "e_type e = ''manaDrain'' \<and> drainSource e s = other who \<longrightarrow>
        currentMana (getc who (procEffect who time e s))
          = numOp (-) (currentMana (getc who s))
              (numOp min (currentMana (getc who s)) (toNumber (e_amount e)))
        \<and> currentMana (getc (other who) (procEffect who time e s))
          = numOp min (Num (mana (c_stats (getc (other who) s))))
              (numOp (+) (currentMana (getc (other who) s)) (toNumber (e_amount e)))
        \<and> currentHealth (getc sd (procEffect who time e s)) = currentHealth (getc sd s)
        \<and> log (procEffect who time e s) =
            log s @ (if numCmp (>) (numOp min (currentMana (getc who s)) (toNumber (e_amount e))) (Num 0)
                     then [createLogEntry time
                             (ManaLost (c_name (getc who s))
                                (numOp min (currentMana (getc who s)) (toNumber (e_amount e)))
                                (e_name e)),
                           createLogEntry (time + 1 / 10)
                             (ManaGain (c_name (getc (other who) s)) (e_amount e) (e_name e))]
                     else [])"
    by (simp add: procEffect_manaDrain)
  have c7: "e_type e \<noteq> ''poison'' \<and> e_type e \<noteq> ''burning'' \<and> e_type e \<noteq> ''manaDrain''
        \<and> e_type e \<noteq> ''regeneration'' \<and> e_type e \<noteq> ''manaRegen'' \<longrightarrow>
        procEffect who time e s = s"
    using procEffect_unknown[of e who time s] by simp
  from c1 c2 c3 c4 c5 c6 c7 show ?thesis by (intro conjI)
qed

text \<open>
  Instances. Character ``b'' has 50 of 100 health and 20 of 50 mana and carries one effect
  of each type, applied at time 0 with an interval of 2. At time 2 the burning has
  expired and the four others tick, from the last to the first: the mana goes to 23 and,
  drained by 8, to 15, the health to 57 and, poisoned by 10, to 47; the source of the
  drain, at 45 of 50 mana, is filled up. The scenario of the claim: in a battle where a
  poison of 10 damage with duration 6 and interval 2 is applied at time 0 and whose
  effects are processed at the times 0, 2, 4, 6, 8 and 10, the log has the damage of the
  poison at 2 and at 4 and then its expiry at 6, and nothing else of the effect.
\<close>

theorem periodic_tick_and_expiry_witness:
  "map (\<lambda>e. (e_type e, e_lastProcTime e))
     (periodicEffects (getc Second (processCharacterEffects Second 2 exAfflicted)))
     = [(''poison'', 2), (''manaDrain'', 2), (''regeneration'', 2), (''manaRegen'', 2)]
   \<and> currentHealth (getc Second
         (procEffect Second 2 (exEffect ''poison'' (Some 10) None 6) exAfflicted)) = Num 40
   \<and> currentHealth (getc Second
         (procEffect Second 2 (exEffect ''burning'' (Some 5) None 2) exAfflicted)) = Num 45
   \<and> currentHealth (getc Second
         (procEffect Second 2 (exEffect ''regeneration'' None (Some 7) 6) exAfflicted)) = Num 57
   \<and> currentMana (getc Second
         (procEffect Second 2 (exEffect ''manaRegen'' None (Some 3) 6) exAfflicted)) = Num 23
   \<and> currentMana (getc Second
         (procEffect Second 2 (exEffect ''manaDrain'' None (Some 8) 6) exAfflicted)) = Num 12
   \<and> currentMana (getc First
         (procEffect Second 2 (exEffect ''manaDrain'' None (Some 8) 6) exAfflicted)) = Num 50
   \<and> (let s' = processCharacterEffects Second 2 exAfflicted
      in currentHealth (character2 s') = Num 47 \<and> currentMana (character2 s') = Num 15
         \<and> currentMana (character1 s') = Num 50
         \<and> map l_message (log s')
             = [RegenMana ''b'' (Some 3) ''manaRegen'', RegenHealth ''b'' (Some 7) ''regeneration'',
                ManaLost ''b'' (Num 8) ''manaDrain'', ManaGain ''a'' (Some 8) ''manaDrain'',
                EffectExpired ''burning'' ''b'', EffectDamage ''b'' (Some 10) ''poison''])
   \<and> map_option (\<lambda>res. map (\<lambda>l. (l_time l, l_message l)) (filter isEffectLine (r_log res)))
       (simulateBattle 8 (\<lambda>_. 1 / 2) [exVenom] exVenom1 exVenom2)
       = Some [(2, EffectDamage ''b'' (Some 10) ''Poison''),
               (4, EffectDamage ''b'' (Some 10) ''Poison''),
               (6, EffectExpired ''Poison'' ''b'')]"
proof -
  let ?P = "exEffect ''poison'' (Some 10) None 6"
  let ?B = "exEffect ''burning'' (Some 5) None 2"
  let ?R = "exEffect ''regeneration'' None (Some 7) 6"
  let ?M = "exEffect ''manaRegen'' None (Some 3) 6"
  let ?D = "exEffect ''manaDrain'' None (Some 8) 6"
  have ty: "e_type (exEffect ty d a t) = ty" "e_damage (exEffect ty d a t) = d"
    "e_amount (exEffect ty d a t) = a" for ty d a t
    by (simp_all add: exEffect_def)
  have st: "currentHealth (character2 exAfflicted) = Num 50"
    "currentMana (character2 exAfflicted) = Num 20"
    "currentMana (character1 exAfflicted) = Num 45"
    "health (c_stats (character2 exAfflicted)) = 100"
    "mana (c_stats (character2 exAfflicted)) = 50"
    "mana (c_stats (character1 exAfflicted)) = 50"
    by code_simp+
  have src: "drainSource ?D exAfflicted = other Second" by code_simp
  have "map (\<lambda>e. (e_type e, e_lastProcTime e))
          (map (\<lambda>e. if 2 \<ge> e_lastProcTime e + e_interval e \<and> 2 < e_endTime e
                    then e\<lparr>e_lastProcTime := 2\<rparr> else e)
             (filter (\<lambda>e. 2 < e_endTime e) (periodicEffects (getc Second exAfflicted))))
          = [(''poison'', 2), (''manaDrain'', 2), (''regeneration'', 2), (''manaRegen'', 2)]"
    by code_simp
  then have l: "map (\<lambda>e. (e_type e, e_lastProcTime e))
     (periodicEffects (getc Second (processCharacterEffects Second 2 exAfflicted)))
     = [(''poison'', 2), (''manaDrain'', 2), (''regeneration'', 2), (''manaRegen'', 2)]"
    unfolding periodic_tick_and_expiry[where who=Second and time=2 and s=exAfflicted, THEN conjunct1] .
  have p: "currentHealth (getc Second (procEffect Second 2 ?P exAfflicted)) = Num 40"
    using periodic_tick_and_expiry[where who=Second and time=2 and s=exAfflicted and sd=Second
        and e="?P", THEN conjunct2, THEN conjunct2, THEN conjunct1] by (simp add: ty st toNumber_def)
  have b: "currentHealth (getc Second (procEffect Second 2 ?B exAfflicted)) = Num 45"
    using periodic_tick_and_expiry[where who=Second and time=2 and s=exAfflicted and sd=Second
        and e="?B", THEN conjunct2, THEN conjunct2, THEN conjunct1] by (simp add: ty st toNumber_def)
  have r: "currentHealth (getc Second (procEffect Second 2 ?R exAfflicted)) = Num 57"
    using periodic_tick_and_expiry[where who=Second and time=2 and s=exAfflicted and sd=Second
        and e="?R", THEN conjunct2, THEN conjunct2, THEN conjunct2, THEN conjunct1] by (simp add: ty st toNumber_def)
  have m: "currentMana (getc Second (procEffect Second 2 ?M exAfflicted)) = Num 23"
    using periodic_tick_and_expiry[where who=Second and time=2 and s=exAfflicted and sd=Second
        and e="?M", THEN conjunct2, THEN conjunct2, THEN conjunct2, THEN conjunct2, THEN conjunct1]
    by (simp add: ty st toNumber_def)
  have d: "currentMana (getc Second (procEffect Second 2 ?D exAfflicted)) = Num 12"
    "currentMana (getc First (procEffect Second 2 ?D exAfflicted)) = Num 50"
    using periodic_tick_and_expiry[where who=Second and time=2 and s=exAfflicted and sd=Second
        and e="?D", THEN conjunct2, THEN conjunct2, THEN conjunct2, THEN conjunct2, THEN conjunct2, THEN conjunct1] src
    by (simp_all add: ty st toNumber_def)
  have a: "(let s' = processCharacterEffects Second 2 exAfflicted
      in currentHealth (character2 s') = Num 47 \<and> currentMana (character2 s') = Num 15
         \<and> currentMana (character1 s') = Num 50
         \<and> map l_message (log s')
             = [RegenMana ''b'' (Some 3) ''manaRegen'', RegenHealth ''b'' (Some 7) ''regeneration'',
                ManaLost ''b'' (Num 8) ''manaDrain'', ManaGain ''a'' (Some 8) ''manaDrain'',
                EffectExpired ''burning'' ''b'', EffectDamage ''b'' (Some 10) ''poison''])"
    by code_simp
  have v: "map_option (\<lambda>res. map (\<lambda>l. (l_time l, l_message l)) (filter isEffectLine (r_log res)))
       (simulateBattle 8 (\<lambda>_. 1 / 2) [exVenom] exVenom1 exVenom2)
       = Some [(2, EffectDamage ''b'' (Some 10) ''Poison''),
               (4, EffectDamage ''b'' (Some 10) ''Poison''),
               (6, EffectExpired ''Poison'' ''b'')]"
    by code_simp
  from l p b r m d a v show ?thesis by (intro conjI)
qed

section \<open>Mana drain\<close>

lemma stats_procEffect [simp]:
  "c_stats (getc sd (procEffect who time e s)) = c_stats (getc sd s)"
  using frame_procEffect[of sd who time e s] by (simp add: frame_def static_def)

lemma numOp_min_not_gt [simp]: "\<not> numCmp (>) (numOp min (Num a) x) (Num a)"
  by (cases x) simp_all

lemma procEffect_manaDrain_numbers:
  assumes "e_type e = ''manaDrain''" "e_amount e = Some a" "drainSource e s = other who"
  shows "currentMana (getc who (procEffect who time e s))
           = numOp (-) (currentMana (getc who s)) (numOp min (currentMana (getc who s)) (Num a))"
    and "currentMana (getc (other who) (procEffect who time e s))
           = numOp min (Num (mana (c_stats (getc (other who) s))))
               (numOp (+) (currentMana (getc (other who) s)) (Num a))"
    and "\<not> numCmp (>) (currentMana (getc (other who) (procEffect who time e s)))
              (Num (mana (c_stats (getc (other who) (procEffect who time e s)))))"
  using procEffect_manaDrain(1,2)[OF assms(1,3), of time] assms(2)
  by (simp_all add: toNumber_def)

lemma mana_applyPeriodicEffect [simp]:
  "currentMana (getc sd (applyPeriodicEffect src time e s)) = currentMana (getc sd s)"
  by (simp add: applyPeriodicEffect_def Let_def getc_setc split: option.splits)

lemma stats_applyPeriodicEffect [simp]:
  "c_stats (getc sd (applyPeriodicEffect src time e s)) = c_stats (getc sd s)"
  by (simp add: applyPeriodicEffect_def Let_def getc_setc split: option.splits)

lemma processPeriodicAbility_manaDrain:
  assumes "pe_type pe = ''manaDrain''"
  shows "currentMana (getc (other att) (processPeriodicAbility att time ab pe msg s))
           = numOp (-) (currentMana (getc (other att) s))
               (numOp min (currentMana (getc (other att) s)) (Num (pe_amount pe)))"
    and "currentMana (getc att (processPeriodicAbility att time ab pe msg s))
           = numOp min (Num (mana (c_stats (getc att s))))
               (numOp (+) (currentMana (getc att s)) (Num (pe_amount pe)))"
    and "\<not> numCmp (>) (currentMana (getc att (processPeriodicAbility att time ab pe msg s)))
              (Num (mana (c_stats (getc att (processPeriodicAbility att time ab pe msg s)))))"
  using assms
  by (simp_all add: processPeriodicAbility_def Let_def getc_setc)

text \<open>
  Claim C4, as stated, fails: the source is credited the nominal amount of the drain, not
  the amount drained. A tick of a drain of 20 on a target with 5 mana takes 5 from the
  target and gives 20 to the source; so does the first proc of the ability.
\<close>

theorem mana_drain_counterexample:
  "numOp min (currentMana (character2 exDrained)) (Num 20) = Num 5
   \<and> numOp (-) (currentMana (character2 exDrained))
         (currentMana (character2 (processCharacterEffects Second 2 exDrained))) = Num 5
   \<and> numOp (-) (currentMana (character1 (processCharacterEffects Second 2 exDrained)))
         (currentMana (character1 exDrained)) = Num 20
   \<and> numOp min (currentMana (getc (other First) exDrained)) (Num 20) = Num 5
   \<and> numOp (-)
         (currentMana (getc First
            (processAbility (\<lambda>_. 1 / 2) [exDrain] First 0 exDrain exDrained)))
         (currentMana (getc First exDrained)) = Num 20"
proof -
  have "numOp min (currentMana (character2 exDrained)) (Num 20) = Num 5"
    by code_simp
  moreover have "numOp (-) (currentMana (character2 exDrained))
         (currentMana (character2 (processCharacterEffects Second 2 exDrained))) = Num 5"
    by code_simp
  moreover have "numOp (-) (currentMana (character1 (processCharacterEffects Second 2 exDrained)))
         (currentMana (character1 exDrained)) = Num 20"
    by code_simp
  moreover have "numOp min (currentMana (getc (other First) exDrained)) (Num 20) = Num 5"
    by code_simp
  moreover have "numOp (-)
         (currentMana (getc First
            (processAbility (\<lambda>_. 1 / 2) [exDrain] First 0 exDrain exDrained)))
         (currentMana (getc First exDrained)) = Num 20"
    by code_simp
  ultimately show ?thesis by (intro conjI)
qed

text \<open>
  Claim C4, amended. A mana drain proc, the tick of an effect whose source is the other
  character as well as the first proc when the ability is used, takes
  \<open>min currentMana amount\<close> from the target and sets the source's mana to
  \<open>min maxMana (currentMana + amount)\<close>: the source is credited the nominal amount,
  capped at its maximum mana, which its mana therefore never exceeds. For a target with
  \<open>m\<close> mana and a source with \<open>m'\<close> mana these are \<open>m - min m amount\<close> and
  \<open>min maxMana (m' + amount)\<close>.
\<close>

theorem mana_drain_transfer:
  "(e_type e = ''manaDrain'' \<and> e_amount e = Some a \<and> drainSource e s = other who \<longrightarrow>
      currentMana (getc who (procEffect who time e s))
        = numOp (-) (currentMana (getc who s)) (numOp min (currentMana (getc who s)) (Num a))
      \<and> currentMana (getc (other who) (procEffect who time e s))
        = numOp min (Num (mana (c_stats (getc (other who) s))))
            (numOp (+) (currentMana (getc (other who) s)) (Num a))
      \<and> \<not> numCmp (>) (currentMana (getc (other who) (procEffect who time e s)))
             (Num (mana (c_stats (getc (other who) (procEffect who time e s)))))
      \<and> (currentMana (getc who s) = Num m \<and> currentMana (getc (other who) s) = Num m' \<longrightarrow>
           currentMana (getc who (procEffect who time e s)) = Num (m - min m a)
           \<and> currentMana (getc (other who) (procEffect who time e s))
             = Num (min (mana (c_stats (getc (other who) s))) (m' + a))
           \<and> numCmp (\<le>) (currentMana (getc (other who) (procEffect who time e s)))
               (Num (mana (c_stats (getc (other who) (procEffect who time e s)))))))
   \<and> (pe_type pe = ''manaDrain'' \<longrightarrow>
        currentMana (getc (other att) (processPeriodicAbility att time ab pe msg s))
          = numOp (-) (currentMana (getc (other att) s))
              (numOp min (currentMana (getc (other att) s)) (Num (pe_amount pe)))
        \<and> currentMana (getc att (processPeriodicAbility att time ab pe msg s))
          = numOp min (Num (mana (c_stats (getc att s))))
              (numOp (+) (currentMana (getc att s)) (Num (pe_amount pe)))
        \<and> \<not> numCmp (>) (currentMana (getc att (processPeriodicAbility att time ab pe msg s)))
               (Num (mana (c_stats (getc att (processPeriodicAbility att time ab pe msg s)))))
        \<and> (currentMana (getc (other att) s) = Num m \<and> currentMana (getc att s) = Num m' \<longrightarrow>
             currentMana (getc (other att) (processPeriodicAbility att time ab pe msg s))
               = Num (m - min m (pe_amount pe))
             \<and> currentMana (getc att (processPeriodicAbility att time ab pe msg s))
               = Num (min (mana (c_stats (getc att s))) (m' + pe_amount pe))
             \<and> numCmp (\<le>) (currentMana (getc att (processPeriodicAbility att time ab pe msg s)))
                 (Num (mana (c_stats (getc att (processPeriodicAbility att time ab pe msg s)))))))"
proof (intro conjI impI)
  assume a: "e_type e = ''manaDrain'' \<and> e_amount e = Some a \<and> drainSource e s = other who"
  then have h: "e_type e = ''manaDrain''" "e_amount e = Some a" "drainSource e s = other who"
    by simp_all
  note p = procEffect_manaDrain_numbers[OF h, of time]
  show "currentMana (getc who (procEffect who time e s))
        = numOp (-) (currentMana (getc who s)) (numOp min (currentMana (getc who s)) (Num a))"
    by (rule p(1))
  show "currentMana (getc (other who) (procEffect who time e s))
        = numOp min (Num (mana (c_stats (getc (other who) s))))
            (numOp (+) (currentMana (getc (other who) s)) (Num a))"
    by (rule p(2))
  show "\<not> numCmp (>) (currentMana (getc (other who) (procEffect who time e s)))
             (Num (mana (c_stats (getc (other who) (procEffect who time e s)))))"
    by (rule p(3))
  assume n: "currentMana (getc who s) = Num m \<and> currentMana (getc (other who) s) = Num m'"
  show "currentMana (getc who (procEffect who time e s)) = Num (m - min m a)"
    unfolding p(1) using n by simp
  show "currentMana (getc (other who) (procEffect who time e s))
             = Num (min (mana (c_stats (getc (other who) s))) (m' + a))"
    unfolding p(2) using n by simp
  show "numCmp (\<le>) (currentMana (getc (other who) (procEffect who time e s)))
               (Num (mana (c_stats (getc (other who) (procEffect who time e s)))))"
    unfolding p(2) using n by simp
next
  assume t: "pe_type pe = ''manaDrain''"
  note p = processPeriodicAbility_manaDrain[OF t, of att time ab msg s]
  show "currentMana (getc (other att) (processPeriodicAbility att time ab pe msg s))
          = numOp (-) (currentMana (getc (other att) s))
              (numOp min (currentMana (getc (other att) s)) (Num (pe_amount pe)))"
    by (rule p(1))
  show "currentMana (getc att (processPeriodicAbility att time ab pe msg s))
          = numOp min (Num (mana (c_stats (getc att s))))
              (numOp (+) (currentMana (getc att s)) (Num (pe_amount pe)))"
    by (rule p(2))
  show "\<not> numCmp (>) (currentMana (getc att (processPeriodicAbility att time ab pe msg s)))
               (Num (mana (c_stats (getc att (processPeriodicAbility att time ab pe msg s)))))"
    by (rule p(3))
  assume n: "currentMana (getc (other att) s) = Num m \<and> currentMana (getc att s) = Num m'"
  show "currentMana (getc (other att) (processPeriodicAbility att time ab pe msg s))
               = Num (m - min m (pe_amount pe))"
    unfolding p(1) using n by simp
  show "currentMana (getc att (processPeriodicAbility att time ab pe msg s))
               = Num (min (mana (c_stats (getc att s))) (m' + pe_amount pe))"
    unfolding p(2) using n by simp
  have "c_stats (getc att (processPeriodicAbility att time ab pe msg s)) = c_stats (getc att s)"
    using t by (simp add: processPeriodicAbility_def Let_def getc_setc)
  then show "numCmp (\<le>) (currentMana (getc att (processPeriodicAbility att time ab pe msg s)))
                 (Num (mana (c_stats (getc att (processPeriodicAbility att time ab pe msg s)))))"
    unfolding p(2) using n by simp
qed

text \<open>
  An instance: the tick of a drain of 20 on character ``b'', who has 5 mana, cast by
  ``a'', who has none of 50: ``b'' is left with 0 and ``a'' has 20.
\<close>

theorem mana_drain_transfer_witness:
  "e_type exDrainEffect = ''manaDrain'' \<and> e_amount exDrainEffect = Some 20
   \<and> drainSource exDrainEffect exDrained = other Second
   \<and> currentMana (getc Second exDrained) = Num 5
   \<and> currentMana (getc (other Second) exDrained) = Num 0
   \<and> currentMana (getc Second (procEffect Second 2 exDrainEffect exDrained)) = Num 0
   \<and> currentMana (getc First (procEffect Second 2 exDrainEffect exDrained)) = Num 20"
proof -
  have h: "e_type exDrainEffect = ''manaDrain''" "e_amount exDrainEffect = Some 20"
    "drainSource exDrainEffect exDrained = other Second"
    by (simp_all add: exDrainEffect_def drainSource_def exDrained_def createBattleState_def
        createCharacterBattleState_def exData_def)
  have m: "currentMana (getc Second exDrained) = Num 5"
    "currentMana (getc (other Second) exDrained) = Num 0"
    by (simp_all add: exDrained_def createBattleState_def createCharacterBattleState_def)
  have mx: "mana (c_stats (getc (other Second) exDrained)) = 50"
    by (simp add: exDrained_def createBattleState_def createCharacterBattleState_def exData_def
        exStats_def)
  note t = mana_drain_transfer[where e=exDrainEffect and a=20 and s=exDrained and who=Second
      and time=2 and m=5 and m'=0, THEN conjunct1, rule_format,
      OF conjI[OF h(1) conjI[OF h(2) h(3)]]]
  note n = t[THEN conjunct2, THEN conjunct2, THEN conjunct2, rule_format, OF conjI[OF m]]
  have "currentMana (getc Second (procEffect Second 2 exDrainEffect exDrained)) = Num 0"
    using n[THEN conjunct1] by simp
  moreover have "currentMana (getc First (procEffect Second 2 exDrainEffect exDrained)) = Num 20"
    using n[THEN conjunct2, THEN conjunct1] unfolding mx by simp
  ultimately show ?thesis using h m by (intro conjI)
qed

section \<open>Matchmaking never pairs two characters of one player\<close>

lemma findMatch_None:
  "find (\<lambda>entry. q_characterId entry \<noteq> c \<and> q_playerId entry \<noteq> p) (matchmakingQueue st) = None
     \<Longrightarrow> findMatch sb c p st = (st, Inr None)"
  by (simp add: findMatch_def)

lemma findMatch_Some:
  assumes "find (\<lambda>entry. q_characterId entry \<noteq> c \<and> q_playerId entry \<noteq> p) (matchmakingQueue st)
             = Some opp"
  shows "findMatch sb c p st =
     (case sb c (q_characterId opp) of
        None \<Rightarrow>
          (st\<lparr>matchmakingQueue :=
                filter (\<lambda>entry. q_characterId entry \<noteq> c \<and> q_characterId entry \<noteq> q_characterId opp)
                  (matchmakingQueue st)\<rparr>, Inl BattleThrew)
      | Some battleId \<Rightarrow>
          (st\<lparr>matchmakingQueue :=
                filter (\<lambda>entry. q_characterId entry \<noteq> c \<and> q_characterId entry \<noteq> q_characterId opp)
                  (matchmakingQueue st),
              pendingMatchNotifications :=
                (pendingMatchNotifications st)
                  (q_characterId opp \<mapsto> \<lparr>m_opponentId = c, m_battleId = battleId\<rparr>)\<rparr>,
           Inr (Some \<lparr>m_opponentId = q_characterId opp, m_battleId = battleId\<rparr>)))"
  using assms by (simp add: findMatch_def Let_def split: option.splits)

lemma findMatch_pairs:
  assumes "findMatch sb c p st = (st', Inr (Some m))"
  shows "\<exists>i < length (matchmakingQueue st).
           m_opponentId m = q_characterId (matchmakingQueue st ! i)
           \<and> q_characterId (matchmakingQueue st ! i) \<noteq> c
           \<and> q_playerId (matchmakingQueue st ! i) \<noteq> p
           \<and> (\<forall>j<i. \<not> (q_characterId (matchmakingQueue st ! j) \<noteq> c
                         \<and> q_playerId (matchmakingQueue st ! j) \<noteq> p))"
    and "matchmakingQueue st' =
           filter (\<lambda>entry. q_characterId entry \<noteq> c \<and> q_characterId entry \<noteq> m_opponentId m)
             (matchmakingQueue st)"
    and "pendingMatchNotifications st' (m_opponentId m)
           = Some \<lparr>m_opponentId = c, m_battleId = m_battleId m\<rparr>"
proof -
  from assms obtain opp where
    f: "find (\<lambda>entry. q_characterId entry \<noteq> c \<and> q_playerId entry \<noteq> p) (matchmakingQueue st)
          = Some opp"
    by (cases "find (\<lambda>entry. q_characterId entry \<noteq> c \<and> q_playerId entry \<noteq> p) (matchmakingQueue st)")
       (auto simp: findMatch_None)
  from assms obtain bid where sb: "sb c (q_characterId opp) = Some bid"
    by (cases "sb c (q_characterId opp)") (auto simp: findMatch_Some[OF f])
  from assms have m: "m = \<lparr>m_opponentId = q_characterId opp, m_battleId = bid\<rparr>"
    and st': "st' = st\<lparr>matchmakingQueue :=
                filter (\<lambda>entry. q_characterId entry \<noteq> c \<and> q_characterId entry \<noteq> q_characterId opp)
                  (matchmakingQueue st),
              pendingMatchNotifications :=
                (pendingMatchNotifications st)
                  (q_characterId opp \<mapsto> \<lparr>m_opponentId = c, m_battleId = bid\<rparr>)\<rparr>"
    by (simp_all add: findMatch_Some[OF f] sb)
  from f obtain i where "i < length (matchmakingQueue st)" "matchmakingQueue st ! i = opp"
    "q_characterId opp \<noteq> c \<and> q_playerId opp \<noteq> p"
    "\<forall>j<i. \<not> (q_characterId (matchmakingQueue st ! j) \<noteq> c
                         \<and> q_playerId (matchmakingQueue st ! j) \<noteq> p)"
    unfolding find_Some_iff by blast
  then show "\<exists>i < length (matchmakingQueue st).
           m_opponentId m = q_characterId (matchmakingQueue st ! i)
           \<and> q_characterId (matchmakingQueue st ! i) \<noteq> c
           \<and> q_playerId (matchmakingQueue st ! i) \<noteq> p
           \<and> (\<forall>j<i. \<not> (q_characterId (matchmakingQueue st ! j) \<noteq> c
                         \<and> q_playerId (matchmakingQueue st ! j) \<noteq> p))"
    unfolding m by (intro exI[of _ i]) simp
  show "matchmakingQueue st' =
           filter (\<lambda>entry. q_characterId entry \<noteq> c \<and> q_characterId entry \<noteq> m_opponentId m)
             (matchmakingQueue st)"
    by (simp add: m st')
  show "pendingMatchNotifications st' (m_opponentId m)
           = Some \<lparr>m_opponentId = c, m_battleId = m_battleId m\<rparr>"
    by (simp add: m st')
qed


lemma queueOk_findMatch:
  assumes "queueOk owner st" "findMatch sb c (owner c) st = (st', r)"
  shows "queueOk owner st'" and "r = Inr (Some m) \<Longrightarrow> owner (m_opponentId m) \<noteq> owner c"
proof -
  show "queueOk owner st'"
  proof (cases "find (\<lambda>entry. q_characterId entry \<noteq> c \<and> q_playerId entry \<noteq> owner c)
                  (matchmakingQueue st)")
    case None
    with assms show ?thesis by (simp add: findMatch_None)
  next
    case (Some opp)
    then have "opp \<in> set (matchmakingQueue st)" "q_playerId opp \<noteq> owner c"
      by (auto simp: find_Some_iff)
    with assms(1) have o: "owner c \<noteq> owner (q_characterId opp)"
      by (auto simp: queueOk_def)
    from assms show ?thesis
      unfolding findMatch_Some[OF Some]
      using o by (auto simp: queueOk_def split: option.splits if_splits)
  qed
  assume r: "r = Inr (Some m)"
  from findMatch_pairs(1)[OF assms(2)[unfolded r]] assms(1)
  show "owner (m_opponentId m) \<noteq> owner c"
    by (auto simp: queueOk_def)
qed

lemma refreshTimestamp_owner:
  "\<forall>entry\<in>set q. q_playerId entry = owner (q_characterId entry)
     \<Longrightarrow> \<forall>entry\<in>set (refreshTimestamp c now q). q_playerId entry = owner (q_characterId entry)"
  by (induction q) auto

lemma queueOk_refresh:
  assumes "queueOk owner st"
  shows "queueOk owner (st\<lparr>matchmakingQueue := refreshTimestamp c now (matchmakingQueue st)\<rparr>)"
  using assms refreshTimestamp_owner[of "matchmakingQueue st" owner c now]
  by (simp add: queueOk_def)

lemma queueOk_addToQueue:
  assumes "queueOk owner st" "addToQueue sb now c (owner c) st = (st', r)"
  shows "queueOk owner st'" and "r = Inr (MatchFound m) \<Longrightarrow> owner (m_opponentId m) \<noteq> owner c"
proof -
  let ?pushed = "st\<lparr>matchmakingQueue := matchmakingQueue st
                    @ [\<lparr>q_characterId = c, q_playerId = owner c, q_timestamp = now\<rparr>]\<rparr>"
  have pushed: "queueOk owner ?pushed"
    using assms(1) by (auto simp: queueOk_def)
  consider (pending) m0 where "pendingMatchNotifications st c = Some m0"
    | (queued) e where "pendingMatchNotifications st c = None"
        "find (\<lambda>entry. q_characterId entry = c) (matchmakingQueue st) = Some e"
    | (new) "pendingMatchNotifications st c = None"
        "find (\<lambda>entry. q_characterId entry = c) (matchmakingQueue st) = None"
    by (cases "pendingMatchNotifications st c";
        cases "find (\<lambda>entry. q_characterId entry = c) (matchmakingQueue st)") auto
  then have "queueOk owner st' \<and> (r = Inr (MatchFound m) \<longrightarrow> owner (m_opponentId m) \<noteq> owner c)"
  proof cases
    case pending
    with assms show ?thesis
      by (auto simp: addToQueue_def queueOk_def split: if_splits)
  next
    case queued
    with assms(2) have "st' = st\<lparr>matchmakingQueue := refreshTimestamp c now (matchmakingQueue st)\<rparr>"
      and "r \<noteq> Inr (MatchFound m)"
      by (auto simp: addToQueue_def Let_def)
    with queueOk_refresh[OF assms(1)] show ?thesis by simp
  next
    case new
    obtain st1 r1 where fm: "findMatch sb c (owner c) ?pushed = (st1, r1)"
      by (cases "findMatch sb c (owner c) ?pushed") auto
    from assms(2) new fm have st': "st' = st1"
      and r: "r = (case r1 of Inl err \<Rightarrow> Inl err | Inr (Some m) \<Rightarrow> Inr (MatchFound m)
                   | Inr None \<Rightarrow> Inr (AddedToQueue (getQueuePosition st1 c)))"
      by (auto simp: addToQueue_def Let_def split: sum.splits option.splits)
    from queueOk_findMatch[OF pushed fm] r show ?thesis
      unfolding st' by (auto split: sum.splits option.splits)
  qed
  then show "queueOk owner st'"
    and "r = Inr (MatchFound m) \<Longrightarrow> owner (m_opponentId m) \<noteq> owner c"
    by simp_all
qed

lemma addAllToQueue_ok:
  "queueOk owner st \<Longrightarrow> (c, Inr (MatchFound m)) \<in> set (addAllToQueue sb owner xs st)
     \<Longrightarrow> owner (m_opponentId m) \<noteq> owner c"
proof (induction xs arbitrary: st)
  case Nil
  then show ?case by simp
next
  case (Cons x xs)
  obtain now c0 where x: "x = (now, c0)" by (cases x)
  obtain st' r where a: "addToQueue sb now c0 (owner c0) st = (st', r)"
    by (cases "addToQueue sb now c0 (owner c0) st")
  from Cons.prems(2) have "(c, Inr (MatchFound m)) = (c0, r)
      \<or> (c, Inr (MatchFound m)) \<in> set (addAllToQueue sb owner xs st')"
    by (simp add: x a)
  then show ?case
  proof
    assume "(c, Inr (MatchFound m)) = (c0, r)"
    with queueOk_addToQueue(2)[OF Cons.prems(1) a, of m] show ?thesis by simp
  next
    assume "(c, Inr (MatchFound m)) \<in> set (addAllToQueue sb owner xs st')"
    from Cons.IH[OF queueOk_addToQueue(1)[OF Cons.prems(1) a] this] show ?thesis .
  qed
qed

lemma queueOk_initial: "queueOk owner initialMatchmaking"
  by (simp add: queueOk_def initialMatchmaking_def)

text \<open>
  Claim C9. When \<^verbatim>\<open>findMatch\<close> pairs a character, the opponent is the first waiting
  entry whose character id differs from the character's and whose player id differs from
  the player's; the entries of both characters are removed from the queue and the
  opponent gets a pending notification. Hence, when every character is enqueued by its
  owner, \<^verbatim>\<open>addToQueue\<close> never returns a match between two characters of one player,
  whatever the series of calls.
\<close>

theorem no_match_within_one_player:
  "(findMatch startBattle c p st = (st', Inr (Some m)) \<longrightarrow>
      (\<exists>i < length (matchmakingQueue st).
           m_opponentId m = q_characterId (matchmakingQueue st ! i)
           \<and> q_characterId (matchmakingQueue st ! i) \<noteq> c
           \<and> q_playerId (matchmakingQueue st ! i) \<noteq> p
           \<and> (\<forall>j<i. \<not> (q_characterId (matchmakingQueue st ! j) \<noteq> c
                         \<and> q_playerId (matchmakingQueue st ! j) \<noteq> p)))
      \<and> matchmakingQueue st' =
           filter (\<lambda>entry. q_characterId entry \<noteq> c \<and> q_characterId entry \<noteq> m_opponentId m)
             (matchmakingQueue st)
      \<and> pendingMatchNotifications st' (m_opponentId m)
           = Some \<lparr>m_opponentId = c, m_battleId = m_battleId m\<rparr>)
   \<and> (queueOk owner st \<and> addToQueue startBattle now c (owner c) st = (st', r) \<longrightarrow>
        queueOk owner st' \<and> (r = Inr (MatchFound m) \<longrightarrow> owner (m_opponentId m) \<noteq> owner c))
   \<and> ((c, Inr (MatchFound m)) \<in> set (addAllToQueue startBattle owner enqueues initialMatchmaking)
        \<longrightarrow> owner (m_opponentId m) \<noteq> owner c)"
proof (intro conjI impI)
  assume f: "findMatch startBattle c p st = (st', Inr (Some m))"
  from findMatch_pairs[OF f]
  show "\<exists>i < length (matchmakingQueue st).
           m_opponentId m = q_characterId (matchmakingQueue st ! i)
           \<and> q_characterId (matchmakingQueue st ! i) \<noteq> c
           \<and> q_playerId (matchmakingQueue st ! i) \<noteq> p
           \<and> (\<forall>j<i. \<not> (q_characterId (matchmakingQueue st ! j) \<noteq> c
                         \<and> q_playerId (matchmakingQueue st ! j) \<noteq> p))"
    and "matchmakingQueue st' =
           filter (\<lambda>entry. q_characterId entry \<noteq> c \<and> q_characterId entry \<noteq> m_opponentId m)
             (matchmakingQueue st)"
    and "pendingMatchNotifications st' (m_opponentId m)
           = Some \<lparr>m_opponentId = c, m_battleId = m_battleId m\<rparr>"
    by this+
next
  assume a: "queueOk owner st \<and> addToQueue startBattle now c (owner c) st = (st', r)"
  from queueOk_addToQueue(1)[OF conjunct1[OF a] conjunct2[OF a]]
  show "queueOk owner st'" .
  assume "r = Inr (MatchFound m)"
  from queueOk_addToQueue(2)[OF conjunct1[OF a] conjunct2[OF a] this]
  show "owner (m_opponentId m) \<noteq> owner c" .
next
  assume "(c, Inr (MatchFound m)) \<in> set (addAllToQueue startBattle owner enqueues initialMatchmaking)"
  from addAllToQueue_ok[OF queueOk_initial this]
  show "owner (m_opponentId m) \<noteq> owner c" .
qed

text \<open>
  The scenario: A and B of player X are enqueued and keep waiting at positions 1 and 2;
  C of player Y is then matched with A, the first entry of another player.
\<close>

theorem no_match_within_one_player_witness:
  "addAllToQueue exStartBattle exOwner [(''t1'', ''A''), (''t2'', ''B''), (''t3'', ''C'')]
     initialMatchmaking
     = [(''A'', Inr (AddedToQueue (Some 1))), (''B'', Inr (AddedToQueue (Some 2))),
        (''C'', Inr (MatchFound \<lparr>m_opponentId = ''A'', m_battleId = ''C-A''\<rparr>))]
   \<and> exOwner ''A'' = exOwner ''B''
   \<and> exOwner (m_opponentId \<lparr>m_opponentId = ''A'', m_battleId = ''C-A''\<rparr>) \<noteq> exOwner ''C''"
proof -
  have e: "addAllToQueue exStartBattle exOwner [(''t1'', ''A''), (''t2'', ''B''), (''t3'', ''C'')]
     initialMatchmaking
     = [(''A'', Inr (AddedToQueue (Some 1))), (''B'', Inr (AddedToQueue (Some 2))),
        (''C'', Inr (MatchFound \<lparr>m_opponentId = ''A'', m_battleId = ''C-A''\<rparr>))]"
    by code_simp
  have o: "exOwner ''A'' = exOwner ''B''" by (simp add: exOwner_def)
  have "(''C'', Inr (MatchFound \<lparr>m_opponentId = ''A'', m_battleId = ''C-A''\<rparr>))
          \<in> set (addAllToQueue exStartBattle exOwner
                   [(''t1'', ''A''), (''t2'', ''B''), (''t3'', ''C'')] initialMatchmaking)"
    unfolding e by simp
  from no_match_within_one_player[THEN conjunct2, THEN conjunct2, rule_format, OF this]
  have "exOwner (m_opponentId \<lparr>m_opponentId = ''A'', m_battleId = ''C-A''\<rparr>) \<noteq> exOwner ''C''" .
  with e o show ?thesis by (intro conjI)
qed

section \<open>The battle terminates\<close>

lemma modifier_lower:
  assumes "distinct (map b_type bs)" "\<forall>b\<in>set bs. slowBounded lo (b_type b) (b_amount b)"
  shows "min 1 (1 + lo / 100) \<le> attackSpeedModifier bs 1"
proof -
  let ?f = "filter (\<lambda>b. b_type b = ''attackSpeedReduction'') bs"
  have len: "length ?f \<le> 1" using distinct_filter_le1[OF assms(1)] .
  show ?thesis
  proof (cases ?f)
    case Nil
    then show ?thesis by (simp add: attackSpeedModifier_prod)
  next
    case (Cons b rest)
    with len have rest: "rest = []" by simp
    have "b \<in> set ?f" using Cons by simp
    then have "b \<in> set bs" "b_type b = ''attackSpeedReduction''" by simp_all
    with assms(2) have "lo \<le> b_amount b" by (auto simp: slowBounded_def)
    then show ?thesis using Cons rest by (simp add: attackSpeedModifier_prod min_def)
  qed
qed

lemma speed_lower:
  assumes "charInv (slowBounded lo) E ch" "0 \<le> attackSpeed (c_stats ch)"
  shows "attackSpeed (c_stats ch) * min 1 (1 + lo / 100) \<le> getEffectiveAttackSpeed ch"
  unfolding getEffectiveAttackSpeed_def
  using modifier_lower[of "buffs ch" lo] assms
  by (intro mult_left_mono) (auto simp: charInv_def)

lemma potential_decreases:
  fixes n n' d :: real
  assumes "0 < d" "n < 300" "n + d \<le> n'"
  shows "nat \<lceil>(300 - n') / d\<rceil> < nat \<lceil>(300 - n) / d\<rceil>"
proof -
  have "(300 - n') / d \<le> (300 - n - d) / d"
    using assms by (intro divide_right_mono) auto
  also have "\<dots> = (300 - n) / d - 1"
    using assms by (simp add: diff_divide_distrib)
  finally have "(300 - n') / d \<le> (300 - n) / d - 1" .
  then have "\<lceil>(300 - n') / d\<rceil> \<le> \<lceil>(300 - n) / d - 1\<rceil>" by (rule ceiling_mono)
  then have le: "\<lceil>(300 - n') / d\<rceil> \<le> \<lceil>(300 - n) / d\<rceil> - 1" by simp
  have "0 < (300 - n) / d" using assms by simp
  then have "0 < \<lceil>(300 - n) / d\<rceil>" by simp
  with le show ?thesis by linarith
qed

lemma potential_zero:
  fixes n d :: real
  assumes "0 < d" "nat \<lceil>(300 - n) / d\<rceil> = 0"
  shows "300 \<le> n"
proof -
  from assms(2) have "\<lceil>(300 - n) / d\<rceil> \<le> 0" by simp
  then have "(300 - n) / d \<le> 0" by simp
  with assms(1) show ?thesis by (simp add: field_simps)
qed

lemma battleLoop_mono:
  "battleLoop n rnd abilities ls = Some r \<Longrightarrow> n \<le> m \<Longrightarrow> battleLoop m rnd abilities ls = Some r"
proof (induction n arbitrary: m ls)
  case 0
  then show ?case by simp
next
  case (Suc n)
  then obtain m' where m: "m = Suc m'" "n \<le> m'" by (cases m) auto
  from Suc.prems(1) show ?case
    unfolding m by (auto split: if_splits intro: Suc.IH[OF _ m(2)])
qed


lemma characters_initial:
  "character1 (battle (initialLoopState d1 d2)) = createCharacterBattleState d1"
  "character2 (battle (initialLoopState d1 d2)) = createCharacterBattleState d2"
  by (simp_all add: initialLoopState_def initializeBattleLog_def Let_def createBattleState_def)

lemma abilitiesOk_valid:
  assumes "validCombatants lo abilities d1 d2"
  shows "abilitiesOk (slowBounded lo) (\<lambda>_ _ _. True) abilities (battle (initialLoopState d1 d2))"
  using assms
  by (auto simp: abilitiesOk_def validCombatants_def slowBounded_def characters_initial)

lemma speedFloor_pos:
  "validCombatants lo abilities d1 d2 \<Longrightarrow> 0 < speedFloor lo d1 d2"
  by (auto simp: validCombatants_def speedFloor_def min_def intro!: mult_pos_pos)

lemma reached_facts:
  assumes v: "validCombatants lo abilities d1 d2"
    and r: "reaches rnd abilities (initialLoopState d1 d2) ls"
  shows "battleInv (slowBounded lo) (\<lambda>_ _ _. True) (battle ls)"
    and "abilitiesOk (slowBounded lo) (\<lambda>_ _ _. True) abilities (battle ls)"
    and "c_stats (character1 (battle ls)) = d_stats d1"
    and "c_stats (character2 (battle ls)) = d_stats d2"
proof -
  note p = preserves_reaches[OF r abilitiesOk_valid[OF v]]
  from p battleInv_initial show "battleInv (slowBounded lo) (\<lambda>_ _ _. True) (battle ls)"
    by (simp add: preserves_def)
  from p have s: "sameStatic (battle (initialLoopState d1 d2)) (battle ls)"
    by (simp add: preserves_def)
  from abilitiesOk_static[OF s] abilitiesOk_valid[OF v]
  show "abilitiesOk (slowBounded lo) (\<lambda>_ _ _. True) abilities (battle ls)" by simp
  from s show "c_stats (character1 (battle ls)) = d_stats d1"
    and "c_stats (character2 (battle ls)) = d_stats d2"
    by (simp_all add: sameStatic_def static_def characters_initial createCharacterBattleState_def)
qed

lemma speed_after_attack:
  assumes v: "validCombatants lo abilities d1 d2"
    and r: "reaches rnd abilities (initialLoopState d1 d2) ls"
  shows "speedFloor lo d1 d2
           \<le> getEffectiveAttackSpeed (getc sd (processAttack rnd abilities att t (battle ls)))"
proof -
  let ?s' = "processAttack rnd abilities att t (battle ls)"
  note f = reached_facts[OF v r]
  have p: "preserves (slowBounded lo) (\<lambda>_ _ _. True) (battle ls) ?s'"
    by (rule preserves_processAttack[OF preserves_refl f(2)])
  with f(1) have inv: "battleInv (slowBounded lo) (\<lambda>_ _ _. True) ?s'"
    by (simp add: preserves_def)
  then have ci: "charInv (slowBounded lo) (\<lambda>_ _ _. True) (getc sd ?s')"
    by (cases sd) (simp_all add: battleInv_def)
  from p have "sameStatic (battle ls) ?s'" by (simp add: preserves_def)
  then have st: "c_stats (getc sd ?s') = (case sd of First \<Rightarrow> d_stats d1 | Second \<Rightarrow> d_stats d2)"
    using f(3,4) by (cases sd) (simp_all add: sameStatic_def static_def)
  from v have pos: "0 < attackSpeed (d_stats d1)" "0 < attackSpeed (d_stats d2)" "- 100 < lo"
    by (simp_all add: validCombatants_def)
  have nn: "0 \<le> attackSpeed (c_stats (getc sd ?s'))"
    using pos st by (cases sd) simp_all
  have m: "0 \<le> min 1 (1 + lo / 100)" using pos(3) by (simp add: min_def)
  have "speedFloor lo d1 d2 \<le> attackSpeed (c_stats (getc sd ?s')) * min 1 (1 + lo / 100)"
    unfolding speedFloor_def st using m
    by (cases sd) (auto intro!: mult_right_mono)
  also note speed_lower[OF ci nn]
  finally show ?thesis .
qed

lemma loopBody_progress:
  assumes v: "validCombatants lo abilities d1 d2"
    and r: "reaches rnd abilities (initialLoopState d1 d2) ls"
  shows "(300 \<le> battleTime (loopBody rnd abilities ls))
       \<or> potential (speedFloor lo d1 d2) (loopBody rnd abilities ls)
           < potential (speedFloor lo d1 d2) ls"
proof (cases "char1NextAttack ls \<le> char2NextAttack ls")
  case True
  note l = loopBody_first[OF True, of rnd abilities]
  show ?thesis
  proof (cases "char1NextAttack ls < 300")
    case False
    with l(1) show ?thesis by simp
  next
    case lt: True
    have "char1NextAttack ls + speedFloor lo d1 d2 \<le> char1NextAttack (loopBody rnd abilities ls)"
      unfolding l(3) using speed_after_attack[OF v r, where sd=First and att=First and t="char1NextAttack ls"]
      by simp
    from potential_decreases[OF speedFloor_pos[OF v] lt this] show ?thesis
      by (simp add: potential_def l(2))
  qed
next
  case False
  note l = loopBody_second[OF False, of rnd abilities]
  show ?thesis
  proof (cases "char2NextAttack ls < 300")
    case False
    with l(1) show ?thesis by simp
  next
    case lt: True
    have "char2NextAttack ls + speedFloor lo d1 d2 \<le> char2NextAttack (loopBody rnd abilities ls)"
      unfolding l(3) using speed_after_attack[OF v r, where sd=Second and att=Second and t="char2NextAttack ls"]
      by simp
    from potential_decreases[OF speedFloor_pos[OF v] lt this] show ?thesis
      by (simp add: potential_def l(2))
  qed
qed

lemma battleLoop_terminates:
  assumes v: "validCombatants lo abilities d1 d2"
  shows "reaches rnd abilities (initialLoopState d1 d2) ls
     \<Longrightarrow> potential (speedFloor lo d1 d2) ls \<le> m
     \<Longrightarrow> \<exists>r. battleLoop (m + 2) rnd abilities ls = Some r"
proof (induction m arbitrary: ls)
  case 0
  show ?case
  proof (cases "loopCondition ls")
    case False
    then show ?thesis by simp
  next
    case True
    from loopBody_progress[OF v "0.prems"(1)] "0.prems"(2)
    have "300 \<le> battleTime (loopBody rnd abilities ls)" by simp
    then have "\<not> loopCondition (loopBody rnd abilities ls)"
      by (simp add: loopCondition_def maxBattleTime_def)
    with True show ?thesis by (simp add: numeral_2_eq_2)
  qed
next
  case (Suc m)
  show ?case
  proof (cases "loopCondition ls")
    case False
    then show ?thesis by simp
  next
    case True
    note r' = reaches.step[OF Suc.prems(1) True]
    from loopBody_progress[OF v Suc.prems(1)]
    show ?thesis
    proof
      assume "300 \<le> battleTime (loopBody rnd abilities ls)"
      then have "\<not> loopCondition (loopBody rnd abilities ls)"
        by (simp add: loopCondition_def maxBattleTime_def)
      with True show ?thesis by (simp add: numeral_2_eq_2)
    next
      assume "potential (speedFloor lo d1 d2) (loopBody rnd abilities ls)
                < potential (speedFloor lo d1 d2) ls"
      with Suc.prems(2) have "potential (speedFloor lo d1 d2) (loopBody rnd abilities ls) \<le> m"
        by simp
      from Suc.IH[OF r' this] True show ?thesis by simp
    qed
  qed
qed

lemma potential_initial:
  "potential d (initialLoopState d1 d2) = 2 * nat \<lceil>maxBattleTime / d\<rceil>"
  by (simp add: potential_def initialLoopState_def maxBattleTime_def)

lemma battleLoop_total:
  assumes v: "validCombatants lo abilities d1 d2"
  shows "\<exists>r. \<forall>fuel \<ge> battleFuel lo d1 d2.
            battleLoop fuel rnd abilities (initialLoopState d1 d2) = Some r"
proof -
  from battleLoop_terminates[OF v reaches.start, of "2 * nat \<lceil>maxBattleTime / speedFloor lo d1 d2\<rceil>" rnd]
  obtain r where "battleLoop (battleFuel lo d1 d2) rnd abilities (initialLoopState d1 d2) = Some r"
    by (auto simp: potential_initial battleFuel_def)
  from battleLoop_mono[OF this] show ?thesis by blast
qed

text \<open>
  With abilities whose effects have the field that their type reads, the health of both
  characters stays a number: every change of a health subtracts or adds a number.
\<close>

lemma healthDefined_sides:
  "healthDefined s \<longleftrightarrow>
     currentHealth (getc sd s) \<noteq> NaN \<and> currentHealth (getc (other sd) s) \<noteq> NaN"
  by (cases sd) (auto simp: healthDefined_def)

lemma healthDefined_addLog [simp]: "healthDefined (addLog t m s) = healthDefined s"
  by (simp add: healthDefined_def)

lemma healthDefined_setc:
  "(currentHealth ch = NaN \<longleftrightarrow> currentHealth (getc sd s) = NaN)
     \<Longrightarrow> healthDefined (setc sd ch s) = healthDefined s"
  by (cases sd) (simp_all add: healthDefined_def)

lemma healthDefined_cong:
  assumes "\<And>sd. currentHealth (getc sd s') = NaN \<longleftrightarrow> currentHealth (getc sd s) = NaN"
  shows "healthDefined s' = healthDefined s"
  using assms[of First] assms[of Second] by (simp add: healthDefined_def)

lemma attacker_health_physical:
  "currentHealth (getc att (snd (performPhysicalAttack rnd att time nm multiplier gc s)))
     = currentHealth (getc att s)"
  by (simp add: performPhysicalAttack_def Let_def split_beta getc_setc)

lemma healthDefined_physical [simp]:
  "healthDefined (snd (performPhysicalAttack rnd att time nm multiplier gc s)) = healthDefined s"
  by (simp add: healthDefined_sides[of _ att] physical_health attacker_health_physical)

lemma healthDefined_magic [simp]:
  "healthDefined (snd (performMagicAttack rnd abilities att time nm multiplier s)) = healthDefined s"
  by (simp add: healthDefined_sides[of _ att] magic_health attacker_health_magic)

lemma healthDefined_basic [simp]:
  "healthDefined (performBasicAttack rnd abilities att time s) = healthDefined s"
  by (simp add: performBasicAttack_def)

lemma healthDefined_applyBuff [simp]: "healthDefined (applyBuff who time b s) = healthDefined s"
  by (rule healthDefined_cong) (simp add: applyBuff_def Let_def getc_setc split: option.splits)

lemma healthDefined_applyPeriodicEffect [simp]:
  "healthDefined (applyPeriodicEffect src time e s) = healthDefined s"
  by (rule healthDefined_cong) simp

lemma healthDefined_applyHeal [simp]: "healthDefined (applyHeal who time h s) = healthDefined s"
  by (rule healthDefined_cong) (simp add: applyHeal_def Let_def getc_setc)

lemma healthDefined_multiAttackHit [simp]:
  "healthDefined (multiAttackHit rnd abilities att t n ab s) = healthDefined s"
  by (simp add: multiAttackHit_def Let_def)

lemma healthDefined_additionalHits [simp]:
  "healthDefined (additionalHits rnd abilities att time ab d k i s) = healthDefined s"
  by (induction k arbitrary: i s) simp_all

lemma healthDefined_processAbility [simp]:
  "healthDefined (processAbility rnd abilities att time ab s) = healthDefined s"
proof -
  have m: "healthDefined (processMultiAttackAbility rnd abilities att time ab ma msg s)
             = healthDefined s" for ma msg
    by (simp add: processMultiAttackAbility_def Let_def)
  have b: "healthDefined (processBuffAbility att time ab be msg s) = healthDefined s" for be msg
    by (simp add: processBuffAbility_def Let_def)
  have h: "healthDefined (processHealAbility att time he msg s) = healthDefined s" for he msg
    by (simp add: processHealAbility_def)
  have d: "healthDefined (processDotAbility rnd abilities att time ab de s) = healthDefined s" for de
    by (simp add: processDotAbility_def Let_def)
  have p: "healthDefined (processPeriodicAbility att time ab pe msg s) = healthDefined s" for pe msg
    by (simp add: processPeriodicAbility_def Let_def healthDefined_setc)
  have g: "healthDefined (processDamageAbility rnd abilities att time ab s) = healthDefined s"
    by (simp add: processDamageAbility_def Let_def split_beta healthDefined_setc
        split: option.splits)
  show ?thesis
    by (simp add: processAbility_def Let_def m b h d p g split: option.splits)
qed

lemma healthDefined_processAttack [simp]:
  "healthDefined (processAttack rnd abilities att time s) = healthDefined s"
  by (simp add: processAttack_def Let_def healthDefined_setc split: option.splits)

lemma healthDefined_procEffect:
  assumes "wellTyped (e_type e) (e_damage e) (e_amount e)"
  shows "healthDefined (procEffect who time e s) = healthDefined s"
proof (rule healthDefined_cong)
  fix sd
  consider (dmg) "e_type e = ''poison'' \<or> e_type e = ''burning''"
    | (drain) "e_type e = ''manaDrain''" | (regen) "e_type e = ''regeneration''"
    | (mana) "e_type e = ''manaRegen''"
    | (unknown) "e_type e \<noteq> ''poison''" "e_type e \<noteq> ''burning''" "e_type e \<noteq> ''manaDrain''"
        "e_type e \<noteq> ''regeneration''" "e_type e \<noteq> ''manaRegen''"
    by blast
  then show "currentHealth (getc sd (procEffect who time e s)) = NaN
               \<longleftrightarrow> currentHealth (getc sd s) = NaN"
  proof cases
    case dmg
    with assms obtain d where d: "e_damage e = Some d" by (auto simp: wellTyped_def)
    show ?thesis
      using procEffect_damage(1,2)[OF dmg, of who time s] d
      by (cases "sd = who"; cases sd; cases who) (simp_all add: toNumber_def)
  next
    case drain
    then show ?thesis
      by (cases sd; cases who) (simp_all add: procEffect_def Let_def)
  next
    case regen
    with assms obtain a where a: "e_amount e = Some a" by (auto simp: wellTyped_def)
    show ?thesis
      using procEffect_regeneration(1,2)[OF regen, of who time s] a
      by (cases "sd = who"; cases sd; cases who) (simp_all add: toNumber_def)
  next
    case mana
    then show ?thesis by (simp add: procEffect_manaRegen)
  next
    case unknown
    then show ?thesis by (simp add: procEffect_unknown)
  qed
qed

lemma healthDefined_effectStep:
  "wellTyped (e_type e) (e_damage e) (e_amount e)
     \<Longrightarrow> healthDefined (effectStep who time e s) = healthDefined s"
  by (simp add: effectStep_def Let_def healthDefined_procEffect)

lemma healthDefined_foldr:
  "\<forall>e\<in>set xs. wellTyped (e_type e) (e_damage e) (e_amount e)
     \<Longrightarrow> healthDefined (foldr (effectStep who time) xs s) = healthDefined s"
  by (induction xs) (simp_all add: healthDefined_effectStep)

lemma healthDefined_setEffects [simp]: "healthDefined (setEffects who es s) = healthDefined s"
  by (simp add: setEffects_def healthDefined_setc)

lemma healthDefined_buffsLoop [simp]: "healthDefined (buffsLoop who time n s) = healthDefined s"
  by (rule healthDefined_cong) simp

lemma healthDefined_processCharacterEffects:
  assumes "charInv Q wellTyped (getc who s)"
  shows "healthDefined (processCharacterEffects who time s) = healthDefined s"
proof -
  from assms have "\<forall>e\<in>set (periodicEffects (getc who s)).
                     wellTyped (e_type e) (e_damage e) (e_amount e)"
    by (simp add: charInv_def)
  from healthDefined_foldr[OF this, of who time s] show ?thesis
    by (subst processCharacterEffects_state) simp
qed

lemma battleInv_getc: "battleInv Q E s \<Longrightarrow> charInv Q E (getc sd s)"
  by (cases sd) (simp_all add: battleInv_def)

lemma healthDefined_processEffects:
  assumes "battleInv Q wellTyped s"
  shows "healthDefined (processEffects time s) = healthDefined s"
proof -
  let ?s1 = "processCharacterEffects First time s"
  from preserves_processCharacterEffects[OF preserves_refl, of Q wellTyped s First time] assms
  have "battleInv Q wellTyped ?s1" by (simp add: preserves_def)
  from healthDefined_processCharacterEffects[OF battleInv_getc[OF this], of Second time]
    healthDefined_processCharacterEffects[OF battleInv_getc[OF assms], of First time]
  show ?thesis by (simp add: processEffects_def)
qed

lemma healthDefined_rounds [simp]: "healthDefined (s\<lparr>rounds := n\<rparr>) = healthDefined s"
  by (simp add: healthDefined_def)

lemma healthDefined_loopBody:
  assumes "battleInv Q wellTyped (battle ls)" "abilitiesOk Q wellTyped abilities (battle ls)"
  shows "healthDefined (battle (loopBody rnd abilities ls)) = healthDefined (battle ls)"
proof -
  have inv: "battleInv Q wellTyped (processAttack rnd abilities att t (battle ls))" for att t
    using preserves_processAttack[OF preserves_refl assms(2), of rnd att t] assms(1)
    by (simp add: preserves_def)
  show ?thesis
    by (simp add: loopBody_def Let_def healthDefined_processEffects[OF inv])
qed

lemma abilitiesOk_wellTyped:
  assumes "wellTypedAbilities abilities"
  shows "abilitiesOk (\<lambda>_ _. True) wellTyped abilities s"
  using assms
  by (auto simp: abilitiesOk_def wellTypedAbilities_def wellTyped_def)

lemma healthDefined_reaches:
  assumes w: "wellTypedAbilities abilities"
    and r: "reaches rnd abilities (initialLoopState d1 d2) ls"
  shows "healthDefined (battle ls)"
  using r
proof (induction rule: reaches.induct)
  case start
  show ?case
    by (simp add: healthDefined_def characters_initial createCharacterBattleState_def)
next
  case (step ls)
  note ok = abilitiesOk_wellTyped[OF w]
  from preserves_reaches[OF step.hyps(1) ok] battleInv_initial
  have "battleInv (\<lambda>_ _. True) wellTyped (battle ls)" by (simp add: preserves_def)
  from healthDefined_loopBody[OF this ok, of rnd] step.IH show ?case by simp
qed

lemma reaches_last:
  assumes "reaches rnd abilities ls0 ls"
  shows "ls = ls0 \<or> (\<exists>prev. reaches rnd abilities ls0 prev \<and> loopCondition prev
                        \<and> ls = loopBody rnd abilities prev)"
  using assms by (cases rule: reaches.cases) auto




end
